theory Spec2Isabelle
  imports Complex_Main
begin

section \<open>Numbers\<close>

text \<open>
  A TypeScript \<open>number\<close> is an IEEE 754 binary64 value.  The growth formula is evaluated in
  that arithmetic: a finite number is the rational it denotes, every operation rounds its exact
  result to the nearest representable value, a tie going to the even significand, and a result
  of magnitude \<open>2^1024\<close> or more is an infinity.  The two zeros are one value here.

  The other quantities of the game (growth totals, cinnamon, amounts) are exact rationals, and
  counters and levels are integers; the rounding of their sums is outside this development.
\<close>

fun bit_length :: "nat \<Rightarrow> nat" where
  \<comment> \<open>the number of binary digits of \<open>n\<close>\<close>
  "bit_length n = (if n = 0 then 0 else Suc (bit_length (n div 2)))"

declare bit_length.simps [simp del]

definition exponent :: "rat \<Rightarrow> int" where
  \<comment> \<open>for \<open>x \<noteq> 0\<close> the \<open>e\<close> with \<open>2^e \<le> |x| < 2^(e+1)\<close>\<close>
  "exponent x =
     (if 1 \<le> \<bar>x\<bar> then int (bit_length (nat \<lfloor>\<bar>x\<bar>\<rfloor>)) - 1
      else - int (bit_length (nat (\<lceil>1 / \<bar>x\<bar>\<rceil> - 1))))"

definition round_half_even :: "rat \<Rightarrow> int" where
  \<comment> \<open>the nearest integer, a tie going to the even one\<close>
  "round_half_even q =
     (let n = \<lfloor>q\<rfloor>; r = q - of_int n
      in if r < 1 / 2 then n else if 1 / 2 < r then n + 1 else if even n then n else n + 1)"

definition binary64 :: "rat \<Rightarrow> rat" where
  \<comment> \<open>Rounding to a significand of 53 bits; below \<open>2^-1022\<close> the spacing stays \<open>2^-1074\<close>.\<close>
  "binary64 x =
     (if x = 0 then 0
      else let e = max (exponent x - 52) (- 1074)
           in of_int (round_half_even (x / 2 powi e)) * 2 powi e)"

datatype number = Finite rat | PosInfinity | NegInfinity | NaN

definition to_number :: "rat \<Rightarrow> number" where
  \<comment> \<open>The number that an exact result, or a decimal literal of the source, becomes.\<close>
  "to_number x =
     (let y = binary64 x
      in if 2 ^ 1024 \<le> y then PosInfinity
         else if y \<le> - (2 ^ 1024) then NegInfinity
         else Finite y)"

fun is_negative :: "number \<Rightarrow> bool" where
  "is_negative (Finite x) = (x < 0)"
| "is_negative NegInfinity = True"
| "is_negative _ = False"

definition infinity :: "bool \<Rightarrow> number" where
  "infinity negative = (if negative then NegInfinity else PosInfinity)"

fun num_mul :: "number \<Rightarrow> number \<Rightarrow> number" where
  \<comment> \<open>\<open>a * b\<close>\<close>
  "num_mul NaN _ = NaN"
| "num_mul _ NaN = NaN"
| "num_mul (Finite x) (Finite y) = to_number (x * y)"
| "num_mul (Finite x) b = (if x = 0 then NaN else infinity ((x < 0) \<noteq> is_negative b))"
| "num_mul a (Finite y) = (if y = 0 then NaN else infinity (is_negative a \<noteq> (y < 0)))"
| "num_mul a b = infinity (is_negative a \<noteq> is_negative b)"

fun num_add :: "number \<Rightarrow> number \<Rightarrow> number" where
  \<comment> \<open>\<open>a + b\<close>\<close>
  "num_add NaN _ = NaN"
| "num_add _ NaN = NaN"
| "num_add (Finite x) (Finite y) = to_number (x + y)"
| "num_add (Finite x) b = b"
| "num_add a (Finite y) = a"
| "num_add a b = (if a = b then a else NaN)"

fun num_div :: "number \<Rightarrow> number \<Rightarrow> number" where
  \<comment> \<open>\<open>a / b\<close>; a zero divisor is taken as \<open>+0\<close>\<close>
  "num_div NaN _ = NaN"
| "num_div _ NaN = NaN"
| "num_div (Finite x) (Finite y) =
     (if y = 0 then (if x = 0 then NaN else infinity (x < 0)) else to_number (x / y))"
| "num_div (Finite x) b = Finite 0"
| "num_div a (Finite y) = infinity (is_negative a \<noteq> (y < 0))"
| "num_div a b = NaN"

fun Math_round :: "number \<Rightarrow> number" where
  \<comment> \<open>JavaScript \<open>Math.round\<close>: the nearest integer, a tie going towards plus infinity.\<close>
  "Math_round (Finite x) = Finite (of_int \<lfloor>x + 1 / 2\<rfloor>)"
| "Math_round a = a"

definition round2 :: "rat \<Rightarrow> rat" where
  \<comment> \<open>The specification's rounding: two decimal places, half-up at the second decimal.\<close>
  "round2 x = of_int \<lfloor>x * 100 + 1 / 2\<rfloor> / 100"

section \<open>Game configuration (constants.ts)\<close>

text \<open>\<open>GROWTH_MULTIPLIERS\<close>: the literals \<open>1.5\<close>, \<open>2\<close>, \<open>3\<close> and \<open>0.1\<close>.\<close>

definition SEEDS_PLANTED :: number where "SEEDS_PLANTED = to_number (3 / 2)"
definition SPIRITS_FED :: number where "SPIRITS_FED = to_number 2"
definition ROBOT_CHARGED :: number where "ROBOT_CHARGED = to_number 3"
definition REDDIT_UPVOTES :: number where "REDDIT_UPVOTES = to_number (1 / 10)"

definition UPVOTE_CINNAMON :: rat where "UPVOTE_CINNAMON = 1 / 10"
definition STARTING_CINNAMON :: rat where "STARTING_CINNAMON = 10"
definition DAILY_BONUS :: rat where "DAILY_BONUS = 5"
definition MAX_CINNAMON :: rat where "MAX_CINNAMON = 10000"

record TreeLevel =
  level :: int
  growthRequired :: rat

definition SEEDLING :: TreeLevel where "SEEDLING = \<lparr>level = 1, growthRequired = 0\<rparr>"
definition SAPLING :: TreeLevel where "SAPLING = \<lparr>level = 2, growthRequired = 50\<rparr>"
definition YOUNG_TREE :: TreeLevel where "YOUNG_TREE = \<lparr>level = 3, growthRequired = 150\<rparr>"
definition MATURE_TREE :: TreeLevel where "MATURE_TREE = \<lparr>level = 4, growthRequired = 300\<rparr>"
definition ANCIENT_TREE :: TreeLevel where "ANCIENT_TREE = \<lparr>level = 5, growthRequired = 500\<rparr>"
definition SPIRIT_TREE :: TreeLevel where "SPIRIT_TREE = \<lparr>level = 6, growthRequired = 1000\<rparr>"

definition TREE_LEVELS :: "TreeLevel list" where
  \<comment> \<open>\<open>Object.values(GAME_CONFIG.TREE_LEVELS)\<close>: the entries in the order they are written.\<close>
  "TREE_LEVELS = [SEEDLING, SAPLING, YOUNG_TREE, MATURE_TREE, ANCIENT_TREE, SPIRIT_TREE]"

lemmas level_defs =
  SEEDLING_def SAPLING_def YOUNG_TREE_def MATURE_TREE_def ANCIENT_TREE_def SPIRIT_TREE_def

definition INSUFFICIENT_RESOURCES :: string where
  "INSUFFICIENT_RESOURCES = ''Not enough cinnamon to perform this action''"

definition REDIS_CONNECTION_ERROR :: string where
  "REDIS_CONNECTION_ERROR = ''Database connection error''"

section \<open>Growth engine\<close>

subsection \<open>shared/utils/growth.ts\<close>

definition calculateGrowth :: "number \<Rightarrow> number \<Rightarrow> number \<Rightarrow> number \<Rightarrow> number" where
  \<comment> \<open>The arguments are the four fields of \<open>stats\<close>.\<close>
  "calculateGrowth seedsPlanted spiritsFed robotCharged redditUpvotes =
     num_add (num_add (num_add (num_mul seedsPlanted SEEDS_PLANTED)
                               (num_mul spiritsFed SPIRITS_FED))
                      (num_mul robotCharged ROBOT_CHARGED))
             (num_mul redditUpvotes REDDIT_UPVOTES)"

definition calculateTreeLevel :: "rat \<Rightarrow> int" where
  "calculateTreeLevel totalGrowth =
     (if totalGrowth \<ge> growthRequired SPIRIT_TREE then level SPIRIT_TREE
      else if totalGrowth \<ge> growthRequired ANCIENT_TREE then level ANCIENT_TREE
      else if totalGrowth \<ge> growthRequired MATURE_TREE then level MATURE_TREE
      else if totalGrowth \<ge> growthRequired YOUNG_TREE then level YOUNG_TREE
      else if totalGrowth \<ge> growthRequired SAPLING then level SAPLING
      else level SEEDLING)"

subsection \<open>GrowthCalculationService\<close>

definition GrowthCalculationService_calculateGrowth ::
  "number \<Rightarrow> number \<Rightarrow> number \<Rightarrow> number \<Rightarrow> number" where
  "GrowthCalculationService_calculateGrowth seedsPlanted spiritsFed robotCharged redditUpvotes =
     (let growth =
            num_add (num_add (num_add (num_mul seedsPlanted SEEDS_PLANTED)
                                      (num_mul spiritsFed SPIRITS_FED))
                             (num_mul robotCharged ROBOT_CHARGED))
                    (num_mul redditUpvotes REDDIT_UPVOTES)
      in num_div (Math_round (num_mul growth (to_number 100))) (to_number 100))"

fun insert_cmp :: "('a \<Rightarrow> 'a \<Rightarrow> rat) \<Rightarrow> 'a \<Rightarrow> 'a list \<Rightarrow> 'a list" where
  "insert_cmp cmp x [] = [x]"
| "insert_cmp cmp x (y # ys) = (if cmp x y \<le> 0 then x # y # ys else y # insert_cmp cmp x ys)"

fun Array_sort :: "('a \<Rightarrow> 'a \<Rightarrow> rat) \<Rightarrow> 'a list \<Rightarrow> 'a list" where
  \<comment> \<open>\<open>Array.prototype.sort\<close> with a comparator: a stable sort.\<close>
  "Array_sort cmp [] = []"
| "Array_sort cmp (x # xs) = insert_cmp cmp x (Array_sort cmp xs)"

fun first_reached :: "rat \<Rightarrow> TreeLevel list \<Rightarrow> int" where
  \<comment> \<open>The \<open>for\<close> loop over the levels: the first one reached is returned, 1 when none is.\<close>
  "first_reached totalGrowth [] = 1"
| "first_reached totalGrowth (l # ls) =
     (if totalGrowth \<ge> growthRequired l then level l else first_reached totalGrowth ls)"

definition GrowthCalculationService_calculateTreeLevel :: "rat \<Rightarrow> int" where
  "GrowthCalculationService_calculateTreeLevel totalGrowth =
     (let levels = TREE_LEVELS;
          sortedLevels = Array_sort (\<lambda>a b. growthRequired b - growthRequired a) levels
      in first_reached totalGrowth sortedLevels)"

subsection \<open>RedisGameService.calculateTreeLevel\<close>

definition RedisGameService_calculateTreeLevel :: "rat \<Rightarrow> int" where
  \<comment> \<open>The index runs from \<open>levels.length - 1\<close> down to 0.\<close>
  "RedisGameService_calculateTreeLevel totalGrowth = first_reached totalGrowth (rev TREE_LEVELS)"

section \<open>Data model (shared/types/api.ts)\<close>

text \<open>A \<open>Date\<close> is its epoch time in milliseconds.\<close>

type_synonym Date = nat

record GameState =
  subredditName :: string
  treeLevel :: int
  totalGrowth :: rat
  seedsPlanted :: int
  spiritsFed :: int
  robotCharged :: int
  dailyUpvotes :: int
  lastGrowthCalculation :: Date
  createdAt :: Date
  updatedAt :: Date

record PlayerResources =
  username :: string
  subredditName_p :: string
  cinnamon :: rat
  seeds :: rat
  energy :: rat
  totalContributions :: rat
  lastActive :: Date

datatype ActionType = plant | feed | charge | post

record ActionHistory =
  id_a :: string
  username_a :: string
  subredditName_a :: string
  actionType :: ActionType
  resourcesSpent :: rat
  timestamp :: Date
  growthContributed :: rat

text \<open>
  \<open>Partial<Omit<GameState, 'subredditName' | 'createdAt'>>\<close> and
  \<open>Partial<Omit<PlayerResources, 'username' | 'subredditName'>>\<close>: a field that is absent
  is \<open>None\<close>.
\<close>

record GameStateUpdates =
  u_treeLevel :: "int option"
  u_totalGrowth :: "rat option"
  u_seedsPlanted :: "int option"
  u_spiritsFed :: "int option"
  u_robotCharged :: "int option"
  u_dailyUpvotes :: "int option"
  u_lastGrowthCalculation :: "Date option"
  u_updatedAt :: "Date option"

record PlayerResourcesUpdates =
  u_cinnamon :: "rat option"
  u_seeds :: "rat option"
  u_energy :: "rat option"
  u_totalContributions :: "rat option"
  u_lastActive :: "Date option"

definition no_updates :: GameStateUpdates where
  "no_updates = \<lparr>u_treeLevel = None, u_totalGrowth = None, u_seedsPlanted = None,
     u_spiritsFed = None, u_robotCharged = None, u_dailyUpvotes = None,
     u_lastGrowthCalculation = None, u_updatedAt = None\<rparr>"

definition no_player_updates :: PlayerResourcesUpdates where
  "no_player_updates = \<lparr>u_cinnamon = None, u_seeds = None, u_energy = None,
     u_totalContributions = None, u_lastActive = None\<rparr>"

definition or_else :: "'a option \<Rightarrow> 'a \<Rightarrow> 'a" where
  "or_else x d = (case x of None \<Rightarrow> d | Some v \<Rightarrow> v)"

definition spread_GameState :: "GameState \<Rightarrow> GameStateUpdates \<Rightarrow> GameState" where
  \<comment> \<open>\<open>{ ...currentState, ...updates }\<close>\<close>
  "spread_GameState g u = g\<lparr>
     treeLevel := or_else (u_treeLevel u) (treeLevel g),
     totalGrowth := or_else (u_totalGrowth u) (totalGrowth g),
     seedsPlanted := or_else (u_seedsPlanted u) (seedsPlanted g),
     spiritsFed := or_else (u_spiritsFed u) (spiritsFed g),
     robotCharged := or_else (u_robotCharged u) (robotCharged g),
     dailyUpvotes := or_else (u_dailyUpvotes u) (dailyUpvotes g),
     lastGrowthCalculation := or_else (u_lastGrowthCalculation u) (lastGrowthCalculation g),
     updatedAt := or_else (u_updatedAt u) (updatedAt g)\<rparr>"

definition spread_PlayerResources :: "PlayerResources \<Rightarrow> PlayerResourcesUpdates \<Rightarrow> PlayerResources" where
  "spread_PlayerResources r u = r\<lparr>
     cinnamon := or_else (u_cinnamon u) (cinnamon r),
     seeds := or_else (u_seeds u) (seeds r),
     energy := or_else (u_energy u) (energy r),
     totalContributions := or_else (u_totalContributions u) (totalContributions r),
     lastActive := or_else (u_lastActive u) (lastActive r)\<rparr>"

section \<open>The key-value store and the effects of a call\<close>

text \<open>
  The store maps a key to the JSON value written under it.  The values this code writes are a
  game state, a player's resources, or an array (of action records, or of user names).
\<close>

datatype Item = IAction ActionHistory | IName string

datatype Stored = SState GameState | SPlayer PlayerResources | SArray "Item list"

text \<open>
  The world a service call runs in: the store, the outcome of each coming store call
  (\<open>Some msg\<close>: the call throws an error with that message; \<open>None\<close>, or an exhausted list: it
  succeeds), the clock in milliseconds (advanced by \<open>setTimeout\<close>), the number of store calls
  made so far, and the coming values of \<open>Math.random().toString(36).substr(2, 9)\<close>.
\<close>

record World =
  store :: "string \<rightharpoonup> Stored"
  faults :: "string option list"
  clock :: nat
  calls :: nat
  entropy :: "string list"

text \<open>A call returns a value or throws an \<open>Error\<close> (its message), and leaves a new world.\<close>

type_synonym 'a io = "World \<Rightarrow> (string + 'a) \<times> World"

definition return :: "'a \<Rightarrow> 'a io" where
  "return v w = (Inr v, w)"

definition throw :: "string \<Rightarrow> 'a io" where
  "throw msg w = (Inl msg, w)"

definition bind_io :: "'a io \<Rightarrow> ('a \<Rightarrow> 'b io) \<Rightarrow> 'b io" where
  "bind_io m f w = (case m w of (Inl e, w') \<Rightarrow> (Inl e, w') | (Inr v, w') \<Rightarrow> f v w')"

definition catch_io :: "'a io \<Rightarrow> (string \<Rightarrow> 'a io) \<Rightarrow> 'a io" where
  "catch_io m h w = (case m w of (Inl e, w') \<Rightarrow> h e w' | (Inr v, w') \<Rightarrow> (Inr v, w'))"

definition Date_now :: "Date io" where
  "Date_now w = (Inr (clock w), w)"

definition setTimeout :: "nat \<Rightarrow> unit io" where
  \<comment> \<open>\<open>await new Promise(resolve => setTimeout(resolve, delay))\<close>\<close>
  "setTimeout delay w = (Inr (), w\<lparr>clock := clock w + delay\<rparr>)"

definition failing :: "World \<Rightarrow> string option" where
  \<comment> \<open>the error of the coming store call, if it is to fail\<close>
  "failing w = (case faults w of Some msg # _ \<Rightarrow> Some msg | _ \<Rightarrow> None)"

definition tick :: "World \<Rightarrow> World" where
  \<comment> \<open>one store call has been made\<close>
  "tick w = w\<lparr>calls := calls w + 1, faults := tl (faults w)\<rparr>"

definition store_call :: "(World \<Rightarrow> 'a \<times> World) \<Rightarrow> 'a io" where
  "store_call f w =
     (case failing w of
        Some msg \<Rightarrow> (Inl msg, tick w)
      | None \<Rightarrow> (case f (tick w) of (v, w') \<Rightarrow> (Inr v, w')))"

definition redis_get :: "string \<Rightarrow> Stored option io" where
  "redis_get key = store_call (\<lambda>w. (store w key, w))"

definition redis_set :: "string \<Rightarrow> Stored \<Rightarrow> unit io" where
  "redis_set key v = store_call (\<lambda>w. ((), w\<lparr>store := (store w)(key \<mapsto> v)\<rparr>))"

subsection \<open>Redis key patterns (constants.ts)\<close>

definition SUBREDDIT_STATE :: "string \<Rightarrow> string" where
  "SUBREDDIT_STATE subreddit = ''cinnarito:subreddit:'' @ subreddit @ '':state''"

definition PLAYER_RESOURCES :: "string \<Rightarrow> string \<Rightarrow> string" where
  "PLAYER_RESOURCES user subreddit =
     ''cinnarito:player:'' @ user @ '':'' @ subreddit @ '':resources''"

definition ACTION_HISTORY :: "string \<Rightarrow> string" where
  "ACTION_HISTORY subreddit = ''cinnarito:subreddit:'' @ subreddit @ '':actions''"

definition PLAYER_INDEX :: "string \<Rightarrow> string" where
  \<comment> \<open>the index key built inline in PlayerResourceService\<close>
  "PLAYER_INDEX subreddit = ''cinnarito:subreddit:'' @ subreddit @ '':players''"

subsection \<open>The retry wrapper\<close>

definition maxRetries :: nat where "maxRetries = 3"
definition retryDelay :: nat where "retryDelay = 1000"

definition connection_error :: "string option \<Rightarrow> string" where
  \<comment> \<open>\<open>`${ERROR_MESSAGES.REDIS_CONNECTION_ERROR}: ${lastError?.message || 'Unknown error'}`\<close>\<close>
  "connection_error lastError =
     REDIS_CONNECTION_ERROR @ '': '' @
       (case lastError of None \<Rightarrow> ''Unknown error''
        | Some m \<Rightarrow> if m = [] then ''Unknown error'' else m)"

function retry_from :: "nat \<Rightarrow> string option \<Rightarrow> 'a io \<Rightarrow> 'a io" where
  "retry_from attempt lastError operation w =
     (if attempt \<le> maxRetries then
        (case operation w of
           (Inr v, w') \<Rightarrow> (Inr v, w')
         | (Inl error, w') \<Rightarrow>
             if attempt = maxRetries then (Inl (connection_error (Some error)), w')
             else retry_from (attempt + 1) (Some error) operation
                    (snd (setTimeout (retryDelay * 2 ^ (attempt - 1)) w')))
      else (Inl (connection_error lastError), w))"
  by pat_completeness auto
termination
  by (relation "measure (\<lambda>(attempt, _, _, _). maxRetries + 1 - attempt)") auto

definition withRetry :: "'a io \<Rightarrow> 'a io" where
  \<comment> \<open>The wrapper is written out identically in RedisGameService and PlayerResourceService.\<close>
  "withRetry operation = retry_from 1 None operation"

section \<open>RedisGameService\<close>

fun show_nat :: "nat \<Rightarrow> string" where
  \<comment> \<open>the decimal form of a non-negative integer, as template literals and \<open>String\<close> give it\<close>
  "show_nat n = (if n < 10 then [''0123456789'' ! n]
                 else show_nat (n div 10) @ [''0123456789'' ! (n mod 10)])"

declare show_nat.simps [simp del]

definition getGameState :: "string \<Rightarrow> GameState option io" where
  "getGameState subreddit = withRetry
     (bind_io (redis_get (SUBREDDIT_STATE subreddit)) (\<lambda>data.
        case data of
          None \<Rightarrow> return None
        | Some (SState parsed) \<Rightarrow> return (Some parsed)
        | Some _ \<Rightarrow> throw ''Invalid game state data structure''))"

definition saveGameState :: "GameState \<Rightarrow> GameState io" where
  \<comment> \<open>The argument object is mutated (\<open>updatedAt\<close>); the object as written is returned.\<close>
  "saveGameState gameState = withRetry
     (bind_io Date_now (\<lambda>t.
        let gameState' = gameState\<lparr>updatedAt := t\<rparr> in
        bind_io (redis_set (SUBREDDIT_STATE (subredditName gameState')) (SState gameState'))
          (\<lambda>_. return gameState')))"

definition initialState :: "string \<Rightarrow> Date \<Rightarrow> GameState" where
  "initialState subreddit t = \<lparr>subredditName = subreddit, treeLevel = 1, totalGrowth = 0,
     seedsPlanted = 0, spiritsFed = 0, robotCharged = 0, dailyUpvotes = 0,
     lastGrowthCalculation = t, createdAt = t, updatedAt = t\<rparr>"

definition initializeGameState :: "string \<Rightarrow> GameState io" where
  "initializeGameState subreddit = catch_io
     (bind_io (getGameState subreddit) (\<lambda>existingState.
        case existingState of
          Some st \<Rightarrow> return st
        | None \<Rightarrow> bind_io Date_now (\<lambda>t. saveGameState (initialState subreddit t))))
     (\<lambda>error. throw (''Failed to initialize game state: Error: '' @ error))"

definition updateGameState :: "string \<Rightarrow> GameStateUpdates \<Rightarrow> GameState io" where
  "updateGameState subreddit updates = withRetry
     (bind_io (getGameState subreddit) (\<lambda>current.
        case current of
          None \<Rightarrow> throw (''Game state not found for subreddit: '' @ subreddit)
        | Some currentState \<Rightarrow>
            bind_io Date_now (\<lambda>t.
              let updatedState = (spread_GameState currentState updates)\<lparr>updatedAt := t\<rparr>;
                  updatedState = updatedState\<lparr>treeLevel :=
                    RedisGameService_calculateTreeLevel (totalGrowth updatedState)\<rparr>
              in saveGameState updatedState)))"

definition generateActionId :: "string io" where
  \<comment> \<open>\<open>`action_${Date.now()}_${Math.random().toString(36).substr(2, 9)}`\<close>\<close>
  "generateActionId w =
     (case entropy w of
        [] \<Rightarrow> (Inr (''action_'' @ show_nat (clock w) @ ''_''), w)
      | r # rest \<Rightarrow> (Inr (''action_'' @ show_nat (clock w) @ ''_'' @ r), w\<lparr>entropy := rest\<rparr>))"

definition updateGameStateFromAction :: "ActionHistory \<Rightarrow> unit io" where
  "updateGameStateFromAction action =
     (let updates = no_updates\<lparr>u_totalGrowth := Some 0\<rparr>;
          updates = (case actionType action of
                       plant \<Rightarrow> updates\<lparr>u_seedsPlanted := Some 1\<rparr>
                     | feed \<Rightarrow> updates\<lparr>u_spiritsFed := Some 1\<rparr>
                     | charge \<Rightarrow> updates\<lparr>u_robotCharged := Some 1\<rparr>
                     | post \<Rightarrow> updates)
      in bind_io (getGameState (subredditName_a action)) (\<lambda>current.
           let updates = (case current of
                 None \<Rightarrow> updates
               | Some currentState \<Rightarrow> updates\<lparr>
                   u_seedsPlanted := Some (seedsPlanted currentState + or_else (u_seedsPlanted updates) 0),
                   u_spiritsFed := Some (spiritsFed currentState + or_else (u_spiritsFed updates) 0),
                   u_robotCharged := Some (robotCharged currentState + or_else (u_robotCharged updates) 0),
                   u_totalGrowth := Some (totalGrowth currentState + growthContributed action)\<rparr>)
           in bind_io (updateGameState (subredditName_a action) updates) (\<lambda>_. return ())))"

text \<open>\<open>Omit<ActionHistory, 'id' | 'timestamp'>\<close>, the argument of \<open>recordAction\<close>.\<close>

record NewAction =
  n_username :: string
  n_subredditName :: string
  n_actionType :: ActionType
  n_resourcesSpent :: rat
  n_growthContributed :: rat

definition recordAction :: "NewAction \<Rightarrow> ActionHistory io" where
  "recordAction actionHistory = withRetry
     (bind_io generateActionId (\<lambda>i. bind_io Date_now (\<lambda>t.
        let action = \<lparr>id_a = i, username_a = n_username actionHistory,
                      subredditName_a = n_subredditName actionHistory,
                      actionType = n_actionType actionHistory,
                      resourcesSpent = n_resourcesSpent actionHistory,
                      timestamp = t,
                      growthContributed = n_growthContributed actionHistory\<rparr>;
            actionKey = ACTION_HISTORY (n_subredditName actionHistory)
        in bind_io (redis_get actionKey) (\<lambda>existingActions.
             case existingActions of
               Some (SState _) \<Rightarrow> throw ''actions.unshift is not a function''
             | Some (SPlayer _) \<Rightarrow> throw ''actions.unshift is not a function''
             | _ \<Rightarrow>
                 let actions = (case existingActions of Some (SArray xs) \<Rightarrow> xs | _ \<Rightarrow> []);
                     actions = IAction action # actions;
                     actions = (if length actions > 1000 then take 1000 actions else actions)
                 in bind_io (redis_set actionKey (SArray actions)) (\<lambda>_.
                    bind_io (updateGameStateFromAction action) (\<lambda>_.
                    return action))))))"

section \<open>PlayerResourceService\<close>

definition getPlayerResources :: "string \<Rightarrow> string \<Rightarrow> PlayerResources option io" where
  "getPlayerResources user subreddit = withRetry
     (bind_io (redis_get (PLAYER_RESOURCES user subreddit)) (\<lambda>data.
        case data of
          None \<Rightarrow> return None
        | Some (SPlayer parsed) \<Rightarrow> return (Some parsed)
        | Some _ \<Rightarrow> throw ''Invalid player resources data structure''))"

definition updatePlayerIndex :: "string \<Rightarrow> string \<Rightarrow> unit io" where
  "updatePlayerIndex user subreddit =
     (let indexKey = PLAYER_INDEX subreddit in
      bind_io (redis_get indexKey) (\<lambda>playersData.
        case playersData of
          Some (SState _) \<Rightarrow> throw ''players.includes is not a function''
        | Some (SPlayer _) \<Rightarrow> throw ''players.includes is not a function''
        | _ \<Rightarrow>
            let players = (case playersData of Some (SArray xs) \<Rightarrow> xs | _ \<Rightarrow> []) in
            if IName user \<notin> set players
            then redis_set indexKey (SArray (players @ [IName user]))
            else return ()))"

definition savePlayerResources :: "PlayerResources \<Rightarrow> PlayerResources io" where
  \<comment> \<open>The argument object is mutated (\<open>lastActive\<close>); the object as written is returned.\<close>
  "savePlayerResources resources = withRetry
     (bind_io Date_now (\<lambda>t.
        let resources' = resources\<lparr>lastActive := t\<rparr> in
        bind_io (redis_set (PLAYER_RESOURCES (username resources') (subredditName_p resources'))
                   (SPlayer resources')) (\<lambda>_.
        bind_io (updatePlayerIndex (username resources') (subredditName_p resources')) (\<lambda>_.
        return resources'))))"

definition initializePlayerResources :: "string \<Rightarrow> string \<Rightarrow> PlayerResources io" where
  "initializePlayerResources user subreddit = catch_io
     (bind_io (getPlayerResources user subreddit) (\<lambda>existingResources.
        case existingResources of
          Some r \<Rightarrow> return r
        | None \<Rightarrow> bind_io Date_now (\<lambda>t.
            savePlayerResources \<lparr>username = user, subredditName_p = subreddit,
              cinnamon = STARTING_CINNAMON, seeds = 0, energy = 0, totalContributions = 0,
              lastActive = t\<rparr>)))
     (\<lambda>error. throw (''Failed to initialize player resources: Error: '' @ error))"

definition validateResourceLimits :: "PlayerResources \<Rightarrow> unit io" where
  "validateResourceLimits resources =
     (if cinnamon resources < 0 then throw ''Cinnamon cannot be negative''
      else if cinnamon resources > MAX_CINNAMON then throw ''Cinnamon cannot exceed 10000''
      else if seeds resources < 0 then throw ''Seeds cannot be negative''
      else if energy resources < 0 then throw ''Energy cannot be negative''
      else if totalContributions resources < 0 then throw ''Total contributions cannot be negative''
      else return ())"

definition player_not_found :: "string \<Rightarrow> string \<Rightarrow> string" where
  "player_not_found user subreddit = ''Player resources not found: '' @ user @ '' in '' @ subreddit"

definition updatePlayerResources ::
  "string \<Rightarrow> string \<Rightarrow> PlayerResourcesUpdates \<Rightarrow> PlayerResources io" where
  "updatePlayerResources user subreddit updates = withRetry
     (bind_io (getPlayerResources user subreddit) (\<lambda>current.
        case current of
          None \<Rightarrow> throw (player_not_found user subreddit)
        | Some currentResources \<Rightarrow>
            bind_io Date_now (\<lambda>t.
              let updatedResources = (spread_PlayerResources currentResources updates)\<lparr>lastActive := t\<rparr>
              in bind_io (validateResourceLimits updatedResources) (\<lambda>_.
                 savePlayerResources updatedResources))))"

definition earnCinnamon :: "string \<Rightarrow> string \<Rightarrow> rat \<Rightarrow> PlayerResources io" where
  "earnCinnamon user subreddit amount =
     (if amount \<le> 0 then throw ''Cinnamon amount must be positive''
      else withRetry
        (bind_io (getPlayerResources user subreddit) (\<lambda>current.
           case current of
             None \<Rightarrow> throw (player_not_found user subreddit)
           | Some currentResources \<Rightarrow>
               let newCinnamon = min (cinnamon currentResources + amount) MAX_CINNAMON in
               updatePlayerResources user subreddit
                 (no_player_updates\<lparr>u_cinnamon := Some newCinnamon\<rparr>))))"

definition spendCinnamon :: "string \<Rightarrow> string \<Rightarrow> rat \<Rightarrow> PlayerResources io" where
  "spendCinnamon user subreddit amount =
     (if amount \<le> 0 then throw ''Cinnamon amount must be positive''
      else withRetry
        (bind_io (getPlayerResources user subreddit) (\<lambda>current.
           case current of
             None \<Rightarrow> throw (player_not_found user subreddit)
           | Some currentResources \<Rightarrow>
               if cinnamon currentResources < amount then throw INSUFFICIENT_RESOURCES
               else updatePlayerResources user subreddit
                 (no_player_updates\<lparr>
                    u_cinnamon := Some (cinnamon currentResources - amount),
                    u_totalContributions := Some (totalContributions currentResources + amount)\<rparr>))))"

definition awardDailyBonus :: "string \<Rightarrow> string \<Rightarrow> PlayerResources io" where
  "awardDailyBonus user subreddit = earnCinnamon user subreddit DAILY_BONUS"

definition awardUpvoteCinnamon :: "string \<Rightarrow> string \<Rightarrow> rat \<Rightarrow> PlayerResources io" where
  "awardUpvoteCinnamon user subreddit upvoteCount =
     (let cinnamonAmount = upvoteCount * UPVOTE_CINNAMON in
      earnCinnamon user subreddit cinnamonAmount)"

definition getActionCost :: "ActionType \<Rightarrow> rat" where
  \<comment> \<open>\<open>GAME_CONFIG.RESOURCE_COSTS\<close>\<close>
  "getActionCost a = (case a of plant \<Rightarrow> 5 | feed \<Rightarrow> 3 | charge \<Rightarrow> 10 | post \<Rightarrow> 0)"

definition processActionTransaction ::
  "string \<Rightarrow> string \<Rightarrow> ActionType \<Rightarrow> (PlayerResources \<times> rat) io" where
  "processActionTransaction user subreddit a = withRetry
     (let cost = getActionCost a in
      if cost = 0
      then bind_io (updatePlayerResources user subreddit no_player_updates)
             (\<lambda>resources. return (resources, cost))
      else bind_io (spendCinnamon user subreddit cost) (\<lambda>resources. return (resources, cost)))"

section \<open>ChronicleGenerationService: template processing\<close>

text \<open>
  The values a template context holds: data as JSON has it, with \<open>undefined\<close>.  Functions
  are not among them.
\<close>

datatype jsval =
  JUndefined | JNull | JBool bool | JNum int | JStr string | JObj "(string \<times> jsval) list"

definition is_word :: "char \<Rightarrow> bool" where
  \<comment> \<open>the class \<open>\w\<close> of a regular expression without the unicode flag\<close>
  "is_word c \<longleftrightarrow>
     c \<in> set ''abcdefghijklmnopqrstuvwxyzABCDEFGHIJKLMNOPQRSTUVWXYZ0123456789_''"

definition starts_with :: "(char \<Rightarrow> bool) \<Rightarrow> string \<Rightarrow> bool" where
  "starts_with P s = (case s of [] \<Rightarrow> False | c # _ \<Rightarrow> P c)"

text \<open>
  \<open>scan_path seg acc s\<close> matches the rest of \<open>(\w+(?:\.\w+)*)\}\}\<close> at the start of \<open>s\<close>,
  where \<open>acc\<close> is the part of the path matched so far and \<open>seg\<close> tells that its last character
  is a word character; it returns the captured path.  A word character, a dot and a brace
  exclude one another, so the greedy match is the only one and nothing is gained by
  backtracking.
\<close>

fun scan_path :: "bool \<Rightarrow> string \<Rightarrow> string \<Rightarrow> string option" where
  "scan_path seg acc [] = None"
| "scan_path seg acc (c # cs) =
     (if is_word c then scan_path True (acc @ [c]) cs
      else if c = CHR ''.'' \<and> seg \<and> starts_with is_word cs then scan_path False (acc @ [c]) cs
      else if c = CHR ''}'' \<and> seg \<and> starts_with (\<lambda>d. d = CHR ''}'') cs then Some acc
      else None)"

definition match_placeholder :: "string \<Rightarrow> (string \<times> nat) option" where
  \<comment> \<open>a match of \<open>/\{\{(\w+(?:\.\w+)*)\}\}/\<close> at the start of \<open>s\<close>: the capture, the length of the match\<close>
  "match_placeholder s =
     (case s of
        c1 # c2 # rest \<Rightarrow>
          if c1 = CHR ''{'' \<and> c2 = CHR ''{'' then
            (case scan_path False [] rest of
               None \<Rightarrow> None
             | Some path \<Rightarrow> Some (path, length path + 4))
          else None
      | _ \<Rightarrow> None)"

fun String_replace :: "(string \<Rightarrow> string \<Rightarrow> string) \<Rightarrow> string \<Rightarrow> string" where
  \<comment> \<open>\<open>template.replace(/.../g, (match, path) => ...)\<close>: after a match the search goes on behind it\<close>
  "String_replace f [] = []"
| "String_replace f (c # cs) =
     (case match_placeholder (c # cs) of
        Some (path, n) \<Rightarrow> f (take n (c # cs)) path @ String_replace f (drop (n - 1) cs)
      | None \<Rightarrow> c # String_replace f cs)"

fun split_on :: "char \<Rightarrow> string \<Rightarrow> string list" where
  \<comment> \<open>\<open>path.split('.')\<close>\<close>
  "split_on d [] = [[]]"
| "split_on d (c # cs) =
     (if c = d then [] # split_on d cs
      else (case split_on d cs of x # xs \<Rightarrow> (c # x) # xs | [] \<Rightarrow> [[c]]))"

definition getNestedValue :: "(jsval \<Rightarrow> string \<Rightarrow> jsval) \<Rightarrow> jsval \<Rightarrow> string \<Rightarrow> jsval" where
  \<comment> \<open>\<open>prop current key\<close> is the property read \<open>current[key]\<close> on a value that is neither
      \<open>null\<close> nor \<open>undefined\<close>; on those \<open>current?.[key]\<close> is \<open>undefined\<close>\<close>
  "getNestedValue prop obj path =
     foldl (\<lambda>current key. if current = JNull \<or> current = JUndefined then JUndefined
                            else prop current key)
       obj (split_on CHR ''.'' path)"

definition processTemplate ::
  "(jsval \<Rightarrow> string \<Rightarrow> jsval) \<Rightarrow> (jsval \<Rightarrow> string) \<Rightarrow> string \<Rightarrow> jsval \<Rightarrow> string" where
  \<comment> \<open>\<open>prop\<close> and \<open>String\<close> are the property read and the string conversion of the language\<close>
  "processTemplate prop String template context =
     String_replace (\<lambda>match path.
        let value = getNestedValue prop context path
        in if value \<noteq> JUndefined then String value else match) template"

fun own_property :: "jsval \<Rightarrow> string \<Rightarrow> jsval" where
  \<comment> \<open>the property read on plain data: an object's own entries\<close>
  "own_property (JObj entries) key = (case map_of entries key of None \<Rightarrow> JUndefined | Some v \<Rightarrow> v)"
| "own_property _ key = JUndefined"

fun String_of :: "jsval \<Rightarrow> string" where
  \<comment> \<open>\<open>String(value)\<close> on plain data\<close>
  "String_of JUndefined = ''undefined''"
| "String_of JNull = ''null''"
| "String_of (JBool b) = (if b then ''true'' else ''false'')"
| "String_of (JNum n) = (if n < 0 then ''-'' @ show_nat (nat (- n)) else show_nat (nat n))"
| "String_of (JStr s) = s"
| "String_of (JObj _) = ''[object Object]''"

fun dotted_tail :: "bool \<Rightarrow> string \<Rightarrow> bool" where
  \<comment> \<open>what may follow in a dotted path; \<open>seg\<close>: the character before is a word character\<close>
  "dotted_tail seg [] = seg"
| "dotted_tail seg (c # cs) =
     (if is_word c then dotted_tail True cs
      else c = CHR ''.'' \<and> seg \<and> starts_with is_word cs \<and> dotted_tail False cs)"

definition dotted_path :: "string \<Rightarrow> bool" where
  \<comment> \<open>the pieces between the dots are words: not empty, of word characters only\<close>
  "dotted_path p \<longleftrightarrow>
     (\<forall>piece \<in> set (split_on CHR ''.'' p). piece \<noteq> [] \<and> (\<forall>c \<in> set piece. is_word c))"

definition level3_context :: jsval where
  \<comment> \<open>\<open>{gameState: {treeLevel: 3}}\<close>\<close>
  "level3_context = JObj [(''gameState'', JObj [(''treeLevel'', JNum 3)])]"

section \<open>Specifications of calls\<close>

text \<open>
  \<open>wp m Q w\<close>: run from the world \<open>w\<close>, the call \<open>m\<close> ends, with a value or an error, in a
  world and with an outcome that satisfy \<open>Q\<close>.
\<close>

definition wp :: "'a io \<Rightarrow> ((string + 'a) \<Rightarrow> World \<Rightarrow> bool) \<Rightarrow> World \<Rightarrow> bool" where
  "wp m Q w = Q (fst (m w)) (snd (m w))"

definition outcome :: "(World \<Rightarrow> bool) \<Rightarrow> ('a \<Rightarrow> World \<Rightarrow> bool) \<Rightarrow> (string + 'a) \<Rightarrow> World \<Rightarrow> bool" where
  \<comment> \<open>\<open>F\<close> holds of the world after an error, \<open>S\<close> of the value and the world after a return\<close>
  "outcome F S r w = (case r of Inl _ \<Rightarrow> F w | Inr v \<Rightarrow> S v w)"

definition unchanged :: "World \<Rightarrow> World \<Rightarrow> bool" where
  \<comment> \<open>nothing has been written and the clock has not gone back\<close>
  "unchanged w w' \<longleftrightarrow> store w' = store w \<and> clock w \<le> clock w'"

section \<open>Invariants of the persisted data\<close>

definition levels_ok :: "World \<Rightarrow> bool" where
  \<comment> \<open>every persisted game state carries the level of its total growth\<close>
  "levels_ok w \<longleftrightarrow>
     (\<forall>k g. store w k = Some (SState g) \<longrightarrow> treeLevel g = calculateTreeLevel (totalGrowth g))"

definition actions_of :: "Item list \<Rightarrow> ActionHistory list" where
  "actions_of xs = concat (map (\<lambda>i. case i of IAction a \<Rightarrow> [a] | IName _ \<Rightarrow> []) xs)"

definition newest_first :: "Date \<Rightarrow> Item list \<Rightarrow> bool" where
  \<comment> \<open>no action is older than one that follows it in the list, and none is from the future\<close>
  "newest_first now xs \<longleftrightarrow>
     sorted_wrt (\<lambda>a b. timestamp a \<ge> timestamp b) (actions_of xs) \<and>
     (\<forall>a \<in> set (actions_of xs). timestamp a \<le> now)"

definition history_ok :: "World \<Rightarrow> bool" where
  "history_ok w \<longleftrightarrow>
     (\<forall>s xs. store w (ACTION_HISTORY s) = Some (SArray xs) \<longrightarrow>
        length xs \<le> 1000 \<and> newest_first (clock w) xs)"

definition cinnamon_ok :: "World \<Rightarrow> bool" where
  \<comment> \<open>no persisted player record has a negative balance\<close>
  "cinnamon_ok w \<longleftrightarrow> (\<forall>k p. store w k = Some (SPlayer p) \<longrightarrow> 0 \<le> cinnamon p)"

definition game_inv :: "bool \<Rightarrow> bool \<Rightarrow> bool \<Rightarrow> World \<Rightarrow> bool" where
  \<comment> \<open>the invariants that are asked for: of the levels, of the histories, of the balances\<close>
  "game_inv L H C w \<longleftrightarrow>
     (L \<longrightarrow> levels_ok w) \<and> (H \<longrightarrow> history_ok w) \<and> (C \<longrightarrow> cinnamon_ok w)"

text \<open>The game state with one recorded action folded in, as the theorems below state it.\<close>

definition folded :: "GameState \<Rightarrow> ActionType \<Rightarrow> rat \<Rightarrow> Date \<Rightarrow> GameState" where
  "folded cs t growth now = cs\<lparr>
     treeLevel := calculateTreeLevel (totalGrowth cs + growth),
     totalGrowth := totalGrowth cs + growth,
     seedsPlanted := seedsPlanted cs + (if t = plant then 1 else 0),
     spiritsFed := spiritsFed cs + (if t = feed then 1 else 0),
     robotCharged := robotCharged cs + (if t = charge then 1 else 0),
     updatedAt := now\<rparr>"

definition recorded :: "NewAction \<Rightarrow> World \<Rightarrow> ActionHistory" where
  \<comment> \<open>the history record that \<open>recordAction\<close> makes of its argument in the world \<open>w\<close>\<close>
  "recorded n w = \<lparr>id_a = ''action_'' @ show_nat (clock w) @ ''_'' @
                            (case entropy w of [] \<Rightarrow> [] | r # _ \<Rightarrow> r),
     username_a = n_username n, subredditName_a = n_subredditName n,
     actionType = n_actionType n, resourcesSpent = n_resourcesSpent n,
     timestamp = clock w, growthContributed = n_growthContributed n\<rparr>"

section \<open>Example worlds\<close>

definition empty_world :: World where
  "empty_world = \<lparr>store = Map.empty, faults = [], clock = 0, calls = 0, entropy = []\<rparr>"

definition alice :: PlayerResources where
  "alice = \<lparr>username = ''alice'', subredditName_p = ''testsub'', cinnamon = 3, seeds = 0,
     energy = 0, totalContributions = 0, lastActive = 0\<rparr>"

definition alice_world :: World where
  "alice_world = empty_world\<lparr>store := [PLAYER_RESOURCES ''alice'' ''testsub'' \<mapsto> SPlayer alice]\<rparr>"

definition down_world :: World where
  \<comment> \<open>the store fails the next three calls\<close>
  "down_world = empty_world\<lparr>faults := [Some ''ECONNRESET'', Some ''ECONNRESET'', Some ''ETIMEDOUT'']\<rparr>"

definition misfiled_world :: World where
  \<comment> \<open>a player record sits under the key of a game state\<close>
  "misfiled_world = empty_world\<lparr>store := [SUBREDDIT_STATE ''testsub'' \<mapsto> SPlayer alice]\<rparr>"

definition seeded_world :: World where
  \<comment> \<open>the subreddit ``testsub'' has been initialised at time 0\<close>
  "seeded_world = empty_world\<lparr>store := [SUBREDDIT_STATE ''testsub'' \<mapsto> SState (initialState ''testsub'' 0)]\<rparr>"

definition charge_action :: NewAction where
  \<comment> \<open>what the charge route passes to \<open>recordAction\<close>: cost 10, growth 3\<close>
  "charge_action = \<lparr>n_username = ''alice'', n_subredditName = ''testsub'',
     n_actionType = charge, n_resourcesSpent = 10, n_growthContributed = 3\<rparr>"

fun repeat_io :: "nat \<Rightarrow> 'a io \<Rightarrow> unit io" where
  \<comment> \<open>the same call made \<open>n\<close> times in a row, stopping at the first error\<close>
  "repeat_io 0 m = return ()"
| "repeat_io (Suc n) m = bind_io m (\<lambda>_. repeat_io n m)"

definition old_action :: ActionHistory where
  "old_action = \<lparr>id_a = ''action_0_'', username_a = ''bob'', subredditName_a = ''testsub'',
     actionType = plant, resourcesSpent = 5, timestamp = 0, growthContributed = 3 / 2\<rparr>"

definition full_world :: World where
  \<comment> \<open>``testsub'' with a history of 1000 entries\<close>
  "full_world = seeded_world\<lparr>store := (store seeded_world)
     (ACTION_HISTORY ''testsub'' \<mapsto> SArray (replicate 1000 (IAction old_action)))\<rparr>"

section \<open>Properties of the growth engine\<close>

lemma sortedLevels_eq:
  "Array_sort (\<lambda>a b. growthRequired b - growthRequired a) TREE_LEVELS = rev TREE_LEVELS"
  by (simp add: TREE_LEVELS_def level_defs)

lemma service_level_eq: "GrowthCalculationService_calculateTreeLevel x = calculateTreeLevel x"
  unfolding GrowthCalculationService_calculateTreeLevel_def Let_def sortedLevels_eq
  by (simp add: TREE_LEVELS_def level_defs calculateTreeLevel_def)

lemma redis_level_eq: "RedisGameService_calculateTreeLevel x = calculateTreeLevel x"
  by (simp add: RedisGameService_calculateTreeLevel_def TREE_LEVELS_def level_defs
      calculateTreeLevel_def)

lemma level_cases:
  "calculateTreeLevel x =
     (if 1000 \<le> x then 6 else if 500 \<le> x then 5 else if 300 \<le> x then 4
      else if 150 \<le> x then 3 else if 50 \<le> x then 2 else 1)"
  by (simp add: calculateTreeLevel_def level_defs)

lemma level_mono: "x \<le> y \<Longrightarrow> calculateTreeLevel x \<le> calculateTreeLevel y"
  by (simp add: level_cases)

lemma level_range: "1 \<le> calculateTreeLevel x \<and> calculateTreeLevel x \<le> 6"
  by (simp add: level_cases)

lemma level_reached:
  "0 \<le> x \<Longrightarrow> \<exists>e \<in> set TREE_LEVELS. level e = calculateTreeLevel x \<and> growthRequired e \<le> x"
  by (simp add: level_cases TREE_LEVELS_def level_defs)

lemma level_highest:
  "e \<in> set TREE_LEVELS \<Longrightarrow> growthRequired e \<le> x \<Longrightarrow> level e \<le> calculateTreeLevel x"
  by (auto simp: level_cases TREE_LEVELS_def level_defs)


subsection \<open>Rounding to binary64\<close>

lemma bit_length_bounds:
  "0 < n \<Longrightarrow> 2 ^ (bit_length n - 1) \<le> n \<and> n < 2 ^ bit_length n"
proof (induction n rule: bit_length.induct)
  case (1 n)
  show ?case
  proof (cases "n div 2 = 0")
    case True
    with 1(2) have "n = 1" by (simp add: div_eq_0_iff)
    then show ?thesis by (simp add: bit_length.simps [of "Suc 0"] bit_length.simps [of 0])
  next
    case False
    with 1 have ih: "2 ^ (bit_length (n div 2) - 1) \<le> n div 2" "n div 2 < 2 ^ bit_length (n div 2)"
      by simp_all
    have pos: "0 < bit_length (n div 2)"
      using False by (simp add: bit_length.simps [of "n div 2"])
    have eq: "bit_length n = Suc (bit_length (n div 2))"
      using 1(2) by (simp add: bit_length.simps [of n])
    from pos have "(2::nat) ^ (bit_length n - 1) = 2 * 2 ^ (bit_length (n div 2) - 1)"
      by (cases "bit_length (n div 2)") (simp_all add: eq)
    with ih show ?thesis
      by (simp add: eq) linarith
  qed
qed

lemma of_nat_power2_le: "(2::nat) ^ k \<le> n \<Longrightarrow> (2::rat) ^ k \<le> of_nat n"
proof -
  assume "(2::nat) ^ k \<le> n"
  then have "(of_nat (2 ^ k) :: rat) \<le> of_nat n" by (simp only: of_nat_le_iff)
  then show ?thesis by simp
qed

lemma of_nat_Suc_le_power2: "n + 1 \<le> (2::nat) ^ k \<Longrightarrow> (of_nat n + 1 :: rat) \<le> 2 ^ k"
proof -
  assume "n + 1 \<le> (2::nat) ^ k"
  then have "(of_nat (n + 1) :: rat) \<le> of_nat (2 ^ k)" by (simp only: of_nat_le_iff)
  then show ?thesis by simp
qed

lemma bit_length_pos: "0 < n \<Longrightarrow> 0 < bit_length n"
  by (simp add: bit_length.simps [of n])

lemma exponent_bounds:
  assumes "x \<noteq> 0"
  shows "2 powi exponent x \<le> \<bar>x\<bar> \<and> \<bar>x\<bar> < 2 powi (exponent x + 1)"
proof (cases "1 \<le> \<bar>x\<bar>")
  case True
  define n where "n = nat \<lfloor>\<bar>x\<bar>\<rfloor>"
  from True have n: "0 < n" by (simp add: n_def)
  have "(of_nat n :: rat) = of_int \<lfloor>\<bar>x\<bar>\<rfloor>"
    using True by (simp add: n_def)
  with floor_correct [of "\<bar>x\<bar>"]
  have nx: "of_nat n \<le> \<bar>x\<bar>" "\<bar>x\<bar> < of_nat n + 1"
    by simp_all
  from bit_length_bounds [OF n]
  have b: "2 ^ (bit_length n - 1) \<le> n" "n + 1 \<le> 2 ^ bit_length n" by simp_all
  have "exponent x = int (bit_length n) - 1"
    using True by (simp add: exponent_def n_def)
  then have "exponent x = int (bit_length n - 1)" "exponent x + 1 = int (bit_length n)"
    using bit_length_pos [OF n] by simp_all
  then have e: "(2::rat) powi exponent x = 2 ^ (bit_length n - 1)"
    "(2::rat) powi (exponent x + 1) = 2 ^ bit_length n"
    by (simp_all only: power_int_of_nat)
  from of_nat_power2_le [OF b(1)] nx(1) have lo: "(2::rat) ^ (bit_length n - 1) \<le> \<bar>x\<bar>"
    by (rule order_trans)
  from nx(2) of_nat_Suc_le_power2 [OF b(2)] have "\<bar>x\<bar> < 2 ^ bit_length n"
    by (rule less_le_trans)
  with lo show ?thesis
    by (simp only: e)
next
  case False
  define y where "y = 1 / \<bar>x\<bar>"
  define n where "n = nat (\<lceil>y\<rceil> - 1)"
  from False assms have y: "1 < y" by (simp add: y_def)
  then have c: "2 \<le> \<lceil>y\<rceil>" by (simp add: le_ceiling_iff)
  then have n: "0 < n" by (simp add: n_def)
  have "(of_nat n :: rat) = of_int (\<lceil>y\<rceil> - 1)"
    using c unfolding n_def by simp
  with ceiling_correct [of y] have ny: "of_nat n < y" "y \<le> of_nat n + 1"
    by simp_all
  from bit_length_bounds [OF n]
  have b: "2 ^ (bit_length n - 1) \<le> n" "n + 1 \<le> 2 ^ bit_length n" by simp_all
  have "exponent x = - int (bit_length n)"
    using False by (simp add: exponent_def n_def y_def)
  then have "exponent x = - int (bit_length n)" "exponent x + 1 = - int (bit_length n - 1)"
    using bit_length_pos [OF n] by simp_all
  then have e: "(2::rat) powi exponent x = 1 / 2 ^ bit_length n"
    "(2::rat) powi (exponent x + 1) = 1 / 2 ^ (bit_length n - 1)"
    by (simp_all only: power_int_minus_divide power_int_of_nat)
  have x: "\<bar>x\<bar> = 1 / y" by (simp add: y_def)
  from ny(2) of_nat_Suc_le_power2 [OF b(2)] have "y \<le> 2 ^ bit_length n" by (rule order_trans)
  then have lo: "1 / 2 ^ bit_length n \<le> 1 / y"
    using y by (simp add: frac_le)
  from of_nat_power2_le [OF b(1)] ny(1) have "2 ^ (bit_length n - 1) < y" by (rule le_less_trans)
  then have hi: "1 / y < 1 / 2 ^ (bit_length n - 1)"
    by (simp add: frac_less2)
  from lo hi show ?thesis
    by (simp only: x e)
qed

lemma power2_int_less_cancel:
  assumes "(2::rat) powi a < 2 powi b"
  shows "a < b"
proof (rule ccontr)
  assume "\<not> a < b"
  then have "b \<le> a" by simp
  then have "(2::rat) powi b \<le> 2 powi a"
    by (rule power_int_increasing) simp
  with assms show False by simp
qed

lemma exponent_eqI:
  assumes "2 powi E \<le> \<bar>x\<bar>" and "\<bar>x\<bar> < 2 powi (E + 1)"
  shows "exponent x = E"
proof -
  have "(0::rat) < 2 powi E" by simp
  from this assms(1) have "0 < \<bar>x\<bar>" by (rule less_le_trans)
  then have x: "x \<noteq> 0" by simp
  note b = exponent_bounds [OF x]
  have "(2::rat) powi exponent x < 2 powi (E + 1)"
    using b assms(2) by linarith
  then have 1: "exponent x < E + 1"
    by (rule power2_int_less_cancel)
  have "(2::rat) powi E < 2 powi (exponent x + 1)"
    using b assms(1) by linarith
  then have 2: "E < exponent x + 1"
    by (rule power2_int_less_cancel)
  from 1 2 show ?thesis by simp
qed

lemma round_half_even_error: "\<bar>of_int (round_half_even q) - q\<bar> \<le> 1 / 2"
proof -
  have "of_int \<lfloor>q\<rfloor> \<le> q" "q < of_int \<lfloor>q\<rfloor> + 1"
    using floor_correct [of q] by simp_all
  then show ?thesis
    by (simp add: round_half_even_def Let_def)
qed

lemma round_half_even_eqI:
  assumes "\<bar>q - of_int m\<bar> < 1 / 2"
  shows "round_half_even q = m"
proof -
  have f: "of_int \<lfloor>q\<rfloor> \<le> q" "q < of_int \<lfloor>q\<rfloor> + 1"
    using floor_correct [of q] by simp_all
  from assms have m: "of_int m - 1 / 2 < q" "q < of_int m + 1 / 2" by linarith+
  have "\<lfloor>q\<rfloor> = m \<or> \<lfloor>q\<rfloor> = m - 1"
  proof -
    from f m have "(of_int \<lfloor>q\<rfloor> :: rat) < of_int m + 1 / 2" "(of_int m :: rat) - 3 / 2 < of_int \<lfloor>q\<rfloor>"
      by linarith+
    then have "(of_int \<lfloor>q\<rfloor> :: rat) < of_int (m + 1)" "(of_int (m - 2) :: rat) < of_int \<lfloor>q\<rfloor>"
      by simp_all
    then have "\<lfloor>q\<rfloor> < m + 1" "m - 2 < \<lfloor>q\<rfloor>"
      by (simp_all only: of_int_less_iff)
    then show ?thesis by linarith
  qed
  then show ?thesis
  proof
    assume e: "\<lfloor>q\<rfloor> = m"
    with m have "q - of_int \<lfloor>q\<rfloor> < 1 / 2" by simp
    then show ?thesis by (simp add: round_half_even_def Let_def e)
  next
    assume e: "\<lfloor>q\<rfloor> = m - 1"
    with m have "1 / 2 < q - of_int \<lfloor>q\<rfloor>" by simp
    then show ?thesis by (simp add: round_half_even_def Let_def e)
  qed
qed

lemma round_half_even_of_int [simp]: "round_half_even (of_int m) = m"
  by (rule round_half_even_eqI) simp

lemma binary64_nonzero:
  "x \<noteq> 0 \<Longrightarrow>
   binary64 x = of_int (round_half_even (x / 2 powi max (exponent x - 52) (- 1074))) *
                2 powi max (exponent x - 52) (- 1074)"
  by (simp add: binary64_def Let_def)

lemma binary64_0 [simp]: "binary64 0 = 0"
  by (simp add: binary64_def)

lemma binary64_ulp:
  assumes "x \<noteq> 0"
  shows "\<bar>binary64 x - x\<bar> \<le> 2 powi max (exponent x - 52) (- 1074) / 2"
proof -
  define e where "e = max (exponent x - 52) (- 1074)"
  define q where "q = x / 2 powi e"
  have pos: "(0::rat) < 2 powi e" by simp
  have b: "binary64 x = of_int (round_half_even q) * 2 powi e"
    unfolding q_def e_def by (rule binary64_nonzero [OF assms])
  have "q * 2 powi e = x" by (simp add: q_def)
  then have "binary64 x - x = (of_int (round_half_even q) - q) * 2 powi e"
    by (simp add: b algebra_simps)
  then have "\<bar>binary64 x - x\<bar> = \<bar>of_int (round_half_even q) - q\<bar> * 2 powi e"
    using pos by (simp add: abs_mult)
  also have "\<dots> \<le> 1 / 2 * 2 powi e"
    using round_half_even_error [of q] pos by (simp add: mult_right_mono)
  finally show ?thesis
    by (simp add: e_def)
qed

lemma binary64_error:
  assumes "1 / 2 ^ 1000 \<le> \<bar>x\<bar>"
  shows "\<bar>binary64 x - x\<bar> \<le> \<bar>x\<bar> / 2 ^ 53"
proof -
  have "(0::rat) < 1 / 2 ^ 1000" by simp
  from this assms have "0 < \<bar>x\<bar>" by (rule less_le_trans)
  then have x: "x \<noteq> 0" by simp
  note b = exponent_bounds [OF x]
  have "(2::rat) powi (- 1000) = 1 / 2 ^ 1000"
    by (simp add: power_int_minus_divide)
  with assms b have "(2::rat) powi (- 1000) < 2 powi (exponent x + 1)"
    by linarith
  then have "- 1000 < exponent x + 1"
    by (rule power2_int_less_cancel)
  then have e: "max (exponent x - 52) (- 1074) = exponent x - 52"
    by simp
  have "(2::rat) powi (exponent x - 52) = 2 powi exponent x / 2 ^ 52"
    by (simp add: power_int_diff)
  with binary64_ulp [OF x] b show ?thesis
    unfolding e by (simp add: field_simps) 
qed

lemma binary64_exact:
  assumes x: "x = of_int m * 2 powi k" and m: "\<bar>m\<bar> < 2 ^ 53" and k: "- 1074 \<le> k"
  shows "binary64 x = x"
proof (cases "m = 0")
  case True
  with x show ?thesis by simp
next
  case False
  have pos: "(0::rat) < 2 powi k" by simp
  with False x have nz: "x \<noteq> 0" by simp
  define e where "e = max (exponent x - 52) (- 1074)"
  have "\<bar>x\<bar> = of_int \<bar>m\<bar> * 2 powi k"
    using pos by (simp add: x abs_mult)
  also have "\<dots> < 2 ^ 53 * 2 powi k"
  proof -
    from m have "(of_int \<bar>m\<bar> :: rat) < of_int (2 ^ 53)" by (simp only: of_int_less_iff)
    then have "(of_int \<bar>m\<bar> :: rat) < 2 ^ 53" by simp
    with pos show ?thesis by (simp only: mult_strict_right_mono)
  qed
  also have "\<dots> = 2 powi (53 + k)"
    by (simp add: power_int_add)
  finally have "(2::rat) powi exponent x < 2 powi (53 + k)"
    using exponent_bounds [OF nz] by linarith
  then have "exponent x < 53 + k"
    by (rule power2_int_less_cancel)
  with k have le: "e \<le> k" by (simp add: e_def)
  then have "(2::rat) powi k = 2 powi (k - e) * 2 powi e"
    by (simp flip: power_int_add)
  also have "(2::rat) powi (k - e) = of_int (2 ^ nat (k - e))"
    using le by (simp add: power_int_def)
  finally have "x / 2 powi e = of_int (m * 2 ^ nat (k - e))"
    by (simp add: x)
  then have xe: "x / 2 powi e = of_int (m * 2 ^ nat (k - e))" .
  have "binary64 x = of_int (round_half_even (x / 2 powi e)) * 2 powi e"
    unfolding e_def by (rule binary64_nonzero [OF nz])
  also have "\<dots> = x / 2 powi e * 2 powi e"
    by (simp only: xe round_half_even_of_int)
  also have "\<dots> = x"
    by simp
  finally show ?thesis .
qed

lemma binary64_eqI:
  assumes lo: "2 ^ 52 * 2 powi k \<le> x" and hi: "x < 2 ^ 53 * 2 powi k" and k: "- 1074 \<le> k"
    and m: "\<bar>x / 2 powi k - of_int m\<bar> < 1 / 2"
  shows "binary64 x = of_int m * 2 powi k"
proof -
  have pos: "(0::rat) < 2 powi k" by simp
  then have "(0::rat) < 2 ^ 52 * 2 powi k" by simp
  from this lo have x: "0 < x" by (rule less_le_trans)
  have "(2::rat) powi (52 + k) = 2 ^ 52 * 2 powi k" "(2::rat) powi (52 + k + 1) = 2 ^ 53 * 2 powi k"
    by (simp_all add: power_int_add)
  with lo hi x have "exponent x = 52 + k"
    by (intro exponent_eqI) simp_all
  with k have "max (exponent x - 52) (- 1074) = k" by simp
  with x round_half_even_eqI [OF m] show ?thesis
    by (simp add: binary64_nonzero)
qed

lemma binary64_abs_error:
  assumes "\<bar>x\<bar> < 2 powi K" and "- 1021 \<le> K"
  shows "\<bar>binary64 x - x\<bar> \<le> 2 powi (K - 54)"
proof (cases "x = 0")
  case True
  then show ?thesis by simp
next
  case False
  define e where "e = max (exponent x - 52) (- 1074)"
  from exponent_bounds [OF False] assms(1) have "(2::rat) powi exponent x < 2 powi K"
    by linarith
  then have "exponent x < K" by (rule power2_int_less_cancel)
  with assms(2) have "e \<le> K - 53" by (simp add: e_def)
  then have "(2::rat) powi e \<le> 2 powi (K - 53)"
    by (rule power_int_increasing) simp
  also have "\<dots> = 2 * 2 powi (K - 54)"
    using power_int_add [of "2::rat" 1 "K - 54"] by simp
  finally have "(2::rat) powi e / 2 \<le> 2 powi (K - 54)" by simp
  with binary64_ulp [OF False] show ?thesis
    unfolding e_def by linarith
qed

lemma to_number_Finite:
  "\<bar>binary64 x\<bar> < 2 ^ 1024 \<Longrightarrow> to_number x = Finite (binary64 x)"
  by (simp add: to_number_def Let_def abs_less_iff not_le) linarith?


lemma to_number_bounded:
  assumes "\<bar>x\<bar> < 2 powi K" and "- 1021 \<le> K" and "K \<le> 1000"
  shows "to_number x = Finite (binary64 x)"
proof -
  have "(2::rat) powi (K - 54) \<le> 2 powi K"
    by (rule power_int_increasing) simp_all
  with binary64_abs_error [OF assms(1,2)] assms(1) have "\<bar>binary64 x\<bar> < 2 * 2 powi K"
    by linarith
  also have "\<dots> = 2 powi (K + 1)"
    by (simp add: power_int_add)
  also have "\<dots> \<le> 2 powi 1024"
    using assms(3) by (intro power_int_increasing) simp_all
  finally show ?thesis
    by (simp add: to_number_Finite)
qed

lemma to_number_half:
  assumes "\<bar>n\<bar> < 2 ^ 53"
  shows "to_number (of_int n / 2) = Finite (of_int n / 2)"
proof -
  have "of_int n / 2 = of_int n * (2::rat) powi (- 1)" by simp
  from binary64_exact [OF this assms] have b: "binary64 (of_int n / 2) = of_int n / 2" by simp
  from assms have "(of_int \<bar>n\<bar> :: rat) < of_int (2 ^ 53)" by (simp only: of_int_less_iff)
  then have "\<bar>of_int n / 2 :: rat\<bar> < 2 ^ 1024" by simp
  with b show ?thesis by (simp add: to_number_Finite)
qed

lemma to_number_int:
  assumes "\<bar>n\<bar> < 2 ^ 52"
  shows "to_number (of_int n) = Finite (of_int n)"
  using to_number_half [of "2 * n"] assms by simp

lemma multipliers:
  "SEEDS_PLANTED = Finite (3 / 2)" "SPIRITS_FED = Finite 2" "ROBOT_CHARGED = Finite 3"
  "to_number 100 = Finite 100"
  using to_number_half [of 3] to_number_int [of 2] to_number_int [of 3] to_number_int [of 100]
  by (simp_all add: SEEDS_PLANTED_def SPIRITS_FED_def ROBOT_CHARGED_def)

lemma REDDIT_UPVOTES_value: "REDDIT_UPVOTES = Finite (3602879701896397 / 2 ^ 55)"
proof -
  have "binary64 (1 / 10) = of_int 7205759403792794 * 2 powi (- 56)"
    by (rule binary64_eqI) simp_all
  then have b: "binary64 (1 / 10) = 3602879701896397 / 2 ^ 55" by simp
  then show ?thesis
    by (simp add: REDDIT_UPVOTES_def to_number_Finite)
qed


lemma abs_triangle3: "\<bar>a + b + c\<bar> \<le> \<bar>a\<bar> + \<bar>b\<bar> + \<bar>c\<bar>" for a b c :: rat
  by linarith

lemma weighted_counts:
  fixes s f c :: nat
  assumes "s \<le> 2 ^ 32" and "f \<le> 2 ^ 32" and "c \<le> 2 ^ 32"
  shows "num_add (num_add (num_mul (Finite (of_nat s)) SEEDS_PLANTED)
                          (num_mul (Finite (of_nat f)) SPIRITS_FED))
                 (num_mul (Finite (of_nat c)) ROBOT_CHARGED)
         = Finite (3 / 2 * of_nat s + 2 * of_nat f + 3 * of_nat c)"
proof -
  have 1: "of_nat s * (3 / 2) = (of_int (3 * int s) / 2 :: rat)"
    "of_nat f * 2 = (of_int (4 * int f) / 2 :: rat)"
    "of_nat c * 3 = (of_int (6 * int c) / 2 :: rat)"
    by simp_all
  have 2: "of_int (3 * int s) / 2 + of_int (4 * int f) / 2 = (of_int (3 * int s + 4 * int f) / 2 :: rat)"
    "of_int (3 * int s + 4 * int f) / 2 + of_int (6 * int c) / 2
       = (of_int (3 * int s + 4 * int f + 6 * int c) / 2 :: rat)"
    by (simp_all add: add_divide_distrib)
  have 3: "to_number (of_int (3 * int s) / 2) = Finite (of_int (3 * int s) / 2)"
    "to_number (of_int (4 * int f) / 2) = Finite (of_int (4 * int f) / 2)"
    "to_number (of_int (6 * int c) / 2) = Finite (of_int (6 * int c) / 2)"
    "to_number (of_int (3 * int s + 4 * int f) / 2) = Finite (of_int (3 * int s + 4 * int f) / 2)"
    "to_number (of_int (3 * int s + 4 * int f + 6 * int c) / 2)
       = Finite (of_int (3 * int s + 4 * int f + 6 * int c) / 2)"
    using assms by - (rule to_number_half, simp)+
  have "num_add (num_add (num_mul (Finite (of_nat s)) SEEDS_PLANTED)
                          (num_mul (Finite (of_nat f)) SPIRITS_FED))
                 (num_mul (Finite (of_nat c)) ROBOT_CHARGED)
        = Finite (of_int (3 * int s + 4 * int f + 6 * int c) / 2)"
    by (simp only: multipliers num_mul.simps num_add.simps 1 2 3)
  also have "(of_int (3 * int s + 4 * int f + 6 * int c) / 2 :: rat)
        = 3 / 2 * of_nat s + 2 * of_nat f + 3 * of_nat c"
    by (simp add: add_divide_distrib)
  finally show ?thesis .
qed

lemma growth_sum:
  fixes s f c :: nat and u :: rat
  assumes s: "s \<le> 2 ^ 32" and f: "f \<le> 2 ^ 32" and c: "c \<le> 2 ^ 32"
    and u0: "0 \<le> u" and u1: "u \<le> 2 ^ 32"
  defines "A \<equiv> 3 / 2 * of_nat s + 2 * of_nat f + 3 * of_nat c"
  defines "g \<equiv> binary64 (A + binary64 (u * (3602879701896397 / 2 ^ 55)))"
  shows "calculateGrowth (Finite (of_nat s)) (Finite (of_nat f)) (Finite (of_nat c)) (Finite u)
         = Finite g"
    and "\<bar>g - (A + 1 / 10 * u)\<bar> \<le> 1 / 2 ^ 18"
    and "0 \<le> A" and "A \<le> 2 ^ 35"
proof -
  define t where "t = u * (3602879701896397 / 2 ^ 55)"
  define p where "p = binary64 t"
  have A0: "0 \<le> A" by (simp add: A_def)
  have "(of_nat s :: rat) \<le> of_nat (2 ^ 32)" "(of_nat f :: rat) \<le> of_nat (2 ^ 32)"
    "(of_nat c :: rat) \<le> of_nat (2 ^ 32)"
    using s f c by (simp_all only: of_nat_le_iff)
  then have A1: "A \<le> 13 / 2 * 2 ^ 32" by (simp add: A_def)
  have t0: "0 \<le> t" using u0 by (simp add: t_def)
  have t1: "t \<le> 2 ^ 29" using u0 u1 by (simp add: t_def)
  have tu: "\<bar>t - 1 / 10 * u\<bar> \<le> 1 / (5 * 2 ^ 23)"
  proof -
    have "t - 1 / 10 * u = u / (5 * 2 ^ 55)" by (simp add: t_def)
    with u0 u1 show ?thesis by (simp add: field_simps)
  qed
  have tK: "\<bar>t\<bar> < 2 powi 30" using t0 t1 by simp
  from binary64_abs_error [OF tK] have pt: "\<bar>p - t\<bar> \<le> 1 / 2 ^ 24"
    by (simp add: p_def)
  have pn: "to_number t = Finite p"
    unfolding p_def by (rule to_number_bounded [OF tK]) simp_all
  have "(1::rat) / 2 ^ 24 \<le> 1" by simp
  with pt have "\<bar>p - t\<bar> \<le> 1" by (rule order_trans)
  then have "p \<le> t + 1" "t - 1 \<le> p" by linarith+
  with A0 A1 t0 t1 have "A + p < 2 ^ 35" "- (2 ^ 35) < A + p" by simp_all
  then have apK: "\<bar>A + p\<bar> < 2 powi 35"
    by (simp add: abs_less_iff)
  from binary64_abs_error [OF apK] have gp: "\<bar>g - (A + p)\<bar> \<le> 1 / 2 ^ 19"
    by (simp add: g_def p_def t_def)
  have gn: "to_number (A + p) = Finite g"
    unfolding g_def p_def t_def
    using apK unfolding p_def t_def by (rule to_number_bounded) simp_all
  have "calculateGrowth (Finite (of_nat s)) (Finite (of_nat f)) (Finite (of_nat c)) (Finite u)
        = num_add (Finite A) (num_mul (Finite u) REDDIT_UPVOTES)"
    unfolding calculateGrowth_def A_def by (simp only: weighted_counts [OF s f c])
  also have "\<dots> = to_number (A + p)"
    using pn by (simp add: REDDIT_UPVOTES_value t_def)
  finally show "calculateGrowth (Finite (of_nat s)) (Finite (of_nat f)) (Finite (of_nat c)) (Finite u)
         = Finite g"
    using gn by simp
  have "g - (A + 1 / 10 * u) = (g - (A + p)) + (p - t) + (t - 1 / 10 * u)"
    by simp
  also have "\<bar>\<dots>\<bar> \<le> \<bar>g - (A + p)\<bar> + \<bar>p - t\<bar> + \<bar>t - 1 / 10 * u\<bar>"
    by (rule abs_triangle3)
  also have "\<dots> \<le> 1 / 2 ^ 19 + 1 / 2 ^ 24 + 1 / (5 * 2 ^ 23)"
    by (intro add_mono gp pt tu)
  also have "\<dots> \<le> 1 / 2 ^ 18"
    by simp
  finally show "\<bar>g - (A + 1 / 10 * u)\<bar> \<le> 1 / 2 ^ 18" .
  show "0 \<le> A" by (rule A0)
  from A1 show "A \<le> 2 ^ 35" by simp
qed


lemma service_growth:
  fixes s f c :: nat and u :: rat
  assumes s: "s \<le> 2 ^ 32" and f: "f \<le> 2 ^ 32" and c: "c \<le> 2 ^ 32"
    and u0: "0 \<le> u" and u1: "u \<le> 2 ^ 32"
  defines "X \<equiv> 3 / 2 * of_nat s + 2 * of_nat f + 3 * of_nat c + 1 / 10 * u"
  shows "\<exists>k::int.
           GrowthCalculationService_calculateGrowth
             (Finite (of_nat s)) (Finite (of_nat f)) (Finite (of_nat c)) (Finite u)
           = to_number (of_int k / 100)
         \<and> \<bar>of_int k - 100 * X\<bar> \<le> 1 / 2 + 1 / 2 ^ 10
         \<and> (\<forall>N::int. of_int N = 100 * X \<longrightarrow> k = N)"
proof -
  define A :: rat where "A = 3 / 2 * of_nat s + 2 * of_nat f + 3 * of_nat c"
  define g where "g = binary64 (A + binary64 (u * (3602879701896397 / 2 ^ 55)))"
  define h where "h = binary64 (g * 100)"
  define k where "k = \<lfloor>h + 1 / 2\<rfloor>"
  note sum = growth_sum [OF s f c u0 u1, folded A_def g_def]
  have X: "X = A + 1 / 10 * u" by (simp add: X_def A_def)
  have gX: "\<bar>g - X\<bar> \<le> 1 / 2 ^ 18" using sum(2) by (simp only: X g_def)
  have X0: "0 \<le> X" using sum(3) u0 by (simp add: X)
  have X1: "X \<le> 7 * 2 ^ 32"
  proof -
    have "(of_nat s :: rat) \<le> of_nat (2 ^ 32)" "(of_nat f :: rat) \<le> of_nat (2 ^ 32)"
      "(of_nat c :: rat) \<le> of_nat (2 ^ 32)"
      using s f c by (simp_all only: of_nat_le_iff)
    with u1 show ?thesis by (simp add: X_def)
  qed
  have "(1::rat) / 2 ^ 18 \<le> 1" by simp
  with gX have "\<bar>g - X\<bar> \<le> 1" by (rule order_trans)
  then have "g \<le> X + 1" "X - 1 \<le> g" by linarith+
  with X0 X1 have "g * 100 < 2 ^ 42" "- (2 ^ 42) < g * 100" by simp_all
  then have gK: "\<bar>g * 100\<bar> < 2 powi 42"
    by (simp add: abs_less_iff)
  from binary64_abs_error [OF gK] have hg: "\<bar>h - g * 100\<bar> \<le> 1 / 2 ^ 12"
    by (simp add: h_def)
  have hn: "to_number (g * 100) = Finite h"
    unfolding h_def by (rule to_number_bounded [OF gK]) simp_all
  have a: "\<bar>100 * (g - X)\<bar> = 100 * \<bar>g - X\<bar>"
    by (simp only: abs_mult abs_numeral)
  have "h - 100 * X = (h - g * 100) + 100 * (g - X)" by simp
  then have "\<bar>h - 100 * X\<bar> = \<bar>(h - g * 100) + 100 * (g - X)\<bar>"
    by (simp only:)
  also have "\<dots> \<le> \<bar>h - g * 100\<bar> + \<bar>100 * (g - X)\<bar>"
    by (rule abs_triangle_ineq)
  also have "\<dots> = \<bar>h - g * 100\<bar> + 100 * \<bar>g - X\<bar>"
    by (simp only: a)
  also have "\<dots> \<le> 1 / 2 ^ 12 + 100 * (1 / 2 ^ 18)"
    using hg gX by (intro add_mono mult_left_mono) simp_all
  also have "\<dots> \<le> 1 / 2 ^ 10"
    by simp
  finally have hX: "\<bar>h - 100 * X\<bar> \<le> 1 / 2 ^ 10" .
  have kh: "\<bar>of_int k - h\<bar> \<le> 1 / 2"
    using floor_correct [of "h + 1 / 2"] unfolding k_def by linarith
  have service: "GrowthCalculationService_calculateGrowth
             (Finite (of_nat s)) (Finite (of_nat f)) (Finite (of_nat c)) (Finite u)
           = to_number (of_int k / 100)"
    using sum(1) hn
    by (simp add: GrowthCalculationService_calculateGrowth_def calculateGrowth_def
        multipliers k_def g_def)
  have "of_int k - 100 * X = (of_int k - h) + (h - 100 * X)" by simp
  also have "\<bar>\<dots>\<bar> \<le> \<bar>of_int k - h\<bar> + \<bar>h - 100 * X\<bar>"
    by (rule abs_triangle_ineq)
  also have "\<dots> \<le> 1 / 2 + 1 / 2 ^ 10"
    by (intro add_mono kh hX)
  finally have kX: "\<bar>of_int k - 100 * X\<bar> \<le> 1 / 2 + 1 / 2 ^ 10" .
  have "k = N" if N: "of_int N = 100 * X" for N :: int
  proof -
    have "(1::rat) / 2 ^ 10 < 1 / 2" by simp
    with hX have "\<bar>h - of_int N\<bar> < 1 / 2" unfolding N by (rule le_less_trans)
    then have "of_int N \<le> h + 1 / 2" "h + 1 / 2 < of_int N + 1" by linarith+
    then show ?thesis unfolding k_def by (rule floor_unique)
  qed
  with service kX show ?thesis by blast
qed


lemma binary64_eval:
  assumes lo: "2 ^ 52 * 2 powi k \<le> x" and hi: "x < 2 ^ 53 * 2 powi k" and k: "- 1074 \<le> k"
  shows "binary64 x = of_int (round_half_even (x / 2 powi k)) * 2 powi k"
proof -
  have pos: "(0::rat) < 2 powi k" by simp
  then have "(0::rat) < 2 ^ 52 * 2 powi k" by simp
  from this lo have x: "0 < x" by (rule less_le_trans)
  have "(2::rat) powi (52 + k) = 2 ^ 52 * 2 powi k" "(2::rat) powi (52 + k + 1) = 2 ^ 53 * 2 powi k"
    by (simp_all add: power_int_add)
  with lo hi x have "exponent x = 52 + k"
    by (intro exponent_eqI) simp_all
  with k have "max (exponent x - 52) (- 1074) = k" by simp
  with x show ?thesis
    by (simp add: binary64_nonzero)
qed

lemma round_half_even_tie:
  assumes "q = of_int n + 1 / 2"
  shows "round_half_even q = (if even n then n else n + 1)"
proof -
  have "\<lfloor>q\<rfloor> = n"
    by (rule floor_unique) (simp_all add: assms)
  then show ?thesis
    by (simp add: round_half_even_def Let_def assms)
qed

lemma upvotes_3: "to_number (3 * (3602879701896397 / 2 ^ 55)) = Finite (5404319552844596 / 2 ^ 54)"
proof -
  have "binary64 (3 * (3602879701896397 / 2 ^ 55))
        = of_int (round_half_even (3 * (3602879701896397 / 2 ^ 55) / 2 powi (-54))) * 2 powi (-54)"
    by (rule binary64_eval) simp_all
  also have "round_half_even (3 * (3602879701896397 / 2 ^ 55) / 2 powi (-54)) = 5404319552844596"
    using round_half_even_tie [of "3 * (3602879701896397 / 2 ^ 55) / 2 powi (-54)" 5404319552844595]
    by simp
  finally have "binary64 (3 * (3602879701896397 / 2 ^ 55)) = 5404319552844596 / 2 ^ 54" by simp
  then show ?thesis by (simp add: to_number_Finite)
qed

lemma sum_3: "to_number (0 + 5404319552844596 / 2 ^ 54) = Finite (5404319552844596 / 2 ^ 54)"
proof -
  have "binary64 (0 + 5404319552844596 / 2 ^ 54) = of_int 5404319552844596 * 2 powi (-54)"
    by (rule binary64_eqI) simp_all
  then have "binary64 (0 + 5404319552844596 / 2 ^ 54) = 5404319552844596 / 2 ^ 54" by simp
  then show ?thesis by (simp add: to_number_Finite)
qed

lemma literal_0_3: "to_number (3 / 10) = Finite (5404319552844595 / 2 ^ 54)"
proof -
  have "binary64 (3 / 10) = of_int 5404319552844595 * 2 powi (-54)"
    by (rule binary64_eqI) simp_all
  then have "binary64 (3 / 10) = 5404319552844595 / 2 ^ 54" by simp
  then show ?thesis by (simp add: to_number_Finite)
qed

lemma upvotes_0_75: "to_number (3 / 4 * (3602879701896397 / 2 ^ 55)) = Finite (5404319552844596 / 2 ^ 56)"
proof -
  have "binary64 (3 / 4 * (3602879701896397 / 2 ^ 55))
        = of_int (round_half_even (3 / 4 * (3602879701896397 / 2 ^ 55) / 2 powi (-56))) * 2 powi (-56)"
    by (rule binary64_eval) simp_all
  also have "round_half_even (3 / 4 * (3602879701896397 / 2 ^ 55) / 2 powi (-56)) = 5404319552844596"
    using round_half_even_tie [of "3 / 4 * (3602879701896397 / 2 ^ 55) / 2 powi (-56)" 5404319552844595]
    by simp
  finally have "binary64 (3 / 4 * (3602879701896397 / 2 ^ 55)) = 5404319552844596 / 2 ^ 56" by simp
  then show ?thesis by (simp add: to_number_Finite)
qed

lemma sum_0_75: "to_number (9 + 5404319552844596 / 2 ^ 56) = Finite (5108770827298406 / 2 ^ 49)"
proof -
  have "binary64 (9 + 5404319552844596 / 2 ^ 56) = of_int 5108770827298406 * 2 powi (-49)"
    by (rule binary64_eqI) simp_all
  then have "binary64 (9 + 5404319552844596 / 2 ^ 56) = 5108770827298406 / 2 ^ 49" by simp
  then show ?thesis by (simp add: to_number_Finite)
qed

lemma hundredfold_0_75: "to_number (5108770827298406 / 2 ^ 49 * 100) = Finite (7982454417653759 / 2 ^ 43)"
proof -
  have "binary64 (5108770827298406 / 2 ^ 49 * 100) = of_int 7982454417653759 * 2 powi (-43)"
    by (rule binary64_eqI) simp_all
  then have "binary64 (5108770827298406 / 2 ^ 49 * 100) = 7982454417653759 / 2 ^ 43" by simp
  then show ?thesis by (simp add: to_number_Finite)
qed

lemma literal_9_07: "to_number (907 / 100) = Finite (5105956077531300 / 2 ^ 49)"
proof -
  have "binary64 (907 / 100) = of_int 5105956077531300 * 2 powi (-49)"
    by (rule binary64_eqI) simp_all
  then have "binary64 (907 / 100) = 5105956077531300 / 2 ^ 49" by simp
  then show ?thesis by (simp add: to_number_Finite)
qed

lemma literal_9_08: "to_number (908 / 100) = Finite (5111585577065513 / 2 ^ 49)"
proof -
  have "binary64 (908 / 100) = of_int 5111585577065513 * 2 powi (-49)"
    by (rule binary64_eqI) simp_all
  then have "binary64 (908 / 100) = 5111585577065513 / 2 ^ 49" by simp
  then show ?thesis by (simp add: to_number_Finite)
qed

lemma upvotes_many: "to_number (270152258516082 * (3602879701896397 / 2 ^ 55)) = Finite (6915897818011700 / 2 ^ 8)"
proof -
  have "binary64 (270152258516082 * (3602879701896397 / 2 ^ 55)) = of_int 6915897818011700 * 2 powi (-8)"
    by (rule binary64_eqI) simp_all
  then have "binary64 (270152258516082 * (3602879701896397 / 2 ^ 55)) = 6915897818011700 / 2 ^ 8" by simp
  then show ?thesis by (simp add: to_number_Finite)
qed

lemma sum_many: "to_number (0 + 6915897818011700 / 2 ^ 8) = Finite (6915897818011700 / 2 ^ 8)"
proof -
  have "binary64 (0 + 6915897818011700 / 2 ^ 8) = of_int 6915897818011700 * 2 powi (-8)"
    by (rule binary64_eqI) simp_all
  then have "binary64 (0 + 6915897818011700 / 2 ^ 8) = 6915897818011700 / 2 ^ 8" by simp
  then show ?thesis by (simp add: to_number_Finite)
qed

lemma hundredfold_many: "to_number (6915897818011700 / 2 ^ 8 * 100) = Finite (5403045170321641 / 2 ^ 1)"
proof -
  have "binary64 (6915897818011700 / 2 ^ 8 * 100) = of_int 5403045170321641 * 2 powi (-1)"
    by (rule binary64_eqI) simp_all
  then have "binary64 (6915897818011700 / 2 ^ 8 * 100) = 5403045170321641 / 2 ^ 1" by simp
  then show ?thesis by (simp add: to_number_Finite)
qed

lemma literal_many_wrong: "to_number (2701522585160821 / 100) = Finite (6915897818011702 / 2 ^ 8)"
proof -
  have "binary64 (2701522585160821 / 100) = of_int 6915897818011702 * 2 powi (-8)"
    by (rule binary64_eqI) simp_all
  then have "binary64 (2701522585160821 / 100) = 6915897818011702 / 2 ^ 8" by simp
  then show ?thesis by (simp add: to_number_Finite)
qed

lemma literal_many: "to_number (270152258516082 / 10) = Finite (6915897818011699 / 2 ^ 8)"
proof -
  have "binary64 (270152258516082 / 10) = of_int 6915897818011699 * 2 powi (-8)"
    by (rule binary64_eqI) simp_all
  then have "binary64 (270152258516082 / 10) = 6915897818011699 / 2 ^ 8" by simp
  then show ?thesis by (simp add: to_number_Finite)
qed

lemma literal_0_35: "to_number (35 / 100) = Finite (6305039478318694 / 2 ^ 54)"
proof -
  have "binary64 (35 / 100) = of_int 6305039478318694 * 2 powi (-54)"
    by (rule binary64_eqI) simp_all
  then have "binary64 (35 / 100) = 6305039478318694 / 2 ^ 54" by simp
  then show ?thesis by (simp add: to_number_Finite)
qed

lemma upvotes_0_35: "to_number (6305039478318694 / 2 ^ 54 * (3602879701896397 / 2 ^ 55)) = Finite (5044031582654955 / 2 ^ 57)"
proof -
  have "binary64 (6305039478318694 / 2 ^ 54 * (3602879701896397 / 2 ^ 55)) = of_int 5044031582654955 * 2 powi (-57)"
    by (rule binary64_eqI) simp_all
  then have "binary64 (6305039478318694 / 2 ^ 54 * (3602879701896397 / 2 ^ 55)) = 5044031582654955 / 2 ^ 57" by simp
  then show ?thesis by (simp add: to_number_Finite)
qed

lemma sum_0_35: "to_number (0 + 5044031582654955 / 2 ^ 57) = Finite (5044031582654955 / 2 ^ 57)"
proof -
  have "binary64 (0 + 5044031582654955 / 2 ^ 57) = of_int 5044031582654955 * 2 powi (-57)"
    by (rule binary64_eqI) simp_all
  then have "binary64 (0 + 5044031582654955 / 2 ^ 57) = 5044031582654955 / 2 ^ 57" by simp
  then show ?thesis by (simp add: to_number_Finite)
qed

lemma hundredfold_0_35: "to_number (5044031582654955 / 2 ^ 57 * 100) = Finite (7881299347898367 / 2 ^ 51)"
proof -
  have "binary64 (5044031582654955 / 2 ^ 57 * 100) = of_int 7881299347898367 * 2 powi (-51)"
    by (rule binary64_eqI) simp_all
  then have "binary64 (5044031582654955 / 2 ^ 57 * 100) = 7881299347898367 / 2 ^ 51" by simp
  then show ?thesis by (simp add: to_number_Finite)
qed


lemma hundred: "to_number 100 = Finite 100"
  by (rule multipliers)

lemma no_counts:
  "num_add (num_add (num_mul (Finite 0) SEEDS_PLANTED) (num_mul (Finite 0) SPIRITS_FED))
           (num_mul (Finite 0) ROBOT_CHARGED) = Finite 0"
  using weighted_counts [of 0 0 0] by simp

lemma three_charges:
  "num_add (num_add (num_mul (Finite 0) SEEDS_PLANTED) (num_mul (Finite 0) SPIRITS_FED))
           (num_mul (Finite 3) ROBOT_CHARGED) = Finite 9"
  using weighted_counts [of 0 0 3] by simp

lemma shared_3_upvotes:
  "calculateGrowth (Finite 0) (Finite 0) (Finite 0) (Finite 3) = Finite (5404319552844596 / 2 ^ 54)"
  by (simp only: calculateGrowth_def no_counts REDDIT_UPVOTES_value num_mul.simps num_add.simps
      upvotes_3 sum_3)

lemma service_tie_rounded_down:
  "GrowthCalculationService_calculateGrowth (Finite 0) (Finite 0) (Finite 3) (Finite (3 / 4))
   = to_number (907 / 100)"
proof -
  have "\<lfloor>7982454417653759 / 2 ^ 43 + 1 / 2 :: rat\<rfloor> = 907"
    by (rule floor_unique) simp_all
  then have "Math_round (Finite (7982454417653759 / 2 ^ 43)) = Finite 907" by simp
  then show ?thesis
    by (simp only: GrowthCalculationService_calculateGrowth_def Let_def three_charges
      REDDIT_UPVOTES_value hundred num_mul.simps num_add.simps
      upvotes_0_75 sum_0_75 hundredfold_0_75 num_div.simps) simp
qed

lemma service_many_upvotes:
  "GrowthCalculationService_calculateGrowth (Finite 0) (Finite 0) (Finite 0) (Finite 270152258516082)
   = to_number (2701522585160821 / 100)"
proof -
  have "\<lfloor>5403045170321641 / 2 ^ 1 + 1 / 2 :: rat\<rfloor> = 2701522585160821"
    by (rule floor_unique) simp_all
  then have "Math_round (Finite (5403045170321641 / 2 ^ 1)) = Finite 2701522585160821" by simp
  then show ?thesis
    by (simp only: GrowthCalculationService_calculateGrowth_def Let_def no_counts
      REDDIT_UPVOTES_value hundred num_mul.simps num_add.simps
      upvotes_many sum_many hundredfold_many num_div.simps) simp
qed

lemma service_0_35_upvotes:
  "GrowthCalculationService_calculateGrowth (Finite 0) (Finite 0) (Finite 0) (to_number (35 / 100))
   = to_number (3 / 100)"
proof -
  have "\<lfloor>7881299347898367 / 2 ^ 51 + 1 / 2 :: rat\<rfloor> = 3"
    by (rule floor_unique) simp_all
  then have "Math_round (Finite (7881299347898367 / 2 ^ 51)) = Finite 3" by simp
  then show ?thesis
    by (simp only: GrowthCalculationService_calculateGrowth_def Let_def no_counts
      REDDIT_UPVOTES_value hundred num_mul.simps num_add.simps
      literal_0_35 upvotes_0_35 sum_0_35 hundredfold_0_35 num_div.simps) simp
qed

lemma round2_eqI:
  "of_int k - 1 / 2 \<le> x * 100 \<Longrightarrow> x * 100 < of_int k + 1 / 2 \<Longrightarrow> round2 x = of_int k / 100"
proof -
  assume "of_int k - 1 / 2 \<le> x * 100" "x * 100 < of_int k + 1 / 2"
  then have "of_int k \<le> x * 100 + 1 / 2" "x * 100 + 1 / 2 < of_int k + 1" by linarith+
  then have "\<lfloor>x * 100 + 1 / 2\<rfloor> = k" by (rule floor_unique)
  then show ?thesis by (simp add: round2_def)
qed

text \<open>
  Claim C1, as the code has it.  Let \<open>s\<close>, \<open>f\<close>, \<open>c\<close> be non-negative integers and \<open>u\<close> a
  non-negative number, each at most \<open>2^32\<close>, and \<open>X = 1.5 s + 2 f + 3 c + 0.1 u\<close> the exact sum.
  \<open>GrowthCalculationService.calculateGrowth\<close> returns the number nearest to \<open>k / 100\<close> for an
  integer \<open>k\<close> with \<open>|k / 100 - X| \<le> 0.005 + 0.00001\<close>: the sum rounded to two decimals, where
  within \<open>0.00001\<close> of a tie at the third decimal the rounding may go either way.  When \<open>u\<close>
  is an integer too, the result is the number nearest to \<open>X\<close>.  The shared \<open>calculateGrowth\<close>
  utility of growth.ts does not round: it returns the floating-point sum, which is within
  \<open>2^-18\<close> of \<open>X\<close>.
\<close>

theorem C1_growth_formula:
  fixes s f c :: nat and u :: rat
  assumes "s \<le> 2 ^ 32" and "f \<le> 2 ^ 32" and "c \<le> 2 ^ 32" and "0 \<le> u" and "u \<le> 2 ^ 32"
  defines "X \<equiv> 3 / 2 * of_nat s + 2 * of_nat f + 3 * of_nat c + 1 / 10 * u"
  shows "(\<exists>k::int.
            GrowthCalculationService_calculateGrowth
              (Finite (of_nat s)) (Finite (of_nat f)) (Finite (of_nat c)) (Finite u)
            = to_number (of_int k / 100)
          \<and> \<bar>of_int k / 100 - X\<bar> \<le> 1 / 200 + 1 / 100000)
       \<and> (u \<in> \<int> \<longrightarrow>
            GrowthCalculationService_calculateGrowth
              (Finite (of_nat s)) (Finite (of_nat f)) (Finite (of_nat c)) (Finite u)
            = to_number X)
       \<and> (\<exists>g.
            calculateGrowth (Finite (of_nat s)) (Finite (of_nat f)) (Finite (of_nat c)) (Finite u)
            = Finite g
          \<and> \<bar>g - X\<bar> \<le> 1 / 2 ^ 18)"
proof -
  from service_growth [OF assms(1-5)] obtain k :: int where
    k: "GrowthCalculationService_calculateGrowth
          (Finite (of_nat s)) (Finite (of_nat f)) (Finite (of_nat c)) (Finite u)
        = to_number (of_int k / 100)"
    and near: "\<bar>of_int k - 100 * X\<bar> \<le> 1 / 2 + 1 / 2 ^ 10"
    and whole: "\<And>N::int. of_int N = 100 * X \<Longrightarrow> k = N"
    unfolding X_def by blast
  have "of_int k / 100 - X = (of_int k - 100 * X) / 100" by simp
  then have "\<bar>of_int k / 100 - X\<bar> = \<bar>(of_int k - 100 * X) / 100\<bar>" by (simp only:)
  also have "\<dots> = \<bar>of_int k - 100 * X\<bar> / 100" by (simp only: abs_divide abs_numeral)
  also have "\<dots> \<le> (1 / 2 + 1 / 2 ^ 10) / 100"
    using near by (simp only: divide_right_mono zero_le_numeral)
  also have "\<dots> \<le> 1 / 200 + 1 / 100000" by simp
  finally have 1: "\<bar>of_int k / 100 - X\<bar> \<le> 1 / 200 + 1 / 100000" .
  have 2: "GrowthCalculationService_calculateGrowth
              (Finite (of_nat s)) (Finite (of_nat f)) (Finite (of_nat c)) (Finite u)
            = to_number X" if "u \<in> \<int>"
  proof -
    from that obtain n :: int where n: "u = of_int n" by (rule Ints_cases)
    have "of_int (150 * int s + 200 * int f + 300 * int c + 10 * n) = 100 * X"
      by (simp add: X_def n)
    from whole [OF this] have "of_int k / 100 = X"
      by (simp add: X_def n)
    with k show ?thesis by simp
  qed
  from growth_sum(1,2) [OF assms(1-5)]
  have 3: "\<exists>g. calculateGrowth (Finite (of_nat s)) (Finite (of_nat f)) (Finite (of_nat c)) (Finite u)
            = Finite g \<and> \<bar>g - X\<bar> \<le> 1 / 2 ^ 18"
    unfolding X_def by (intro exI conjI) (assumption, simp add: algebra_simps)
  from k 1 2 3 show ?thesis by blast
qed

theorem C1_growth_formula_witness:
  "(0::nat) \<le> 2 ^ 32 \<and> (0::rat) \<le> 3 \<and> (3::rat) \<le> 2 ^ 32 \<and> (3::rat) \<in> \<int>
   \<and> GrowthCalculationService_calculateGrowth (Finite 0) (Finite 0) (Finite 0) (Finite 3)
       = Finite (5404319552844595 / 2 ^ 54)"
  using C1_growth_formula [of 0 0 0 3] literal_0_3 by simp

text \<open>
  Claim C1 as it is written fails in three ways.  With three upvotes and nothing else the shared
  utility returns \<open>0.30000000000000004\<close>, not \<open>0.3\<close>.  With three charges and \<open>0.75\<close> upvotes
  the exact sum is \<open>9.075\<close>, which rounds half-up to \<open>9.08\<close>; the service returns \<open>9.07\<close>,
  because the floating-point sum times 100 is \<open>907.4999999999999\<close>.  And with 270152258516082
  upvotes the service returns \<open>27015225851608.21\<close> for the sum \<open>27015225851608.2\<close>: the counts
  have to be bounded.
\<close>

theorem C1_not_rounded_half_up:
  "calculateGrowth (Finite 0) (Finite 0) (Finite 0) (Finite 3) = Finite (5404319552844596 / 2 ^ 54)
   \<and> to_number (round2 (3 / 2 * 0 + 2 * 0 + 3 * 0 + 1 / 10 * 3)) = Finite (5404319552844595 / 2 ^ 54)
   \<and> GrowthCalculationService_calculateGrowth (Finite 0) (Finite 0) (Finite 3) (Finite (3 / 4))
       = Finite (5105956077531300 / 2 ^ 49)
   \<and> to_number (round2 (3 / 2 * 0 + 2 * 0 + 3 * 3 + 1 / 10 * (3 / 4)))
       = Finite (5111585577065513 / 2 ^ 49)
   \<and> GrowthCalculationService_calculateGrowth
         (Finite 0) (Finite 0) (Finite 0) (Finite 270152258516082)
       = Finite (6915897818011702 / 2 ^ 8)
   \<and> to_number (round2 (3 / 2 * 0 + 2 * 0 + 3 * 0 + 1 / 10 * 270152258516082))
       = Finite (6915897818011699 / 2 ^ 8)"
proof -
  have "round2 (3 / 2 * 0 + 2 * 0 + 3 * 0 + 1 / 10 * 3) = 3 / 10"
    "round2 (3 / 2 * 0 + 2 * 0 + 3 * 3 + 1 / 10 * (3 / 4)) = 908 / 100"
    "round2 (3 / 2 * 0 + 2 * 0 + 3 * 0 + 1 / 10 * 270152258516082) = 270152258516082 / 10"
    using round2_eqI [of 30 "3 / 2 * 0 + 2 * 0 + 3 * 0 + 1 / 10 * 3"]
      round2_eqI [of 908 "3 / 2 * 0 + 2 * 0 + 3 * 3 + 1 / 10 * (3 / 4)"]
      round2_eqI [of 2701522585160820 "3 / 2 * 0 + 2 * 0 + 3 * 0 + 1 / 10 * 270152258516082"]
    by simp_all
  then show ?thesis
    by (simp only: shared_3_upvotes service_tie_rounded_down service_many_upvotes
        literal_0_3 literal_9_07 literal_9_08 literal_many literal_many_wrong simp_thms)
qed

text \<open>
  Claim C2.  For every \<open>totalGrowth \<ge> 0\<close> the level computed by the shared utility and by
  \<open>GrowthCalculationService.calculateTreeLevel\<close> is the level of a table entry whose threshold is
  at most \<open>totalGrowth\<close>, and no entry with such a threshold has a higher level; a value exactly
  at a threshold therefore gets the higher level.  The level is non-decreasing in
  \<open>totalGrowth\<close>, lies between 1 and 6, and is 6 from 1000 upwards.
\<close>

theorem C2_level_step_function:
  assumes "0 \<le> x"
  shows "GrowthCalculationService_calculateTreeLevel x = calculateTreeLevel x
       \<and> (\<exists>e \<in> set TREE_LEVELS. level e = calculateTreeLevel x \<and> growthRequired e \<le> x)
       \<and> (\<forall>e \<in> set TREE_LEVELS. growthRequired e \<le> x \<longrightarrow> level e \<le> calculateTreeLevel x)
       \<and> (\<forall>y. x \<le> y \<longrightarrow> calculateTreeLevel x \<le> calculateTreeLevel y)
       \<and> calculateTreeLevel x \<in> {1..6}
       \<and> (1000 \<le> x \<longrightarrow> calculateTreeLevel x = 6)
       \<and> map (\<lambda>e. (level e, growthRequired e)) TREE_LEVELS =
           [(1, 0), (2, 50), (3, 150), (4, 300), (5, 500), (6, 1000)]"
proof -
  have "map (\<lambda>e. (level e, growthRequired e)) TREE_LEVELS =
           [(1, 0), (2, 50), (3, 150), (4, 300), (5, 500), (6, 1000)]"
    by (simp add: TREE_LEVELS_def level_defs)
  moreover have "1000 \<le> x \<longrightarrow> calculateTreeLevel x = 6"
    by (simp add: level_cases)
  ultimately show ?thesis
    using assms service_level_eq [of x] level_reached [of x] level_highest [of _ x]
      level_mono [of x] level_range [of x]
    by auto
qed

theorem C2_level_step_function_witness:
  "(0::rat) \<le> 50 \<and> GrowthCalculationService_calculateTreeLevel 50 = 2 \<and> calculateTreeLevel 50 = 2
   \<and> calculateTreeLevel 50 \<le> calculateTreeLevel 149
   \<and> calculateTreeLevel 50 \<in> {1..6}"
proof -
  have h: "(0::rat) \<le> 50" by simp
  have "calculateTreeLevel 50 = 2" by (simp add: level_cases)
  with h C2_level_step_function [OF h] show ?thesis
    by simp
qed

section \<open>Rules for specifications\<close>

lemma wp_eq: "m w = (r, w') \<Longrightarrow> wp m Q w = Q r w'"
  by (simp add: wp_def)

lemma wp_mono: "wp m Q w \<Longrightarrow> (\<And>r w'. Q r w' \<Longrightarrow> Q' r w') \<Longrightarrow> wp m Q' w"
  by (simp add: wp_def)

lemma wp_return [simp]: "wp (return v) Q w = Q (Inr v) w"
  by (simp add: wp_def return_def)

lemma wp_throw [simp]: "wp (throw e) Q w = Q (Inl e) w"
  by (simp add: wp_def throw_def)

lemma wp_Date_now [simp]: "wp Date_now Q w = Q (Inr (clock w)) w"
  by (simp add: wp_def Date_now_def)

lemma wp_bind:
  "wp (bind_io m f) Q w =
     wp m (\<lambda>r w'. case r of Inl e \<Rightarrow> Q (Inl e) w' | Inr v \<Rightarrow> wp (f v) Q w') w"
  by (simp add: wp_def bind_io_def split: prod.splits sum.splits)

lemma wp_catch:
  "wp (catch_io m h) Q w =
     wp m (\<lambda>r w'. case r of Inl e \<Rightarrow> wp (h e) Q w' | Inr v \<Rightarrow> Q (Inr v) w') w"
  by (simp add: wp_def catch_io_def split: prod.splits sum.splits)

lemma wp_redis_get:
  "wp (redis_get key) Q w =
     (case failing w of Some msg \<Rightarrow> Q (Inl msg) (tick w) | None \<Rightarrow> Q (Inr (store w key)) (tick w))"
  by (simp add: wp_def redis_get_def store_call_def tick_def split: option.splits)

lemma wp_redis_set:
  "wp (redis_set key v) Q w =
     (case failing w of Some msg \<Rightarrow> Q (Inl msg) (tick w)
      | None \<Rightarrow> Q (Inr ()) ((tick w)\<lparr>store := (store w)(key \<mapsto> v)\<rparr>))"
  by (simp add: wp_def redis_set_def store_call_def tick_def split: option.splits)

lemma tick_simps [simp]:
  "store (tick w) = store w" "clock (tick w) = clock w" "entropy (tick w) = entropy w"
  "calls (tick w) = calls w + 1" "faults (tick w) = tl (faults w)"
  by (simp_all add: tick_def)

lemma failing_Nil [simp]: "faults w = [] \<Longrightarrow> failing w = None"
  by (simp add: failing_def)

text \<open>The retry loop, unrolled.\<close>

lemma withRetry_unroll:
  "withRetry operation w =
     (case operation w of
        (Inr v, w1) \<Rightarrow> (Inr v, w1)
      | (Inl e1, w1) \<Rightarrow>
         (case operation (w1\<lparr>clock := clock w1 + 1000\<rparr>) of
            (Inr v, w2) \<Rightarrow> (Inr v, w2)
          | (Inl e2, w2) \<Rightarrow>
             (case operation (w2\<lparr>clock := clock w2 + 2000\<rparr>) of
                (Inr v, w3) \<Rightarrow> (Inr v, w3)
              | (Inl e3, w3) \<Rightarrow> (Inl (connection_error (Some e3)), w3))))"
  by (simp add: withRetry_def maxRetries_def retryDelay_def setTimeout_def
      split: prod.splits sum.splits)

lemma withRetry_success: "operation w = (Inr v, w') \<Longrightarrow> withRetry operation w = (Inr v, w')"
  by (simp add: withRetry_unroll)

lemma wp_withRetry:
  assumes start: "F w"
    and later: "\<And>w d. F w \<Longrightarrow> F (w\<lparr>clock := clock w + d\<rparr>)"
    and op: "\<And>w. F w \<Longrightarrow> wp operation (outcome F S) w"
  shows "wp (withRetry operation) (outcome F S) w"
proof -
  obtain r1 w1 where 1: "operation w = (r1, w1)" by (cases "operation w")
  obtain r2 w2 where 2: "operation (w1\<lparr>clock := clock w1 + 1000\<rparr>) = (r2, w2)"
    by (cases "operation (w1\<lparr>clock := clock w1 + 1000\<rparr>)")
  obtain r3 w3 where 3: "operation (w2\<lparr>clock := clock w2 + 2000\<rparr>) = (r3, w3)"
    by (cases "operation (w2\<lparr>clock := clock w2 + 2000\<rparr>)")
  from op [OF start] 1 have p1: "outcome F S r1 w1" by (simp add: wp_def)
  show ?thesis
  proof (cases r1)
    case (Inr v)
    with 1 p1 show ?thesis by (simp add: wp_def withRetry_unroll)
  next
    case e1: (Inl e1)
    with p1 have "F w1" by (simp add: outcome_def)
    from op [OF later [OF this, of 1000]] 2 have p2: "outcome F S r2 w2" by (simp add: wp_def)
    show ?thesis
    proof (cases r2)
      case (Inr v)
      with 1 2 e1 p2 show ?thesis by (simp add: wp_def withRetry_unroll)
    next
      case e2: (Inl e2)
      with p2 have "F w2" by (simp add: outcome_def)
      from op [OF later [OF this, of 2000]] 3 have p3: "outcome F S r3 w3" by (simp add: wp_def)
      with 1 2 3 e1 e2 show ?thesis
        by (cases r3) (simp_all add: wp_def withRetry_unroll outcome_def)
    qed
  qed
qed

section \<open>Calls in a world whose store answers\<close>

lemma tick_nofault: "faults w = [] \<Longrightarrow> tick w = w\<lparr>calls := calls w + 1\<rparr>"
  by (cases w) (simp add: tick_def)

lemma redis_get_ok: "faults w = [] \<Longrightarrow> redis_get key w = (Inr (store w key), w\<lparr>calls := calls w + 1\<rparr>)"
  by (simp add: redis_get_def store_call_def tick_nofault)

lemma redis_set_ok:
  "faults w = [] \<Longrightarrow>
   redis_set key v w = (Inr (), w\<lparr>calls := calls w + 1, store := (store w)(key \<mapsto> v)\<rparr>)"
  by (simp add: redis_set_def store_call_def tick_nofault)

lemma getPlayerResources_found:
  assumes "faults w = []" and "store w (PLAYER_RESOURCES u s) = Some (SPlayer p)"
  shows "getPlayerResources u s w = (Inr (Some p), w\<lparr>calls := calls w + 1\<rparr>)"
  unfolding getPlayerResources_def
  by (rule withRetry_success) (simp add: bind_io_def redis_get_ok assms return_def)

lemma getGameState_found:
  assumes "faults w = []" and "store w (SUBREDDIT_STATE s) = Some (SState g)"
  shows "getGameState s w = (Inr (Some g), w\<lparr>calls := calls w + 1\<rparr>)"
  unfolding getGameState_def
  by (rule withRetry_success) (simp add: bind_io_def redis_get_ok assms return_def)

lemma getGameState_absent:
  assumes "faults w = []" and "store w (SUBREDDIT_STATE s) = None"
  shows "getGameState s w = (Inr None, w\<lparr>calls := calls w + 1\<rparr>)"
  unfolding getGameState_def
  by (rule withRetry_success) (simp add: bind_io_def redis_get_ok assms return_def)

lemma spend_attempt_insufficient:
  assumes "faults w = []" and "store w (PLAYER_RESOURCES u s) = Some (SPlayer p)"
    and "cinnamon p < amount"
  shows "bind_io (getPlayerResources u s) (\<lambda>current.
           case current of
             None \<Rightarrow> throw (player_not_found u s)
           | Some currentResources \<Rightarrow>
               if cinnamon currentResources < amount then throw INSUFFICIENT_RESOURCES
               else updatePlayerResources u s
                 (no_player_updates\<lparr>
                    u_cinnamon := Some (cinnamon currentResources - amount),
                    u_totalContributions := Some (totalContributions currentResources + amount)\<rparr>)) w
         = (Inl INSUFFICIENT_RESOURCES, w\<lparr>calls := calls w + 1\<rparr>)"
  by (simp add: bind_io_def getPlayerResources_found assms throw_def)

lemma spendCinnamon_insufficient_retried:
  assumes "faults w = []" and "store w (PLAYER_RESOURCES u s) = Some (SPlayer p)"
    and "cinnamon p < amount" and "0 < amount"
  shows "spendCinnamon u s amount w =
           (Inl (connection_error (Some INSUFFICIENT_RESOURCES)),
            w\<lparr>calls := calls w + 3, clock := clock w + 3000\<rparr>)"
  using assms
  by (simp add: spendCinnamon_def withRetry_unroll spend_attempt_insufficient)






lemma example_world_simps:
  "faults empty_world = []" "clock empty_world = 0" "calls empty_world = 0"
  "store empty_world k = None"
  "faults down_world = [Some ''ECONNRESET'', Some ''ECONNRESET'', Some ''ETIMEDOUT'']"
  "clock down_world = 0" "calls down_world = 0"
  "faults misfiled_world = []" "clock misfiled_world = 0" "calls misfiled_world = 0"
  "store misfiled_world (SUBREDDIT_STATE ''testsub'') = Some (SPlayer alice)"
  by (simp_all add: empty_world_def down_world_def misfiled_world_def)

lemma alice_world_simps:
  "faults alice_world = []" "clock alice_world = 0" "calls alice_world = 0"
  "store alice_world (PLAYER_RESOURCES ''alice'' ''testsub'') = Some (SPlayer alice)"
  "cinnamon alice = 3"
  by (simp_all add: alice_world_def empty_world_def alice_def)





text \<open>
  Claim C10.  For an amount that is zero or negative \<open>earnCinnamon\<close> throws ``Cinnamon amount
  must be positive'' and the world is the one it started from: no store call has been made.
  \<open>awardUpvoteCinnamon\<close> with no upvotes passes the amount \<open>0 * 0.1 = 0\<close> and so fails in the
  same way.
\<close>

theorem C10_earn_needs_positive_amount:
  assumes "amount \<le> 0"
  shows "earnCinnamon user subreddit amount w = (Inl ''Cinnamon amount must be positive'', w)
       \<and> awardUpvoteCinnamon user subreddit 0 w = (Inl ''Cinnamon amount must be positive'', w)"
  using assms by (simp add: earnCinnamon_def awardUpvoteCinnamon_def throw_def)

theorem C10_earn_needs_positive_amount_witness:
  "(0::rat) \<le> 0
   \<and> earnCinnamon ''alice'' ''testsub'' 0 alice_world =
       (Inl ''Cinnamon amount must be positive'', alice_world)
   \<and> store (snd (awardUpvoteCinnamon ''alice'' ''testsub'' 0 alice_world))
        (PLAYER_RESOURCES ''alice'' ''testsub'') = Some (SPlayer alice)"
proof -
  have h: "(0::rat) \<le> 0" by simp
  from C10_earn_needs_positive_amount [OF h, of "''alice''" "''testsub''" alice_world]
  show ?thesis by (simp add: alice_world_simps)
qed

section \<open>RedisGameService: reading and writing the game state\<close>

lemma unchanged_refl [simp]: "unchanged w w"
  by (simp add: unchanged_def)

lemma unchanged_later: "unchanged w w' \<Longrightarrow> unchanged w (w'\<lparr>clock := clock w' + d\<rparr>)"
  by (simp add: unchanged_def)

lemma unchanged_tick [simp]: "unchanged w (tick w') = unchanged w w'"
  by (simp add: unchanged_def)

lemma unchanged_trans: "unchanged a b \<Longrightarrow> unchanged b c \<Longrightarrow> unchanged a c"
  by (simp add: unchanged_def)

lemma getGameState_spec:
  "wp (getGameState s)
     (outcome (unchanged w)
        (\<lambda>v w'. unchanged w w' \<and>
           (case store w (SUBREDDIT_STATE s) of
              None \<Rightarrow> v = None
            | Some (SState g) \<Rightarrow> v = Some g
            | Some _ \<Rightarrow> False))) w"
  unfolding getGameState_def
  by (rule wp_withRetry)
     (auto simp: unchanged_later wp_bind wp_redis_get outcome_def unchanged_def
           split: option.splits Stored.splits)

lemma saveGameState_spec:
  "wp (saveGameState g)
     (outcome (unchanged w)
        (\<lambda>v w'. clock w \<le> clock w' \<and> (\<exists>t. v = g\<lparr>updatedAt := t\<rparr>) \<and>
           store w' = (store w)(SUBREDDIT_STATE (subredditName g) \<mapsto> SState v))) w"
  unfolding saveGameState_def
  by (rule wp_withRetry)
     (auto simp: unchanged_later wp_bind wp_redis_set outcome_def unchanged_def Let_def
           split: option.splits)

lemma saveGameState_ok:
  assumes "faults w = []"
  shows "saveGameState g w =
    (Inr (g\<lparr>updatedAt := clock w\<rparr>),
     w\<lparr>calls := calls w + 1,
       store := (store w)(SUBREDDIT_STATE (subredditName g) \<mapsto> SState (g\<lparr>updatedAt := clock w\<rparr>))\<rparr>)"
  unfolding saveGameState_def
  by (rule withRetry_success)
     (simp add: bind_io_def Date_now_def redis_set_ok assms return_def Let_def)

lemma initializeGameState_existing:
  assumes "faults w = []" and "store w (SUBREDDIT_STATE s) = Some (SState g)"
  shows "initializeGameState s w = (Inr g, w\<lparr>calls := calls w + 1\<rparr>)"
  by (simp add: initializeGameState_def catch_io_def bind_io_def getGameState_found assms return_def)

lemma initializeGameState_fresh:
  assumes "faults w = []" and "store w (SUBREDDIT_STATE s) = None"
  shows "initializeGameState s w =
    (Inr (initialState s (clock w)),
     w\<lparr>calls := calls w + 2,
       store := (store w)(SUBREDDIT_STATE s \<mapsto> SState (initialState s (clock w)))\<rparr>)"
  by (simp add: initializeGameState_def catch_io_def bind_io_def getGameState_absent assms
      Date_now_def saveGameState_ok initialState_def)

lemma initializeGameState_keeps_store:
  assumes "store w (SUBREDDIT_STATE s) = Some (SState g)"
  shows "wp (initializeGameState s) (\<lambda>r w'. store w' = store w \<and> (\<forall>v. r = Inr v \<longrightarrow> v = g)) w"
  unfolding initializeGameState_def
  apply (simp add: wp_catch wp_bind)
  apply (rule wp_mono [OF getGameState_spec [of s w]])
  apply (auto simp: outcome_def unchanged_def assms split: sum.splits option.splits)
  done

lemma seeded_world_simps:
  "faults seeded_world = []" "clock seeded_world = 0" "calls seeded_world = 0"
  "store seeded_world (SUBREDDIT_STATE ''testsub'') = Some (SState (initialState ''testsub'' 0))"
  by (simp_all add: seeded_world_def empty_world_def)

text \<open>
  Claim C8.  When a game state is stored for the subreddit, \<open>initializeGameState\<close> writes
  nothing, whatever the store does, and a record it returns is the stored one, \<open>createdAt\<close>
  included; when the store answers, it returns that record after a single read.  When no
  record is stored and the store answers, it creates the record with all counters and the
  growth at 0 and the level at 1, persists it, and a second call returns this record and
  leaves the store as it is.
\<close>

theorem C8_initialize_idempotent:
  "(store w (SUBREDDIT_STATE s) = Some (SState g) \<longrightarrow>
      store (snd (initializeGameState s w)) = store w
      \<and> (\<forall>v. fst (initializeGameState s w) = Inr v \<longrightarrow> v = g)
      \<and> (faults w = [] \<longrightarrow> initializeGameState s w = (Inr g, w\<lparr>calls := calls w + 1\<rparr>)))
   \<and> (store w (SUBREDDIT_STATE s) = None \<and> faults w = [] \<longrightarrow>
      (\<exists>g0 w1. initializeGameState s w = (Inr g0, w1)
         \<and> g0 = \<lparr>subredditName = s, treeLevel = 1, totalGrowth = 0, seedsPlanted = 0,
                 spiritsFed = 0, robotCharged = 0, dailyUpvotes = 0,
                 lastGrowthCalculation = clock w, createdAt = clock w, updatedAt = clock w\<rparr>
         \<and> store w1 = (store w)(SUBREDDIT_STATE s \<mapsto> SState g0)
         \<and> initializeGameState s w1 = (Inr g0, w1\<lparr>calls := calls w1 + 1\<rparr>)))"
proof (intro conjI impI)
  assume st: "store w (SUBREDDIT_STATE s) = Some (SState g)"
  from initializeGameState_keeps_store [OF st]
  show "store (snd (initializeGameState s w)) = store w"
    and "\<forall>v. fst (initializeGameState s w) = Inr v \<longrightarrow> v = g"
    by (simp_all add: wp_def)
  assume "faults w = []"
  then show "initializeGameState s w = (Inr g, w\<lparr>calls := calls w + 1\<rparr>)"
    using st by (rule initializeGameState_existing)
next
  assume a: "store w (SUBREDDIT_STATE s) = None \<and> faults w = []"
  let ?g0 = "initialState s (clock w)"
  let ?w1 = "w\<lparr>calls := calls w + 2, store := (store w)(SUBREDDIT_STATE s \<mapsto> SState ?g0)\<rparr>"
  have 1: "initializeGameState s w = (Inr ?g0, ?w1)"
    using a by (simp add: initializeGameState_fresh)
  have 2: "initializeGameState s ?w1 = (Inr ?g0, ?w1\<lparr>calls := calls ?w1 + 1\<rparr>)"
    using a by (intro initializeGameState_existing) simp_all
  from 1 2 show "\<exists>g0 w1. initializeGameState s w = (Inr g0, w1)
         \<and> g0 = \<lparr>subredditName = s, treeLevel = 1, totalGrowth = 0, seedsPlanted = 0,
                 spiritsFed = 0, robotCharged = 0, dailyUpvotes = 0,
                 lastGrowthCalculation = clock w, createdAt = clock w, updatedAt = clock w\<rparr>
         \<and> store w1 = (store w)(SUBREDDIT_STATE s \<mapsto> SState g0)
         \<and> initializeGameState s w1 = (Inr g0, w1\<lparr>calls := calls w1 + 1\<rparr>)"
    by (intro exI [of _ ?g0] exI [of _ ?w1]) (simp add: initialState_def)
qed

theorem C8_initialize_idempotent_witness:
  "store seeded_world (SUBREDDIT_STATE ''testsub'') = Some (SState (initialState ''testsub'' 0))
   \<and> faults seeded_world = []
   \<and> initializeGameState ''testsub'' seeded_world =
       (Inr (initialState ''testsub'' 0), seeded_world\<lparr>calls := 1\<rparr>)
   \<and> store (snd (initializeGameState ''testsub'' seeded_world)) = store seeded_world
   \<and> store empty_world (SUBREDDIT_STATE ''testsub'') = None \<and> faults empty_world = []
   \<and> fst (initializeGameState ''testsub'' empty_world) = Inr (initialState ''testsub'' 0)
   \<and> store (snd (initializeGameState ''testsub'' empty_world)) = store seeded_world"
proof -
  note inst = C8_initialize_idempotent [of _ "''testsub''" "initialState ''testsub'' 0"]
  have e: "store empty_world (SUBREDDIT_STATE ''testsub'') = None \<and> faults empty_world = []"
    by (simp add: example_world_simps)
  from inst [of empty_world, THEN conjunct2, THEN mp, OF e]
  obtain g0 w1 where f: "initializeGameState ''testsub'' empty_world = (Inr g0, w1)"
    and g0: "g0 = \<lparr>subredditName = ''testsub'', treeLevel = 1, totalGrowth = 0, seedsPlanted = 0,
                 spiritsFed = 0, robotCharged = 0, dailyUpvotes = 0,
                 lastGrowthCalculation = clock empty_world, createdAt = clock empty_world,
                 updatedAt = clock empty_world\<rparr>"
    and w1: "store w1 = (store empty_world)(SUBREDDIT_STATE ''testsub'' \<mapsto> SState g0)"
    by blast
  from g0 have g0': "g0 = initialState ''testsub'' 0"
    by (simp add: initialState_def example_world_simps)
  have s: "store seeded_world (SUBREDDIT_STATE ''testsub'') = Some (SState (initialState ''testsub'' 0))"
    and nf: "faults seeded_world = []"
    by (simp_all add: seeded_world_simps)
  from inst [of seeded_world, THEN conjunct1, THEN mp, OF s] nf
  have x: "initializeGameState ''testsub'' seeded_world =
       (Inr (initialState ''testsub'' 0), seeded_world\<lparr>calls := calls seeded_world + 1\<rparr>)"
    and y: "store (snd (initializeGameState ''testsub'' seeded_world)) = store seeded_world"
    by blast+
  have z: "store w1 = store seeded_world"
    unfolding w1 g0' by (simp add: seeded_world_def empty_world_def)
  from e s nf x y z f g0' show ?thesis
    by (simp add: seeded_world_simps)
qed

lemma spread_GameState_simps [simp]:
  "subredditName (spread_GameState cs u) = subredditName cs"
  "createdAt (spread_GameState cs u) = createdAt cs"
  "totalGrowth (spread_GameState cs u) = or_else (u_totalGrowth u) (totalGrowth cs)"
  "seedsPlanted (spread_GameState cs u) = or_else (u_seedsPlanted u) (seedsPlanted cs)"
  "spiritsFed (spread_GameState cs u) = or_else (u_spiritsFed u) (spiritsFed cs)"
  "robotCharged (spread_GameState cs u) = or_else (u_robotCharged u) (robotCharged cs)"
  "dailyUpvotes (spread_GameState cs u) = or_else (u_dailyUpvotes u) (dailyUpvotes cs)"
  by (simp_all add: spread_GameState_def)

lemma updateGameState_spec:
  "wp (updateGameState s u)
     (outcome (unchanged w)
        (\<lambda>v w'. clock w \<le> clock w' \<and>
           (\<exists>cs t. store w (SUBREDDIT_STATE s) = Some (SState cs) \<and>
              v = (spread_GameState cs u)\<lparr>
                    treeLevel := RedisGameService_calculateTreeLevel (totalGrowth (spread_GameState cs u)),
                    updatedAt := t\<rparr> \<and>
              store w' = (store w)(SUBREDDIT_STATE (subredditName cs) \<mapsto> SState v)))) w"
  unfolding updateGameState_def
proof (rule wp_withRetry)
  show "unchanged w w" by simp
next
  fix w' d assume "unchanged w w'"
  then show "unchanged w (w'\<lparr>clock := clock w' + d\<rparr>)" by (rule unchanged_later)
next
  fix w' assume u: "unchanged w w'"
  let ?Q = "outcome (unchanged w)
        (\<lambda>v w'. clock w \<le> clock w' \<and>
           (\<exists>cs t. store w (SUBREDDIT_STATE s) = Some (SState cs) \<and>
              v = (spread_GameState cs u)\<lparr>
                    treeLevel := RedisGameService_calculateTreeLevel (totalGrowth (spread_GameState cs u)),
                    updatedAt := t\<rparr> \<and>
              store w' = (store w)(SUBREDDIT_STATE (subredditName cs) \<mapsto> SState v)))"
  show "wp (bind_io (getGameState s) (\<lambda>current.
        case current of
          None \<Rightarrow> throw (''Game state not found for subreddit: '' @ s)
        | Some currentState \<Rightarrow>
            bind_io Date_now (\<lambda>t.
              let updatedState = (spread_GameState currentState u)\<lparr>updatedAt := t\<rparr>;
                  updatedState = updatedState\<lparr>treeLevel :=
                    RedisGameService_calculateTreeLevel (totalGrowth updatedState)\<rparr>
              in saveGameState updatedState))) ?Q w'"
    unfolding wp_bind
  proof (rule wp_mono [OF getGameState_spec [of s w']])
    fix r w2
    assume g: "outcome (unchanged w')
         (\<lambda>v w''. unchanged w' w'' \<and>
           (case store w' (SUBREDDIT_STATE s) of
              None \<Rightarrow> v = None
            | Some (SState g) \<Rightarrow> v = Some g
            | Some _ \<Rightarrow> False)) r w2"
    show "case r of Inl e \<Rightarrow> ?Q (Inl e) w2
          | Inr v \<Rightarrow> wp (case v of
              None \<Rightarrow> throw (''Game state not found for subreddit: '' @ s)
            | Some currentState \<Rightarrow>
                bind_io Date_now (\<lambda>t.
                  let updatedState = (spread_GameState currentState u)\<lparr>updatedAt := t\<rparr>;
                      updatedState = updatedState\<lparr>treeLevel :=
                        RedisGameService_calculateTreeLevel (totalGrowth updatedState)\<rparr>
                  in saveGameState updatedState)) ?Q w2"
    proof (cases r)
      case (Inl e)
      with g u show ?thesis by (auto simp: outcome_def intro: unchanged_trans)
    next
      case (Inr v)
      with g have u2: "unchanged w' w2" by (simp add: outcome_def)
      with u have u3: "unchanged w w2" by (rule unchanged_trans)
      show ?thesis
      proof (cases v)
        case None
        with Inr u3 show ?thesis by (simp add: outcome_def)
      next
        case (Some cs)
        with g Inr u have cs: "store w (SUBREDDIT_STATE s) = Some (SState cs)"
          by (auto simp: outcome_def unchanged_def split: option.splits Stored.splits)
        let ?x = "(spread_GameState cs u)\<lparr>updatedAt := clock w2,
            treeLevel := RedisGameService_calculateTreeLevel (totalGrowth (spread_GameState cs u))\<rparr>"
        have "wp (saveGameState ?x) ?Q w2"
        proof (rule wp_mono [OF saveGameState_spec [of ?x w2]])
          fix r' w3
          assume "outcome (unchanged w2)
            (\<lambda>v w'. clock w2 \<le> clock w' \<and> (\<exists>t. v = ?x\<lparr>updatedAt := t\<rparr>) \<and>
               store w' = (store w2)(SUBREDDIT_STATE (subredditName ?x) \<mapsto> SState v)) r' w3"
          with u3 cs show "?Q r' w3"
            by (cases r') (auto simp: outcome_def unchanged_def)
        qed
        with Inr Some show ?thesis by (simp add: wp_bind Let_def)
      qed
    qed
  qed
qed

section \<open>Keys of different kinds are different\<close>

lemma state_key_not_history [simp]:
  "SUBREDDIT_STATE s \<noteq> ACTION_HISTORY s'" "ACTION_HISTORY s' \<noteq> SUBREDDIT_STATE s"
proof -
  have "last (SUBREDDIT_STATE s) = CHR ''e''" "last (ACTION_HISTORY s') = CHR ''s''"
    by (simp_all add: SUBREDDIT_STATE_def ACTION_HISTORY_def)
  then show "SUBREDDIT_STATE s \<noteq> ACTION_HISTORY s'" "ACTION_HISTORY s' \<noteq> SUBREDDIT_STATE s"
    by auto
qed

lemma history_key_inj [simp]: "ACTION_HISTORY s = ACTION_HISTORY s' \<longleftrightarrow> s = s'"
  by (simp add: ACTION_HISTORY_def)

lemma state_key_inj [simp]: "SUBREDDIT_STATE s = SUBREDDIT_STATE s' \<longleftrightarrow> s = s'"
  by (simp add: SUBREDDIT_STATE_def)

section \<open>The invariants\<close>

lemma actions_of_simps [simp]:
  "actions_of [] = []"
  "actions_of (IAction a # xs) = a # actions_of xs"
  "actions_of (IName n # xs) = actions_of xs"
  "actions_of (xs @ ys) = actions_of xs @ actions_of ys"
  by (simp_all add: actions_of_def)

lemma newest_first_later: "newest_first c xs \<Longrightarrow> c \<le> c' \<Longrightarrow> newest_first c' xs"
  by (auto simp: newest_first_def)

lemma newest_first_take: "newest_first c xs \<Longrightarrow> newest_first c (take n xs)"
proof -
  assume a: "newest_first c xs"
  have "actions_of xs = actions_of (take n xs) @ actions_of (drop n xs)"
    by (metis actions_of_simps(4) append_take_drop_id)
  with a show ?thesis
    by (auto simp: newest_first_def sorted_wrt_append)
qed

lemma newest_first_Cons:
  "newest_first c xs \<Longrightarrow> timestamp a = c \<Longrightarrow> newest_first c (IAction a # xs)"
  by (auto simp: newest_first_def)

lemma newest_first_Nil [simp]: "newest_first c []"
  by (simp add: newest_first_def)

lemma inv_insensitive [simp]:
  "levels_ok (tick w) = levels_ok w" "history_ok (tick w) = history_ok w"
  "levels_ok (w\<lparr>entropy := e\<rparr>) = levels_ok w" "history_ok (w\<lparr>entropy := e\<rparr>) = history_ok w"
  "levels_ok (w\<lparr>clock := c\<rparr>) = levels_ok w"
  "cinnamon_ok (tick w) = cinnamon_ok w" "cinnamon_ok (w\<lparr>clock := c\<rparr>) = cinnamon_ok w"
  "cinnamon_ok (w\<lparr>entropy := e\<rparr>) = cinnamon_ok w"
  by (simp_all add: levels_ok_def history_ok_def cinnamon_ok_def)

lemma history_okD:
  "history_ok w \<Longrightarrow> store w (ACTION_HISTORY s) = Some (SArray xs) \<Longrightarrow>
   length xs \<le> 1000 \<and> newest_first (clock w) xs"
  by (simp add: history_ok_def)

lemma history_ok_unchanged:
  assumes "history_ok w" and "unchanged w w'"
  shows "history_ok w'"
  unfolding history_ok_def
proof (intro allI impI)
  fix s xs assume "store w' (ACTION_HISTORY s) = Some (SArray xs)"
  with assms(2) have "store w (ACTION_HISTORY s) = Some (SArray xs)"
    by (simp add: unchanged_def)
  from history_okD [OF assms(1) this] assms(2)
  show "length xs \<le> 1000 \<and> newest_first (clock w') xs"
    by (auto simp: unchanged_def intro: newest_first_later)
qed

lemma history_ok_later: "history_ok w \<Longrightarrow> history_ok (w\<lparr>clock := clock w + d\<rparr>)"
  by (erule history_ok_unchanged) (simp add: unchanged_def)

lemma game_inv_later: "game_inv L H C w \<Longrightarrow> game_inv L H C (w\<lparr>clock := clock w + d\<rparr>)"
  by (simp add: game_inv_def history_ok_later)

lemma levels_ok_unchanged: "levels_ok w \<Longrightarrow> unchanged w w' \<Longrightarrow> levels_ok w'"
  by (simp add: levels_ok_def unchanged_def)

lemma cinnamon_ok_unchanged: "cinnamon_ok w \<Longrightarrow> unchanged w w' \<Longrightarrow> cinnamon_ok w'"
  by (simp add: cinnamon_ok_def unchanged_def)

lemma game_inv_unchanged: "game_inv L H C w \<Longrightarrow> unchanged w w' \<Longrightarrow> game_inv L H C w'"
  by (auto simp: game_inv_def intro: levels_ok_unchanged history_ok_unchanged cinnamon_ok_unchanged)

lemma game_inv_state_written:
  assumes "game_inv L H C w" and "clock w \<le> clock w'"
    and st: "store w' = (store w)(SUBREDDIT_STATE n \<mapsto> SState v)"
    and "treeLevel v = calculateTreeLevel (totalGrowth v)"
  shows "game_inv L H C w'"
proof -
  have "levels_ok w'" if "levels_ok w"
    using that assms by (auto simp: levels_ok_def)
  moreover have "history_ok w'" if h: "history_ok w"
    unfolding history_ok_def
  proof (intro allI impI)
    fix s xs assume "store w' (ACTION_HISTORY s) = Some (SArray xs)"
    with st have "store w (ACTION_HISTORY s) = Some (SArray xs)"
      by simp
    with h history_okD [of w s xs] have "length xs \<le> 1000 \<and> newest_first (clock w) xs"
      by simp
    with assms(2) show "length xs \<le> 1000 \<and> newest_first (clock w') xs"
      by (auto intro: newest_first_later)
  qed
  moreover have "cinnamon_ok w'" if "cinnamon_ok w"
    using that st by (auto simp: cinnamon_ok_def)
  ultimately show ?thesis using assms(1) by (simp add: game_inv_def)
qed

lemma capped_history:
  "length (if length ys > 1000 then take 1000 ys else ys) \<le> 1000"
  "newest_first c ys \<Longrightarrow> newest_first c (if length ys > 1000 then take 1000 ys else ys)"
  by (simp_all add: newest_first_take)

lemma game_inv_history_written:
  assumes "game_inv L H C w"
    and old: "store w (ACTION_HISTORY s) = Some (SArray xs) \<or> xs = []"
    and "timestamp a = clock w"
    and ys: "ys = IAction a # xs"
    and st: "store w' = (store w)(ACTION_HISTORY s \<mapsto>
            SArray (if length ys > 1000 then take 1000 ys else ys))"
    and cl: "clock w' = clock w"
  shows "game_inv L H C w'"
proof -
  have "history_ok w'" if h: "history_ok w"
    unfolding history_ok_def
  proof (intro allI impI)
    from h old have nf: "newest_first (clock w) xs"
      by (auto dest: history_okD)
    with assms(3) ys have new: "newest_first (clock w) ys"
      by (simp add: newest_first_Cons)
    fix s' zs assume z: "store w' (ACTION_HISTORY s') = Some (SArray zs)"
    show "length zs \<le> 1000 \<and> newest_first (clock w') zs"
    proof (cases "s' = s")
      case True
      with z st have "zs = (if length ys > 1000 then take 1000 ys else ys)" by simp
      with capped_history(1) [of ys] capped_history(2) [OF new] cl show ?thesis by simp
    next
      case False
      with z st have "store w (ACTION_HISTORY s') = Some (SArray zs)" by simp
      with h history_okD [of w s' zs] cl show ?thesis by simp
    qed
  qed
  moreover have "levels_ok w'" if "levels_ok w"
    using that st by (auto simp: levels_ok_def)
  moreover have "cinnamon_ok w'" if "cinnamon_ok w"
    using that st by (auto simp: cinnamon_ok_def)
  ultimately show ?thesis using assms(1) by (simp add: game_inv_def)
qed

lemma game_inv_insensitive [simp]:
  "game_inv L H C (tick w) = game_inv L H C w" "game_inv L H C (w\<lparr>entropy := e\<rparr>) = game_inv L H C w"
  by (simp_all add: game_inv_def)

section \<open>RedisGameService keeps the invariants\<close>

lemma getGameState_inv:
  assumes "game_inv L H C w" and "\<And>r w'. game_inv L H C w' \<Longrightarrow> unchanged w w' \<Longrightarrow> Q r w'"
  shows "wp (getGameState s) Q w"
proof (rule wp_mono [OF getGameState_spec [of s w]])
  fix r w' assume "outcome (unchanged w)
        (\<lambda>v w'. unchanged w w' \<and>
           (case store w (SUBREDDIT_STATE s) of
              None \<Rightarrow> v = None
            | Some (SState g) \<Rightarrow> v = Some g
            | Some _ \<Rightarrow> False)) r w'"
  then have "unchanged w w'" by (cases r) (simp_all add: outcome_def)
  with assms show "Q r w'" by (blast intro: game_inv_unchanged)
qed

lemma updateGameState_inv:
  assumes "game_inv L H C w" and "\<And>r w'. game_inv L H C w' \<Longrightarrow> clock w \<le> clock w' \<Longrightarrow> Q r w'"
  shows "wp (updateGameState s u) Q w"
proof (rule wp_mono [OF updateGameState_spec [of s u w]])
  fix r w' assume o: "outcome (unchanged w)
        (\<lambda>v w'. clock w \<le> clock w' \<and>
           (\<exists>cs t. store w (SUBREDDIT_STATE s) = Some (SState cs) \<and>
              v = (spread_GameState cs u)\<lparr>
                    treeLevel := RedisGameService_calculateTreeLevel (totalGrowth (spread_GameState cs u)),
                    updatedAt := t\<rparr> \<and>
              store w' = (store w)(SUBREDDIT_STATE (subredditName cs) \<mapsto> SState v))) r w'"
  have "game_inv L H C w' \<and> clock w \<le> clock w'"
  proof (cases r)
    case (Inl e)
    with o have "unchanged w w'" by (simp add: outcome_def)
    with assms(1) show ?thesis by (auto intro: game_inv_unchanged simp: unchanged_def)
  next
    case (Inr v)
    with o obtain cs t where c: "clock w \<le> clock w'"
      and v: "v = (spread_GameState cs u)\<lparr>
                    treeLevel := RedisGameService_calculateTreeLevel (totalGrowth (spread_GameState cs u)),
                    updatedAt := t\<rparr>"
      and st: "store w' = (store w)(SUBREDDIT_STATE (subredditName cs) \<mapsto> SState v)"
      by (auto simp: outcome_def)
    from v have "treeLevel v = calculateTreeLevel (totalGrowth v)"
      by (simp add: redis_level_eq)
    with game_inv_state_written [OF assms(1) c st] c show ?thesis by simp
  qed
  with assms(2) show "Q r w'" by blast
qed

lemma updateGameStateFromAction_inv:
  assumes "game_inv L H C w" and "\<And>r w'. game_inv L H C w' \<Longrightarrow> clock w \<le> clock w' \<Longrightarrow> Q r w'"
  shows "wp (updateGameStateFromAction a) Q w"
  unfolding updateGameStateFromAction_def Let_def wp_bind
  apply (rule getGameState_inv [OF assms(1)])
  subgoal for r w'
    apply (cases r)
     apply (simp add: assms(2) unchanged_def)
    apply (simp add: wp_bind)
    apply (rule updateGameState_inv, assumption)
    apply (auto simp: unchanged_def split: sum.splits intro!: assms(2))
    done
  done

lemma wp_generateActionId:
  "wp generateActionId Q w =
     (case entropy w of
        [] \<Rightarrow> Q (Inr (''action_'' @ show_nat (clock w) @ ''_'')) w
      | r # rest \<Rightarrow> Q (Inr (''action_'' @ show_nat (clock w) @ ''_'' @ r)) (w\<lparr>entropy := rest\<rparr>))"
  by (simp add: wp_def generateActionId_def split: list.splits)

lemma record_rest_inv:
  "game_inv L H C w \<Longrightarrow>
   wp (bind_io (updateGameStateFromAction x) (\<lambda>_. return x)) (outcome (game_inv L H C) (\<lambda>_. game_inv L H C)) w"
  unfolding wp_bind
  by (rule updateGameStateFromAction_inv) (auto simp: outcome_def split: sum.splits)

lemma record_write_inv:
  assumes g: "game_inv L H C w" and t: "timestamp action = clock w"
    and old: "store w (ACTION_HISTORY s) = Some (SArray xs) \<or> xs = []"
  shows "wp (bind_io (redis_set (ACTION_HISTORY s)
               (SArray (if length (IAction action # xs) > 1000
                        then take 1000 (IAction action # xs) else IAction action # xs)))
            (\<lambda>_. bind_io (updateGameStateFromAction action) (\<lambda>_. return action)))
          (outcome (game_inv L H C) (\<lambda>_. game_inv L H C)) w"
proof (cases "failing w")
  case (Some msg)
  with g show ?thesis
    unfolding wp_bind wp_redis_set by (simp add: outcome_def)
next
  case None
  let ?ys = "IAction action # xs"
  let ?w' = "(tick w)\<lparr>store := (store w)(ACTION_HISTORY s \<mapsto>
               SArray (if length ?ys > 1000 then take 1000 ?ys else ?ys))\<rparr>"
  have "game_inv L H C ?w'"
    by (rule game_inv_history_written [OF g old t refl]) simp_all
  then have "wp (bind_io (updateGameStateFromAction action) (\<lambda>_. return action))
               (outcome (game_inv L H C) (\<lambda>_. game_inv L H C)) ?w'"
    by (rule record_rest_inv)
  with None show ?thesis
    unfolding wp_bind [of "redis_set _ _"] wp_redis_set by simp
qed

lemma recordAction_inv:
  assumes "game_inv L H C w"
  shows "wp (recordAction a) (outcome (game_inv L H C) (\<lambda>_. game_inv L H C)) w"
  unfolding recordAction_def
proof (rule wp_withRetry [OF assms game_inv_later], assumption)
  fix w assume g: "game_inv L H C w"
  define i where "i = ''action_'' @ show_nat (clock w) @ ''_'' @ (case entropy w of [] \<Rightarrow> [] | r # _ \<Rightarrow> r)"
  define w1 where "w1 = w\<lparr>entropy := tl (entropy w)\<rparr>"
  define action where "action = \<lparr>id_a = i, username_a = n_username a,
                      subredditName_a = n_subredditName a,
                      actionType = n_actionType a,
                      resourcesSpent = n_resourcesSpent a,
                      timestamp = clock w,
                      growthContributed = n_growthContributed a\<rparr>"
  have "generateActionId w = (Inr i, w1)"
    by (cases w) (simp add: generateActionId_def i_def w1_def split: list.splits)
  then have gen: "wp generateActionId Q w = Q (Inr i) w1" for Q
    by (rule wp_eq)
  have g1: "game_inv L H C (tick w1)" "clock w1 = clock w" "timestamp action = clock (tick w1)"
    using g by (simp_all add: w1_def action_def)
  have w: "wp (bind_io (redis_set (ACTION_HISTORY (n_subredditName a))
               (SArray (if length (IAction action # xs) > 1000
                        then take 1000 (IAction action # xs) else IAction action # xs)))
            (\<lambda>_. bind_io (updateGameStateFromAction action) (\<lambda>_. return action)))
          (outcome (game_inv L H C) (\<lambda>_. game_inv L H C)) (tick w1)"
    if "store w1 (ACTION_HISTORY (n_subredditName a)) = Some (SArray xs) \<or> xs = []" for xs
    using that by (intro record_write_inv g1) simp
  show "wp (bind_io generateActionId (\<lambda>i. bind_io Date_now (\<lambda>t.
        let action = \<lparr>id_a = i, username_a = n_username a,
                      subredditName_a = n_subredditName a,
                      actionType = n_actionType a,
                      resourcesSpent = n_resourcesSpent a,
                      timestamp = t,
                      growthContributed = n_growthContributed a\<rparr>;
            actionKey = ACTION_HISTORY (n_subredditName a)
        in bind_io (redis_get actionKey) (\<lambda>existingActions.
             case existingActions of
               Some (SState _) \<Rightarrow> throw ''actions.unshift is not a function''
             | Some (SPlayer _) \<Rightarrow> throw ''actions.unshift is not a function''
             | _ \<Rightarrow>
                 let actions = (case existingActions of Some (SArray xs) \<Rightarrow> xs | _ \<Rightarrow> []);
                     actions = IAction action # actions;
                     actions = (if length actions > 1000 then take 1000 actions else actions)
                 in bind_io (redis_set actionKey (SArray actions)) (\<lambda>_.
                    bind_io (updateGameStateFromAction action) (\<lambda>_.
                    return action)))))) (outcome (game_inv L H C) (\<lambda>_. game_inv L H C)) w"
  proof (cases "failing w1")
    case (Some msg)
    with g1 show ?thesis
      by (simp add: wp_bind gen wp_redis_get Let_def outcome_def)
  next
    case None
    show ?thesis
    proof (cases "store w1 (ACTION_HISTORY (n_subredditName a))")
      case n: None
      with None w [of "[]"] show ?thesis
        by (simp add: wp_bind gen wp_redis_get Let_def g1(2) action_def [symmetric])
    next
      case (Some v)
      show ?thesis
      proof (cases v)
        case (SArray xs)
        with Some None w [of xs] show ?thesis
          by (simp add: wp_bind gen wp_redis_get Let_def g1(2) action_def [symmetric])
      qed (use Some None g1 in \<open>simp_all add: wp_bind gen wp_redis_get Let_def outcome_def\<close>)
    qed
  qed
qed

section \<open>RedisGameService in a world whose store answers\<close>

lemma updateGameState_ok:
  assumes "faults w = []" and "store w (SUBREDDIT_STATE s) = Some (SState cs)"
  shows "updateGameState s u w =
    (Inr ((spread_GameState cs u)\<lparr>
            treeLevel := calculateTreeLevel (totalGrowth (spread_GameState cs u)),
            updatedAt := clock w\<rparr>),
     w\<lparr>calls := calls w + 2,
       store := (store w)(SUBREDDIT_STATE (subredditName cs) \<mapsto>
         SState ((spread_GameState cs u)\<lparr>
            treeLevel := calculateTreeLevel (totalGrowth (spread_GameState cs u)),
            updatedAt := clock w\<rparr>))\<rparr>)"
  unfolding updateGameState_def
  by (rule withRetry_success)
     (simp add: bind_io_def getGameState_found assms Date_now_def Let_def saveGameState_ok
        redis_level_eq)

lemma updateGameStateFromAction_ok:
  assumes "faults w = []" and "store w (SUBREDDIT_STATE (subredditName_a a)) = Some (SState cs)"
  shows "updateGameStateFromAction a w =
    (Inr (),
     w\<lparr>calls := calls w + 3,
       store := (store w)(SUBREDDIT_STATE (subredditName cs) \<mapsto>
         SState (folded cs (actionType a) (growthContributed a) (clock w)))\<rparr>)"
proof -
  have "updateGameStateFromAction a w =
    (Inr (),
     w\<lparr>calls := calls w + 1 + 2,
       store := (store w)(SUBREDDIT_STATE (subredditName cs) \<mapsto>
         SState (folded cs (actionType a) (growthContributed a) (clock w)))\<rparr>)"
    using assms
    by (cases cs; cases "actionType a")
       (simp_all add: updateGameStateFromAction_def Let_def bind_io_def getGameState_found
          updateGameState_ok return_def folded_def spread_GameState_def or_else_def no_updates_def)
  then show ?thesis by simp
qed


lemma generateActionId_ok:
  "generateActionId w =
     (Inr (''action_'' @ show_nat (clock w) @ ''_'' @ (case entropy w of [] \<Rightarrow> [] | r # _ \<Rightarrow> r)),
      w\<lparr>entropy := tl (entropy w)\<rparr>)"
  by (cases w) (simp add: generateActionId_def split: list.splits)

lemma recordAction_ok:
  assumes nf: "faults w = []"
    and st: "store w (SUBREDDIT_STATE (n_subredditName n)) = Some (SState cs)"
    and hist: "store w (ACTION_HISTORY (n_subredditName n)) = Some (SArray xs)
               \<or> store w (ACTION_HISTORY (n_subredditName n)) = None \<and> xs = []"
  shows "recordAction n w =
    (Inr (recorded n w),
     w\<lparr>entropy := tl (entropy w), calls := calls w + 5,
       store := (store w)
         (ACTION_HISTORY (n_subredditName n) \<mapsto> SArray (take 1000 (IAction (recorded n w) # xs)),
          SUBREDDIT_STATE (subredditName cs) \<mapsto>
            SState (folded cs (n_actionType n) (n_growthContributed n) (clock w)))\<rparr>)"
proof -
  let ?a = "recorded n w"
  let ?w1 = "w\<lparr>entropy := tl (entropy w), calls := calls w + 2,
       store := (store w)
         (ACTION_HISTORY (n_subredditName n) \<mapsto> SArray (take 1000 (IAction ?a # xs)))\<rparr>"
  have a: "subredditName_a ?a = n_subredditName n" "actionType ?a = n_actionType n"
    "growthContributed ?a = n_growthContributed n"
    by (simp_all add: recorded_def)
  have "updateGameStateFromAction ?a ?w1 =
    (Inr (),
     ?w1\<lparr>calls := calls ?w1 + 3,
       store := (store ?w1)(SUBREDDIT_STATE (subredditName cs) \<mapsto>
         SState (folded cs (actionType ?a) (growthContributed ?a) (clock ?w1)))\<rparr>)"
    by (rule updateGameStateFromAction_ok) (simp_all add: nf st a)
  then have u: "updateGameStateFromAction ?a ?w1 =
    (Inr (),
     w\<lparr>entropy := tl (entropy w), calls := calls w + 5,
       store := (store w)
         (ACTION_HISTORY (n_subredditName n) \<mapsto> SArray (take 1000 (IAction ?a # xs)),
          SUBREDDIT_STATE (subredditName cs) \<mapsto>
            SState (folded cs (n_actionType n) (n_growthContributed n) (clock w)))\<rparr>)"
    by (simp add: a)
  have cap: "(if 1000 < length (IAction ?a # xs) then take 1000 (IAction ?a # xs) else IAction ?a # xs)
      = take 1000 (IAction ?a # xs)"
    by simp
  show ?thesis
    unfolding recordAction_def
    apply (rule withRetry_success)
    using hist u
    apply (auto simp: bind_io_def generateActionId_ok Date_now_def Let_def redis_get_ok
        redis_set_ok nf recorded_def return_def)
    done
qed

lemma saveGameState_inv:
  assumes "game_inv L H C w" and "treeLevel g = calculateTreeLevel (totalGrowth g)"
    and "\<And>r w'. game_inv L H C w' \<Longrightarrow> clock w \<le> clock w' \<Longrightarrow> Q r w'"
  shows "wp (saveGameState g) Q w"
proof (rule wp_mono [OF saveGameState_spec [of g w]])
  fix r w' assume o: "outcome (unchanged w)
        (\<lambda>v w'. clock w \<le> clock w' \<and> (\<exists>t. v = g\<lparr>updatedAt := t\<rparr>) \<and>
           store w' = (store w)(SUBREDDIT_STATE (subredditName g) \<mapsto> SState v)) r w'"
  have "game_inv L H C w' \<and> clock w \<le> clock w'"
  proof (cases r)
    case (Inl e)
    with o assms(1) show ?thesis
      by (auto simp: outcome_def unchanged_def intro: game_inv_unchanged)
  next
    case (Inr v)
    with o obtain t where c: "clock w \<le> clock w'" and v: "v = g\<lparr>updatedAt := t\<rparr>"
      and st: "store w' = (store w)(SUBREDDIT_STATE (subredditName g) \<mapsto> SState v)"
      by (auto simp: outcome_def)
    from v assms(2) have "treeLevel v = calculateTreeLevel (totalGrowth v)" by simp
    with game_inv_state_written [OF assms(1) c st] c show ?thesis by simp
  qed
  with assms(3) show "Q r w'" by blast
qed

lemma initializeGameState_inv:
  assumes "game_inv L H C w"
  shows "wp (initializeGameState s) (\<lambda>r. game_inv L H C) w"
  unfolding initializeGameState_def wp_catch wp_bind
  apply (rule getGameState_inv [OF assms])
  subgoal for r w'
    apply (cases r)
     apply simp
    subgoal for v
      apply (cases v)
       apply (simp add: wp_bind)
       apply (rule saveGameState_inv, assumption)
        apply (simp add: initialState_def level_cases)
       apply (simp split: sum.splits)
      apply simp
      done
    done
  done

lemma spread_ignores_level:
  "(spread_GameState cs (u\<lparr>u_treeLevel := x\<rparr>))\<lparr>treeLevel := y\<rparr> = (spread_GameState cs u)\<lparr>treeLevel := y\<rparr>"
  "(spread_GameState cs (u\<lparr>u_treeLevel := x\<rparr>))\<lparr>updatedAt := t, treeLevel := y\<rparr> =
   (spread_GameState cs u)\<lparr>updatedAt := t, treeLevel := y\<rparr>"
  by (simp_all add: spread_GameState_def)

lemma updateGameState_ignores_level:
  "updateGameState s (u\<lparr>u_treeLevel := x\<rparr>) = updateGameState s u"
  by (simp add: updateGameState_def Let_def spread_ignores_level cong: option.case_cong)

lemma updateGameState_success:
  assumes "fst (updateGameState s u w) = Inr g"
  shows "store (snd (updateGameState s u w)) (SUBREDDIT_STATE (subredditName g)) = Some (SState g)
     \<and> treeLevel g = calculateTreeLevel (totalGrowth g)
     \<and> (\<exists>cs. store w (SUBREDDIT_STATE s) = Some (SState cs)
            \<and> subredditName g = subredditName cs \<and> createdAt g = createdAt cs
            \<and> totalGrowth g = or_else (u_totalGrowth u) (totalGrowth cs))"
  using updateGameState_spec [of s u w] assms
  by (auto simp: wp_def outcome_def redis_level_eq)

lemma levels_ok_kept:
  assumes "levels_ok w"
  shows "levels_ok (snd (updateGameState s u w))" "levels_ok (snd (recordAction a w))"
    "levels_ok (snd (initializeGameState s w))"
proof -
  from assms have g: "game_inv True False False w" by (simp add: game_inv_def)
  from updateGameState_inv [OF g, of "\<lambda>r. game_inv True False False"]
  show "levels_ok (snd (updateGameState s u w))" by (simp add: wp_def game_inv_def)
  from recordAction_inv [OF g, of a]
  show "levels_ok (snd (recordAction a w))"
    by (cases "fst (recordAction a w)") (simp_all add: wp_def game_inv_def outcome_def)
  from initializeGameState_inv [OF g, of s]
  show "levels_ok (snd (initializeGameState s w))" by (simp add: wp_def game_inv_def)
qed

lemma history_ok_kept:
  assumes "history_ok w"
  shows "history_ok (snd (updateGameState s u w))" "history_ok (snd (recordAction a w))"
    "history_ok (snd (initializeGameState s w))"
proof -
  from assms have g: "game_inv False True False w" by (simp add: game_inv_def)
  from updateGameState_inv [OF g, of "\<lambda>r. game_inv False True False"]
  show "history_ok (snd (updateGameState s u w))" by (simp add: wp_def game_inv_def)
  from recordAction_inv [OF g, of a]
  show "history_ok (snd (recordAction a w))"
    by (cases "fst (recordAction a w)") (simp_all add: wp_def game_inv_def outcome_def)
  from initializeGameState_inv [OF g, of s]
  show "history_ok (snd (initializeGameState s w))" by (simp add: wp_def game_inv_def)
qed


lemma levels_ok_seeded: "levels_ok seeded_world"
  by (simp add: levels_ok_def seeded_world_def empty_world_def initialState_def level_cases)

text \<open>
  Claim C3.  When \<open>updateGameState\<close> returns a state, that state is the one persisted under
  its subreddit's key, its growth is the merged growth, and its level is the level of that
  growth.  A \<open>treeLevel\<close> in the partial update has no effect on the call at all.  And if
  every persisted game state carries the level of its growth, the same is true after
  \<open>updateGameState\<close>, after \<open>recordAction\<close> and after \<open>initializeGameState\<close>, whether the call
  returns or fails and whatever the store does in between.
\<close>

theorem C3_tree_level_rederived:
  "(fst (updateGameState s u w) = Inr g \<longrightarrow>
       store (snd (updateGameState s u w)) (SUBREDDIT_STATE (subredditName g)) = Some (SState g)
     \<and> treeLevel g = calculateTreeLevel (totalGrowth g)
     \<and> (\<exists>cs. store w (SUBREDDIT_STATE s) = Some (SState cs)
            \<and> subredditName g = subredditName cs \<and> createdAt g = createdAt cs
            \<and> totalGrowth g = or_else (u_totalGrowth u) (totalGrowth cs)))
   \<and> updateGameState s (u\<lparr>u_treeLevel := x\<rparr>) w = updateGameState s u w
   \<and> (levels_ok w \<longrightarrow>
        levels_ok (snd (updateGameState s u w)) \<and> levels_ok (snd (recordAction a w))
        \<and> levels_ok (snd (initializeGameState s w)))"
  using updateGameState_success [of s u w g] levels_ok_kept [of w]
  by (simp add: updateGameState_ignores_level)

theorem C3_tree_level_rederived_witness:
  "fst (updateGameState ''testsub'' (no_updates\<lparr>u_treeLevel := Some 1, u_totalGrowth := Some 50\<rparr>)
        seeded_world)
     = Inr ((initialState ''testsub'' 0)\<lparr>treeLevel := 2, totalGrowth := 50\<rparr>)
   \<and> store (snd (updateGameState ''testsub''
          (no_updates\<lparr>u_treeLevel := Some 1, u_totalGrowth := Some 50\<rparr>) seeded_world))
        (SUBREDDIT_STATE ''testsub'')
     = Some (SState ((initialState ''testsub'' 0)\<lparr>treeLevel := 2, totalGrowth := 50\<rparr>))
   \<and> calculateTreeLevel 50 = 2
   \<and> levels_ok seeded_world
   \<and> levels_ok (snd (updateGameState ''testsub''
          (no_updates\<lparr>u_treeLevel := Some 1, u_totalGrowth := Some 50\<rparr>) seeded_world))"
proof -
  let ?u = "no_updates\<lparr>u_treeLevel := Some 1, u_totalGrowth := Some 50\<rparr>"
  let ?g = "(initialState ''testsub'' 0)\<lparr>treeLevel := 2, totalGrowth := 50\<rparr>"
  have r: "fst (updateGameState ''testsub'' ?u seeded_world) = Inr ?g"
    by (simp add: updateGameState_ok [where cs = "initialState ''testsub'' 0"] seeded_world_simps
        spread_GameState_def or_else_def no_updates_def level_cases initialState_def)
  have n: "subredditName ?g = ''testsub''" "totalGrowth ?g = 50"
    by (simp_all add: initialState_def)
  from C3_tree_level_rederived [of "''testsub''" ?u seeded_world ?g] r levels_ok_seeded n
  show ?thesis by (simp add: level_cases)
qed

lemma repeat_charge:
  assumes "faults w = []"
    and "store w (SUBREDDIT_STATE (n_subredditName n)) = Some (SState cs)"
    and "subredditName cs = n_subredditName n"
    and "n_actionType n = charge"
    and "treeLevel cs = calculateTreeLevel (totalGrowth cs)"
    and "(\<exists>xs. store w (ACTION_HISTORY (n_subredditName n)) = Some (SArray xs))
         \<or> store w (ACTION_HISTORY (n_subredditName n)) = None"
  shows "\<exists>w' g. repeat_io k (recordAction n) w = (Inr (), w')
           \<and> faults w' = []
           \<and> store w' (SUBREDDIT_STATE (n_subredditName n)) = Some (SState g)
           \<and> subredditName g = n_subredditName n
           \<and> robotCharged g = robotCharged cs + int k
           \<and> totalGrowth g = totalGrowth cs + of_nat k * n_growthContributed n
           \<and> seedsPlanted g = seedsPlanted cs \<and> spiritsFed g = spiritsFed cs
           \<and> createdAt g = createdAt cs
           \<and> treeLevel g = calculateTreeLevel (totalGrowth g)"
  using assms
proof (induction k arbitrary: w cs)
  case 0
  then show ?case by (simp add: return_def)
next
  case (Suc k)
  from Suc.prems(6) obtain xs where
    h: "store w (ACTION_HISTORY (n_subredditName n)) = Some (SArray xs)
        \<or> store w (ACTION_HISTORY (n_subredditName n)) = None \<and> xs = []"
    by auto
  let ?g1 = "folded cs (n_actionType n) (n_growthContributed n) (clock w)"
  let ?w1 = "w\<lparr>entropy := tl (entropy w), calls := calls w + 5,
       store := (store w)
         (ACTION_HISTORY (n_subredditName n) \<mapsto> SArray (take 1000 (IAction (recorded n w) # xs)),
          SUBREDDIT_STATE (subredditName cs) \<mapsto> SState ?g1)\<rparr>"
  have step: "recordAction n w = (Inr (recorded n w), ?w1)"
    by (rule recordAction_ok [OF Suc.prems(1) Suc.prems(2) h])
  have g1: "subredditName ?g1 = n_subredditName n"
    "robotCharged ?g1 = robotCharged cs + 1"
    "totalGrowth ?g1 = totalGrowth cs + n_growthContributed n"
    "seedsPlanted ?g1 = seedsPlanted cs" "spiritsFed ?g1 = spiritsFed cs"
    "createdAt ?g1 = createdAt cs"
    "treeLevel ?g1 = calculateTreeLevel (totalGrowth ?g1)"
    using Suc.prems(3,4) by (simp_all add: folded_def)
  have "\<exists>w' g. repeat_io k (recordAction n) ?w1 = (Inr (), w')
           \<and> faults w' = []
           \<and> store w' (SUBREDDIT_STATE (n_subredditName n)) = Some (SState g)
           \<and> subredditName g = n_subredditName n
           \<and> robotCharged g = robotCharged ?g1 + int k
           \<and> totalGrowth g = totalGrowth ?g1 + of_nat k * n_growthContributed n
           \<and> seedsPlanted g = seedsPlanted ?g1 \<and> spiritsFed g = spiritsFed ?g1
           \<and> createdAt g = createdAt ?g1
           \<and> treeLevel g = calculateTreeLevel (totalGrowth g)"
    using Suc.prems(1,3,4) g1(1,7)
    by (intro Suc.IH) simp_all
  then obtain w' g where r: "repeat_io k (recordAction n) ?w1 = (Inr (), w')"
    "faults w' = []"
    "store w' (SUBREDDIT_STATE (n_subredditName n)) = Some (SState g)"
    "subredditName g = n_subredditName n"
    "robotCharged g = robotCharged ?g1 + int k"
    "totalGrowth g = totalGrowth ?g1 + of_nat k * n_growthContributed n"
    "seedsPlanted g = seedsPlanted ?g1" "spiritsFed g = spiritsFed ?g1"
    "createdAt g = createdAt ?g1"
    "treeLevel g = calculateTreeLevel (totalGrowth g)"
    by blast
  have "repeat_io (Suc k) (recordAction n) w = (Inr (), w')"
    using step r(1) by (simp add: bind_io_def)
  moreover have "robotCharged g = robotCharged cs + int (Suc k)"
    "totalGrowth g = totalGrowth cs + of_nat (Suc k) * n_growthContributed n"
    using r(5,6) g1(2,3) by (simp_all add: algebra_simps)
  ultimately show ?case
    using r(2,3,4,7,8,9,10) g1(4,5,6) by simp
qed


lemma charge_scenario:
  "\<exists>w' g. bind_io (initializeGameState ''testsub'') (\<lambda>_. repeat_io k (recordAction charge_action))
             empty_world = (Inr (), w')
         \<and> store w' (SUBREDDIT_STATE ''testsub'') = Some (SState g)
         \<and> robotCharged g = int k \<and> totalGrowth g = of_nat k * 3
         \<and> treeLevel g = calculateTreeLevel (of_nat k * 3)
         \<and> seedsPlanted g = 0 \<and> spiritsFed g = 0"
proof -
  let ?cs = "initialState ''testsub'' 0"
  let ?w0 = "empty_world\<lparr>calls := calls empty_world + 2,
       store := (store empty_world)(SUBREDDIT_STATE ''testsub'' \<mapsto> SState ?cs)\<rparr>"
  have init: "initializeGameState ''testsub'' empty_world = (Inr ?cs, ?w0)"
    using initializeGameState_fresh [of empty_world "''testsub''"]
    by (simp add: example_world_simps)
  have n: "n_subredditName charge_action = ''testsub''" "n_actionType charge_action = charge"
    "n_growthContributed charge_action = 3"
    by (simp_all add: charge_action_def)
  have "\<exists>w' g. repeat_io k (recordAction charge_action) ?w0 = (Inr (), w')
           \<and> faults w' = []
           \<and> store w' (SUBREDDIT_STATE (n_subredditName charge_action)) = Some (SState g)
           \<and> subredditName g = n_subredditName charge_action
           \<and> robotCharged g = robotCharged ?cs + int k
           \<and> totalGrowth g = totalGrowth ?cs + of_nat k * n_growthContributed charge_action
           \<and> seedsPlanted g = seedsPlanted ?cs \<and> spiritsFed g = spiritsFed ?cs
           \<and> createdAt g = createdAt ?cs
           \<and> treeLevel g = calculateTreeLevel (totalGrowth g)"
    by (rule repeat_charge)
       (simp_all add: n example_world_simps initialState_def level_cases)
  then obtain w' g where "repeat_io k (recordAction charge_action) ?w0 = (Inr (), w')"
    "store w' (SUBREDDIT_STATE ''testsub'') = Some (SState g)"
    "robotCharged g = int k" "totalGrowth g = of_nat k * 3"
    "seedsPlanted g = 0" "spiritsFed g = 0"
    "treeLevel g = calculateTreeLevel (totalGrowth g)"
    by (auto simp: n initialState_def)
  with init show ?thesis
    by (simp add: bind_io_def)
qed

text \<open>
  Claim C4.  In a world whose store answers, with a game state stored for the subreddit,
  \<open>recordAction\<close> of a charge leaves a state whose \<open>robotCharged\<close> is one more, whose
  \<open>totalGrowth\<close> is larger by the growth the action contributes, whose other counters are as
  before, and whose level is the level of the new growth.  Starting from an empty store,
  \<open>initializeGameState\<close> followed by 17 charges of growth 3 leaves \<open>totalGrowth = 51\<close>,
  \<open>robotCharged = 17\<close> and \<open>treeLevel = 2\<close>; after 16 charges the growth is 48 and the level
  still 1.
\<close>

theorem C4_seventeen_charges:
  "(faults w = [] \<and> store w (SUBREDDIT_STATE (n_subredditName n)) = Some (SState cs)
      \<and> subredditName cs = n_subredditName n \<and> n_actionType n = charge
      \<and> ((\<exists>xs. store w (ACTION_HISTORY (n_subredditName n)) = Some (SArray xs))
           \<or> store w (ACTION_HISTORY (n_subredditName n)) = None) \<longrightarrow>
      (\<exists>g. fst (recordAction n w) = Inr (recorded n w)
         \<and> store (snd (recordAction n w)) (SUBREDDIT_STATE (n_subredditName n)) = Some (SState g)
         \<and> robotCharged g = robotCharged cs + 1
         \<and> totalGrowth g = totalGrowth cs + n_growthContributed n
         \<and> seedsPlanted g = seedsPlanted cs \<and> spiritsFed g = spiritsFed cs
         \<and> dailyUpvotes g = dailyUpvotes cs \<and> createdAt g = createdAt cs
         \<and> treeLevel g = calculateTreeLevel (totalGrowth g)))
   \<and> (\<exists>w' g. bind_io (initializeGameState ''testsub'')
                 (\<lambda>_. repeat_io 17 (recordAction charge_action)) empty_world = (Inr (), w')
         \<and> store w' (SUBREDDIT_STATE ''testsub'') = Some (SState g)
         \<and> robotCharged g = 17 \<and> totalGrowth g = 51 \<and> treeLevel g = 2
         \<and> seedsPlanted g = 0 \<and> spiritsFed g = 0)
   \<and> (\<exists>w' g. bind_io (initializeGameState ''testsub'')
                 (\<lambda>_. repeat_io 16 (recordAction charge_action)) empty_world = (Inr (), w')
         \<and> store w' (SUBREDDIT_STATE ''testsub'') = Some (SState g)
         \<and> robotCharged g = 16 \<and> totalGrowth g = 48 \<and> treeLevel g = 1)"
proof (intro conjI impI)
  assume a: "faults w = [] \<and> store w (SUBREDDIT_STATE (n_subredditName n)) = Some (SState cs)
      \<and> subredditName cs = n_subredditName n \<and> n_actionType n = charge
      \<and> ((\<exists>xs. store w (ACTION_HISTORY (n_subredditName n)) = Some (SArray xs))
           \<or> store w (ACTION_HISTORY (n_subredditName n)) = None)"
  then obtain xs where
    h: "store w (ACTION_HISTORY (n_subredditName n)) = Some (SArray xs)
        \<or> store w (ACTION_HISTORY (n_subredditName n)) = None \<and> xs = []"
    by auto
  from a have nf: "faults w = []"
    and st: "store w (SUBREDDIT_STATE (n_subredditName n)) = Some (SState cs)"
    by simp_all
  let ?g = "folded cs (n_actionType n) (n_growthContributed n) (clock w)"
  from recordAction_ok [OF nf st h] a
  have "fst (recordAction n w) = Inr (recorded n w)"
    "store (snd (recordAction n w)) (SUBREDDIT_STATE (n_subredditName n)) = Some (SState ?g)"
    by simp_all
  moreover from a have "robotCharged ?g = robotCharged cs + 1"
    "totalGrowth ?g = totalGrowth cs + n_growthContributed n"
    "seedsPlanted ?g = seedsPlanted cs" "spiritsFed ?g = spiritsFed cs"
    "dailyUpvotes ?g = dailyUpvotes cs" "createdAt ?g = createdAt cs"
    "treeLevel ?g = calculateTreeLevel (totalGrowth ?g)"
    by (simp_all add: folded_def)
  ultimately show "\<exists>g. fst (recordAction n w) = Inr (recorded n w)
         \<and> store (snd (recordAction n w)) (SUBREDDIT_STATE (n_subredditName n)) = Some (SState g)
         \<and> robotCharged g = robotCharged cs + 1
         \<and> totalGrowth g = totalGrowth cs + n_growthContributed n
         \<and> seedsPlanted g = seedsPlanted cs \<and> spiritsFed g = spiritsFed cs
         \<and> dailyUpvotes g = dailyUpvotes cs \<and> createdAt g = createdAt cs
         \<and> treeLevel g = calculateTreeLevel (totalGrowth g)"
    by blast
next
  from charge_scenario [of 17]
  show "\<exists>w' g. bind_io (initializeGameState ''testsub'')
                 (\<lambda>_. repeat_io 17 (recordAction charge_action)) empty_world = (Inr (), w')
         \<and> store w' (SUBREDDIT_STATE ''testsub'') = Some (SState g)
         \<and> robotCharged g = 17 \<and> totalGrowth g = 51 \<and> treeLevel g = 2
         \<and> seedsPlanted g = 0 \<and> spiritsFed g = 0"
    by (simp add: level_cases)
next
  from charge_scenario [of 16]
  show "\<exists>w' g. bind_io (initializeGameState ''testsub'')
                 (\<lambda>_. repeat_io 16 (recordAction charge_action)) empty_world = (Inr (), w')
         \<and> store w' (SUBREDDIT_STATE ''testsub'') = Some (SState g)
         \<and> robotCharged g = 16 \<and> totalGrowth g = 48 \<and> treeLevel g = 1"
    by (simp add: level_cases) blast
qed

theorem C4_seventeen_charges_witness:
  "faults seeded_world = []
   \<and> store seeded_world (SUBREDDIT_STATE (n_subredditName charge_action))
       = Some (SState (initialState ''testsub'' 0))
   \<and> subredditName (initialState ''testsub'' 0) = n_subredditName charge_action
   \<and> n_actionType charge_action = charge
   \<and> store seeded_world (ACTION_HISTORY (n_subredditName charge_action)) = None
   \<and> (\<exists>g. store (snd (recordAction charge_action seeded_world)) (SUBREDDIT_STATE ''testsub'')
              = Some (SState g)
         \<and> robotCharged g = 1 \<and> totalGrowth g = 3 \<and> treeLevel g = 1 \<and> seedsPlanted g = 0)"
proof -
  have h: "faults seeded_world = []
   \<and> store seeded_world (SUBREDDIT_STATE (n_subredditName charge_action))
       = Some (SState (initialState ''testsub'' 0))
   \<and> subredditName (initialState ''testsub'' 0) = n_subredditName charge_action
   \<and> n_actionType charge_action = charge
   \<and> store seeded_world (ACTION_HISTORY (n_subredditName charge_action)) = None"
    by (simp add: seeded_world_simps charge_action_def initialState_def)
       (simp add: seeded_world_def empty_world_def)
  with C4_seventeen_charges [of seeded_world charge_action "initialState ''testsub'' 0",
      THEN conjunct1]
  have "\<exists>g. fst (recordAction charge_action seeded_world) =
          Inr (recorded charge_action seeded_world) \<and>
          store (snd (recordAction charge_action seeded_world))
           (SUBREDDIT_STATE (n_subredditName charge_action)) = Some (SState g) \<and>
          robotCharged g = robotCharged (initialState ''testsub'' 0) + 1 \<and>
          totalGrowth g = totalGrowth (initialState ''testsub'' 0) +
             n_growthContributed charge_action \<and>
          seedsPlanted g = seedsPlanted (initialState ''testsub'' 0) \<and>
          spiritsFed g = spiritsFed (initialState ''testsub'' 0) \<and>
          dailyUpvotes g = dailyUpvotes (initialState ''testsub'' 0) \<and>
          createdAt g = createdAt (initialState ''testsub'' 0) \<and>
          treeLevel g = calculateTreeLevel (totalGrowth g)"
    by simp
  then obtain g where "store (snd (recordAction charge_action seeded_world))
        (SUBREDDIT_STATE (n_subredditName charge_action)) = Some (SState g)"
    "robotCharged g = robotCharged (initialState ''testsub'' 0) + 1"
    "totalGrowth g = totalGrowth (initialState ''testsub'' 0) + n_growthContributed charge_action"
    "seedsPlanted g = seedsPlanted (initialState ''testsub'' 0)"
    "treeLevel g = calculateTreeLevel (totalGrowth g)"
    by blast
  then have "store (snd (recordAction charge_action seeded_world)) (SUBREDDIT_STATE ''testsub'')
              = Some (SState g)
         \<and> robotCharged g = 1 \<and> totalGrowth g = 3 \<and> treeLevel g = 1 \<and> seedsPlanted g = 0"
    by (simp add: charge_action_def initialState_def level_cases)
  with h show ?thesis by blast
qed

lemma actions_of_replicate: "actions_of (replicate k (IAction a)) = replicate k a"
  by (induction k) simp_all

lemma sorted_wrt_replicate: "R a a \<Longrightarrow> sorted_wrt R (replicate k a)"
  by (induction k) simp_all

lemma full_world_simps:
  "faults full_world = []" "clock full_world = 0" "calls full_world = 0"
  "store full_world (SUBREDDIT_STATE ''testsub'') = Some (SState (initialState ''testsub'' 0))"
  "store full_world (ACTION_HISTORY s) =
     (if s = ''testsub'' then Some (SArray (replicate 1000 (IAction old_action))) else None)"
  by (simp_all add: full_world_def seeded_world_def empty_world_def)

lemma history_ok_full_world: "history_ok full_world"
  by (auto simp: history_ok_def full_world_simps newest_first_def actions_of_replicate
      sorted_wrt_replicate old_action_def split: if_splits)

lemma take_full: "length xs = 1000 \<Longrightarrow> take 1000 (x # xs) = x # butlast xs"
  by (simp add: butlast_conv_take)

text \<open>
  Claim C7.  If every persisted history has at most 1000 entries, with no action older than
  one that follows it, this is still so after \<open>recordAction\<close>, \<open>updateGameState\<close> and
  \<open>initializeGameState\<close>, whether they return or fail and whatever the store does in between.
  In a world whose store answers, with a game state stored for the subreddit, \<open>recordAction\<close>
  puts the new record at the head of the stored list and keeps the first 1000 entries: on a
  list of 1000 entries the result is the new record followed by all but the last of them,
  again 1000 entries.
\<close>

theorem C7_history_bounded:
  "(history_ok w \<longrightarrow>
      history_ok (snd (recordAction n w)) \<and> history_ok (snd (updateGameState s u w))
      \<and> history_ok (snd (initializeGameState s w))
      \<and> (\<forall>s' ys. store (snd (recordAction n w)) (ACTION_HISTORY s') = Some (SArray ys) \<longrightarrow>
            length ys \<le> 1000
            \<and> sorted_wrt (\<lambda>a b. timestamp b \<le> timestamp a) (actions_of ys)))
   \<and> (faults w = [] \<and> store w (SUBREDDIT_STATE (n_subredditName n)) = Some (SState cs)
      \<and> store w (ACTION_HISTORY (n_subredditName n)) = Some (SArray xs) \<longrightarrow>
        fst (recordAction n w) = Inr (recorded n w)
      \<and> store (snd (recordAction n w)) (ACTION_HISTORY (n_subredditName n))
          = Some (SArray (take 1000 (IAction (recorded n w) # xs)))
      \<and> (length xs = 1000 \<longrightarrow>
            take 1000 (IAction (recorded n w) # xs) = IAction (recorded n w) # butlast xs
          \<and> length (IAction (recorded n w) # butlast xs) = 1000))
   \<and> (faults w = [] \<and> store w (SUBREDDIT_STATE (n_subredditName n)) = Some (SState cs)
      \<and> store w (ACTION_HISTORY (n_subredditName n)) = None \<longrightarrow>
        store (snd (recordAction n w)) (ACTION_HISTORY (n_subredditName n))
          = Some (SArray [IAction (recorded n w)]))"
proof (intro conjI impI)
  assume h: "history_ok w"
  show "history_ok (snd (recordAction n w))" "history_ok (snd (updateGameState s u w))"
    "history_ok (snd (initializeGameState s w))"
    using history_ok_kept [OF h] by simp_all
  from history_ok_kept(2) [OF h, of n]
  show "\<forall>s' ys. store (snd (recordAction n w)) (ACTION_HISTORY s') = Some (SArray ys) \<longrightarrow>
            length ys \<le> 1000
            \<and> sorted_wrt (\<lambda>a b. timestamp b \<le> timestamp a) (actions_of ys)"
    by (simp add: history_ok_def newest_first_def)
next
  assume a: "faults w = [] \<and> store w (SUBREDDIT_STATE (n_subredditName n)) = Some (SState cs)
      \<and> store w (ACTION_HISTORY (n_subredditName n)) = Some (SArray xs)"
  then have r: "recordAction n w =
    (Inr (recorded n w),
     w\<lparr>entropy := tl (entropy w), calls := calls w + 5,
       store := (store w)
         (ACTION_HISTORY (n_subredditName n) \<mapsto> SArray (take 1000 (IAction (recorded n w) # xs)),
          SUBREDDIT_STATE (subredditName cs) \<mapsto>
            SState (folded cs (n_actionType n) (n_growthContributed n) (clock w)))\<rparr>)"
    by (intro recordAction_ok) simp_all
  show "fst (recordAction n w) = Inr (recorded n w)"
    unfolding r by simp
  show "store (snd (recordAction n w)) (ACTION_HISTORY (n_subredditName n))
          = Some (SArray (take 1000 (IAction (recorded n w) # xs)))"
    unfolding r by (simp del: take_Cons_numeral)
  assume "length xs = 1000"
  then show "take 1000 (IAction (recorded n w) # xs) = IAction (recorded n w) # butlast xs"
    and "length (IAction (recorded n w) # butlast xs) = 1000"
    by (simp_all add: take_full del: take_Cons_numeral)
next
  assume a: "faults w = [] \<and> store w (SUBREDDIT_STATE (n_subredditName n)) = Some (SState cs)
      \<and> store w (ACTION_HISTORY (n_subredditName n)) = None"
  then have r: "recordAction n w =
    (Inr (recorded n w),
     w\<lparr>entropy := tl (entropy w), calls := calls w + 5,
       store := (store w)
         (ACTION_HISTORY (n_subredditName n) \<mapsto> SArray (take 1000 (IAction (recorded n w) # [])),
          SUBREDDIT_STATE (subredditName cs) \<mapsto>
            SState (folded cs (n_actionType n) (n_growthContributed n) (clock w)))\<rparr>)"
    by (intro recordAction_ok) simp_all
  show "store (snd (recordAction n w)) (ACTION_HISTORY (n_subredditName n))
          = Some (SArray [IAction (recorded n w)])"
    unfolding r by simp
qed

theorem C7_history_bounded_witness:
  "history_ok full_world \<and> faults full_world = []
   \<and> store full_world (SUBREDDIT_STATE (n_subredditName charge_action))
       = Some (SState (initialState ''testsub'' 0))
   \<and> store full_world (ACTION_HISTORY (n_subredditName charge_action))
       = Some (SArray (replicate 1000 (IAction old_action)))
   \<and> length (replicate 1000 (IAction old_action)) = 1000
   \<and> history_ok (snd (recordAction charge_action full_world))
   \<and> store (snd (recordAction charge_action full_world)) (ACTION_HISTORY ''testsub'')
       = Some (SArray (IAction (recorded charge_action full_world)
                        # replicate 999 (IAction old_action)))
   \<and> length (IAction (recorded charge_action full_world) # replicate 999 (IAction old_action))
       = 1000"
proof -
  have n: "n_subredditName charge_action = ''testsub''"
    by (simp add: charge_action_def)
  have h: "faults full_world = []
      \<and> store full_world (SUBREDDIT_STATE (n_subredditName charge_action))
          = Some (SState (initialState ''testsub'' 0))
      \<and> store full_world (ACTION_HISTORY (n_subredditName charge_action))
          = Some (SArray (replicate 1000 (IAction old_action)))"
    by (simp add: full_world_simps n)
  note inst = C7_history_bounded [of full_world charge_action _ _ "initialState ''testsub'' 0"
      "replicate 1000 (IAction old_action)"]
  from inst [THEN conjunct1] history_ok_full_world
  have 1: "history_ok (snd (recordAction charge_action full_world))"
    by blast
  from inst [THEN conjunct2, THEN conjunct1] h
  have 2: "store (snd (recordAction charge_action full_world))
        (ACTION_HISTORY (n_subredditName charge_action))
       = Some (SArray (take 1000 (IAction (recorded charge_action full_world)
             # replicate 1000 (IAction old_action))))"
    by blast
  have 3: "butlast (replicate 1000 (IAction old_action)) = replicate 999 (IAction old_action)"
    by (simp add: butlast_conv_take)
  from 2 have "store (snd (recordAction charge_action full_world)) (ACTION_HISTORY ''testsub'')
       = Some (SArray (IAction (recorded charge_action full_world)
                        # replicate 999 (IAction old_action)))"
    by (simp add: n take_full 3 del: take_Cons_numeral)
  with 1 h history_ok_full_world show ?thesis by simp
qed

section \<open>PlayerResourceService keeps the invariants\<close>

lemma index_key_not_history [simp]:
  "PLAYER_INDEX s \<noteq> ACTION_HISTORY s'" "ACTION_HISTORY s' \<noteq> PLAYER_INDEX s"
proof -
  have "last (butlast (PLAYER_INDEX s)) = CHR ''r''" "last (butlast (ACTION_HISTORY s')) = CHR ''n''"
    by (simp_all add: PLAYER_INDEX_def ACTION_HISTORY_def butlast_append)
  then show "PLAYER_INDEX s \<noteq> ACTION_HISTORY s'" "ACTION_HISTORY s' \<noteq> PLAYER_INDEX s"
    by auto
qed

lemma game_inv_player_written:
  assumes "game_inv L H C w" and "clock w \<le> clock w'"
    and st: "store w' = (store w)(k \<mapsto> SPlayer p)"
    and "C \<longrightarrow> 0 \<le> cinnamon p"
  shows "game_inv L H C w'"
proof -
  have "levels_ok w'" if "levels_ok w"
    using that st by (auto simp: levels_ok_def)
  moreover have "history_ok w'" if h: "history_ok w"
    unfolding history_ok_def
  proof (intro allI impI)
    fix s xs assume "store w' (ACTION_HISTORY s) = Some (SArray xs)"
    with st have "store w (ACTION_HISTORY s) = Some (SArray xs)"
      by (simp split: if_splits)
    with h history_okD [of w s xs] have "length xs \<le> 1000 \<and> newest_first (clock w) xs"
      by simp
    with assms(2) show "length xs \<le> 1000 \<and> newest_first (clock w') xs"
      by (auto intro: newest_first_later)
  qed
  moreover have "cinnamon_ok w'" if "cinnamon_ok w" "C"
    using that st assms(4) by (auto simp: cinnamon_ok_def)
  ultimately show ?thesis using assms(1) by (auto simp: game_inv_def)
qed

lemma game_inv_index_written:
  assumes "game_inv L H C w" and "clock w \<le> clock w'"
    and st: "store w' = (store w)(PLAYER_INDEX s \<mapsto> SArray ys)"
  shows "game_inv L H C w'"
proof -
  have "levels_ok w'" if "levels_ok w"
    using that st by (auto simp: levels_ok_def)
  moreover have "history_ok w'" if h: "history_ok w"
    unfolding history_ok_def
  proof (intro allI impI)
    fix s' xs assume "store w' (ACTION_HISTORY s') = Some (SArray xs)"
    with st have "store w (ACTION_HISTORY s') = Some (SArray xs)"
      by simp
    with h history_okD [of w s' xs] have "length xs \<le> 1000 \<and> newest_first (clock w) xs"
      by simp
    with assms(2) show "length xs \<le> 1000 \<and> newest_first (clock w') xs"
      by (auto intro: newest_first_later)
  qed
  moreover have "cinnamon_ok w'" if "cinnamon_ok w"
    using that st by (auto simp: cinnamon_ok_def)
  ultimately show ?thesis using assms(1) by (auto simp: game_inv_def)
qed

lemma wp_withRetry_inv:
  assumes "I w" and "\<And>w d. I w \<Longrightarrow> I (w\<lparr>clock := clock w + d\<rparr>)"
    and "\<And>w. I w \<Longrightarrow> wp operation (\<lambda>r. I) w"
    and "\<And>r w'. I w' \<Longrightarrow> Q r w'"
  shows "wp (withRetry operation) Q w"
proof (rule wp_mono [OF wp_withRetry [of I w operation "\<lambda>_. I"]])
  show "I w" by fact
  show "I (w\<lparr>clock := clock w + d\<rparr>)" if "I w" for w d using that by (rule assms(2))
  show "wp operation (outcome I (\<lambda>_. I)) w" if "I w" for w
    by (rule wp_mono [OF assms(3) [OF that]]) (simp add: outcome_def split: sum.splits)
  show "Q r w'" if "outcome I (\<lambda>_. I) r w'" for r w'
    using that by (intro assms(4)) (simp add: outcome_def split: sum.splits)
qed

lemma getPlayerResources_spec:
  "wp (getPlayerResources u s)
     (outcome (unchanged w)
        (\<lambda>v w'. unchanged w w' \<and>
           (case store w (PLAYER_RESOURCES u s) of
              None \<Rightarrow> v = None
            | Some (SPlayer p) \<Rightarrow> v = Some p
            | Some _ \<Rightarrow> False))) w"
  unfolding getPlayerResources_def
  by (rule wp_withRetry)
     (auto simp: unchanged_later wp_bind wp_redis_get outcome_def unchanged_def
           split: option.splits Stored.splits)

lemma getPlayerResources_inv:
  assumes "game_inv L H C w" and "\<And>r w'. game_inv L H C w' \<Longrightarrow> unchanged w w' \<Longrightarrow> Q r w'"
  shows "wp (getPlayerResources u s) Q w"
proof (rule wp_mono [OF getPlayerResources_spec [of u s w]])
  fix r w' assume "outcome (unchanged w)
        (\<lambda>v w'. unchanged w w' \<and>
           (case store w (PLAYER_RESOURCES u s) of
              None \<Rightarrow> v = None
            | Some (SPlayer p) \<Rightarrow> v = Some p
            | Some _ \<Rightarrow> False)) r w'"
  then have "unchanged w w'" by (cases r) (simp_all add: outcome_def)
  with assms show "Q r w'" by (blast intro: game_inv_unchanged)
qed

lemma updatePlayerIndex_inv:
  assumes "game_inv L H C w" and "\<And>r w'. game_inv L H C w' \<Longrightarrow> clock w = clock w' \<Longrightarrow> Q r w'"
  shows "wp (updatePlayerIndex u s) Q w"
proof -
  have t: "game_inv L H C (tick w)" "game_inv L H C (tick (tick w))"
    using assms(1) by simp_all
  have wr: "game_inv L H C ((tick (tick w))\<lparr>store := (store w)(PLAYER_INDEX s \<mapsto> SArray ys)\<rparr>)" for ys
    by (rule game_inv_index_written [OF assms(1)]) simp_all
  show ?thesis
    unfolding updatePlayerIndex_def Let_def wp_bind wp_redis_get
    using t wr
    by (auto simp: wp_redis_set intro!: assms(2) split: option.splits Stored.splits)
qed

lemma savePlayerResources_inv:
  assumes "game_inv L H C w" and "C \<longrightarrow> 0 \<le> cinnamon r"
    and "\<And>r w'. game_inv L H C w' \<Longrightarrow> Q r w'"
  shows "wp (savePlayerResources r) Q w"
  unfolding savePlayerResources_def
proof (rule wp_withRetry_inv [where I = "game_inv L H C"])
  show "game_inv L H C w" by fact
  show "game_inv L H C (w\<lparr>clock := clock w + d\<rparr>)" if "game_inv L H C w" for w d
    using that by (rule game_inv_later)
  show "Q r w'" if "game_inv L H C w'" for r w' using that by (rule assms(3))
  fix w assume g: "game_inv L H C w"
  let ?r = "r\<lparr>lastActive := clock w\<rparr>"
  have wr: "game_inv L H C ((tick w)\<lparr>store := (store w)
      (PLAYER_RESOURCES (username r) (subredditName_p r) \<mapsto> SPlayer ?r)\<rparr>)"
    by (rule game_inv_player_written [OF g, where p = "?r"
          and k = "PLAYER_RESOURCES (username r) (subredditName_p r)"])
       (use assms(2) in simp_all)
  have "wp (bind_io (updatePlayerIndex (username ?r) (subredditName_p ?r)) (\<lambda>_. return ?r))
          (\<lambda>r. game_inv L H C) w1" if "game_inv L H C w1" for w1
    unfolding wp_bind
    by (rule updatePlayerIndex_inv [OF that]) (simp split: sum.splits)
  from this [OF wr] g
  show "wp (bind_io Date_now (\<lambda>t.
        let resources' = r\<lparr>lastActive := t\<rparr> in
        bind_io (redis_set (PLAYER_RESOURCES (username resources') (subredditName_p resources'))
                   (SPlayer resources')) (\<lambda>_.
        bind_io (updatePlayerIndex (username resources') (subredditName_p resources')) (\<lambda>_.
        return resources')))) (\<lambda>r. game_inv L H C) w"
    by (cases "failing w") (simp_all add: wp_bind [of Date_now] wp_bind [of "redis_set _ _"] wp_redis_set Let_def)
qed

lemma validateResourceLimits_inv:
  assumes "\<And>e. Q (Inl e) w" and "0 \<le> cinnamon x \<Longrightarrow> Q (Inr ()) w"
  shows "wp (validateResourceLimits x) Q w"
  using assms by (simp add: validateResourceLimits_def)

lemma spread_PlayerResources_simps [simp]:
  "username (spread_PlayerResources r u) = username r"
  "subredditName_p (spread_PlayerResources r u) = subredditName_p r"
  "cinnamon (spread_PlayerResources r u) = or_else (u_cinnamon u) (cinnamon r)"
  "totalContributions (spread_PlayerResources r u) = or_else (u_totalContributions u) (totalContributions r)"
  by (simp_all add: spread_PlayerResources_def)

lemma updatePlayerResources_inv:
  assumes "game_inv L H C w" and "\<And>r w'. game_inv L H C w' \<Longrightarrow> Q r w'"
  shows "wp (updatePlayerResources u s upd) Q w"
  unfolding updatePlayerResources_def
  apply (rule wp_withRetry_inv [where I = "game_inv L H C", OF assms(1) game_inv_later], assumption)
   apply (simp add: wp_bind)
   apply (rule getPlayerResources_inv, assumption)
   subgoal for w0 r w'
     apply (cases r)
      apply simp
     subgoal for v
       apply (cases v)
        apply simp
       apply (simp add: wp_bind Let_def)
       apply (rule validateResourceLimits_inv)
        apply simp
       apply simp
       apply (rule savePlayerResources_inv, assumption)
        apply simp
       apply assumption
       done
     done
  apply (rule assms(2), assumption)
  done

lemma initializePlayerResources_inv:
  assumes "game_inv L H C w" and "\<And>r w'. game_inv L H C w' \<Longrightarrow> Q r w'"
  shows "wp (initializePlayerResources u s) Q w"
  unfolding initializePlayerResources_def wp_catch wp_bind
  apply (rule getPlayerResources_inv [OF assms(1)])
  subgoal for r w'
    apply (cases r)
     apply (simp add: assms(2))
    subgoal for v
      apply (cases v)
       apply (simp add: wp_bind)
       apply (rule savePlayerResources_inv, assumption)
        apply (simp add: STARTING_CINNAMON_def)
       apply (simp add: assms(2) split: sum.splits)
      apply (simp add: assms(2))
      done
    done
  done

lemma earnCinnamon_inv:
  assumes "game_inv L H C w" and "\<And>r w'. game_inv L H C w' \<Longrightarrow> Q r w'"
  shows "wp (earnCinnamon u s amount) Q w"
proof (cases "amount \<le> 0")
  case True
  with assms show ?thesis by (simp add: earnCinnamon_def)
next
  case False
  then show ?thesis
    unfolding earnCinnamon_def
    apply simp
    apply (rule wp_withRetry_inv [where I = "game_inv L H C", OF assms(1) game_inv_later], assumption)
     apply (simp add: wp_bind)
     apply (rule getPlayerResources_inv, assumption)
    subgoal for w0 r w'
      apply (cases r)
       apply simp
      subgoal for v
        apply (cases v)
         apply simp
        apply (simp add: Let_def)
        apply (rule updatePlayerResources_inv, assumption, assumption)
        done
      done
    apply (rule assms(2), assumption)
    done
qed

lemma spendCinnamon_inv:
  assumes "game_inv L H C w" and "\<And>r w'. game_inv L H C w' \<Longrightarrow> Q r w'"
  shows "wp (spendCinnamon u s amount) Q w"
proof (cases "amount \<le> 0")
  case True
  with assms show ?thesis by (simp add: spendCinnamon_def)
next
  case False
  then show ?thesis
    unfolding spendCinnamon_def
    apply simp
    apply (rule wp_withRetry_inv [where I = "game_inv L H C", OF assms(1) game_inv_later], assumption)
     apply (simp add: wp_bind)
     apply (rule getPlayerResources_inv, assumption)
    subgoal for w0 r w'
      apply (cases r)
       apply simp
      subgoal for v
        apply (cases v)
         apply simp
        apply (simp add: Let_def)
        apply (intro impI)
        apply (rule updatePlayerResources_inv, assumption, assumption)
        done
      done
    apply (rule assms(2), assumption)
    done
qed

lemma processActionTransaction_inv:
  assumes "game_inv L H C w" and "\<And>r w'. game_inv L H C w' \<Longrightarrow> Q r w'"
  shows "wp (processActionTransaction u s a) Q w"
  unfolding processActionTransaction_def
  apply (rule wp_withRetry_inv [where I = "game_inv L H C", OF assms(1) game_inv_later], assumption)
   apply (simp add: Let_def wp_bind)
   apply (intro conjI impI)
    apply (rule updatePlayerResources_inv, assumption, simp split: sum.splits)
   apply (rule spendCinnamon_inv, assumption, simp split: sum.splits)
  apply (rule assms(2), assumption)
  done

lemma spendCinnamon_insufficient_any:
  assumes st: "store w (PLAYER_RESOURCES u s) = Some (SPlayer p)" and low: "cinnamon p < amount"
  shows "wp (spendCinnamon u s amount) (\<lambda>r w'. (\<exists>e. r = Inl e) \<and> store w' = store w) w"
proof (cases "amount \<le> 0")
  case True
  then show ?thesis by (simp add: spendCinnamon_def)
next
  case False
  have "wp (spendCinnamon u s amount) (outcome (unchanged w) (\<lambda>_ _. False)) w"
    using False unfolding spendCinnamon_def
    apply simp
    apply (rule wp_withRetry)
      apply simp
     apply (erule unchanged_later)
    apply (simp add: wp_bind)
    subgoal for w0
      apply (rule wp_mono [OF getPlayerResources_spec [of u s w0]])
      subgoal for r w'
        using st low
        by (cases r) (auto simp: outcome_def unchanged_def split: option.splits Stored.splits)
      done
    done
  then show ?thesis
    by (rule wp_mono) (auto simp: outcome_def unchanged_def split: sum.splits)
qed

lemma cinnamon_ok_kept:
  assumes "cinnamon_ok w"
  shows "cinnamon_ok (snd (initializePlayerResources us s w))"
    "cinnamon_ok (snd (updatePlayerResources us s upd w))"
    "cinnamon_ok (snd (earnCinnamon us s amount w))"
    "cinnamon_ok (snd (spendCinnamon us s amount w))"
    "cinnamon_ok (snd (processActionTransaction us s t w))"
    "cinnamon_ok (snd (initializeGameState s w))"
    "cinnamon_ok (snd (updateGameState s u w))"
    "cinnamon_ok (snd (recordAction a w))"
proof -
  from assms have g: "game_inv False False True w" by (simp add: game_inv_def)
  have k: "game_inv False False True w' \<Longrightarrow> cinnamon_ok w'" for w'
    by (simp add: game_inv_def)
  show "cinnamon_ok (snd (initializePlayerResources us s w))"
    using initializePlayerResources_inv [OF g, of "\<lambda>r. cinnamon_ok"] k by (simp add: wp_def)
  show "cinnamon_ok (snd (updatePlayerResources us s upd w))"
    using updatePlayerResources_inv [OF g, of "\<lambda>r. cinnamon_ok"] k by (simp add: wp_def)
  show "cinnamon_ok (snd (earnCinnamon us s amount w))"
    using earnCinnamon_inv [OF g, of "\<lambda>r. cinnamon_ok"] k by (simp add: wp_def)
  show "cinnamon_ok (snd (spendCinnamon us s amount w))"
    using spendCinnamon_inv [OF g, of "\<lambda>r. cinnamon_ok"] k by (simp add: wp_def)
  show "cinnamon_ok (snd (processActionTransaction us s t w))"
    using processActionTransaction_inv [OF g, of "\<lambda>r. cinnamon_ok"] k by (simp add: wp_def)
  show "cinnamon_ok (snd (initializeGameState s w))"
    using initializeGameState_inv [OF g, of s] k by (simp add: wp_def)
  show "cinnamon_ok (snd (updateGameState s u w))"
    using updateGameState_inv [OF g, of "\<lambda>r. cinnamon_ok"] k by (simp add: wp_def)
  from recordAction_inv [OF g, of a]
  show "cinnamon_ok (snd (recordAction a w))"
    by (cases "fst (recordAction a w)") (simp_all add: wp_def game_inv_def outcome_def)
qed

lemma cinnamon_ok_alice_world: "cinnamon_ok alice_world"
  by (auto simp: cinnamon_ok_def alice_world_def empty_world_def alice_def split: if_splits)

lemma index_key_not_player [simp]:
  "PLAYER_INDEX s \<noteq> PLAYER_RESOURCES u s'" "PLAYER_RESOURCES u s' \<noteq> PLAYER_INDEX s"
proof -
  have "PLAYER_INDEX s ! 10 = CHR ''s''" "PLAYER_RESOURCES u s' ! 10 = CHR ''p''"
    by (simp_all add: PLAYER_INDEX_def PLAYER_RESOURCES_def)
  then show "PLAYER_INDEX s \<noteq> PLAYER_RESOURCES u s'" "PLAYER_RESOURCES u s' \<noteq> PLAYER_INDEX s"
    by auto
qed

lemma wp_withRetry_from:
  assumes start: "P w"
    and later: "\<And>w d. F w \<Longrightarrow> P (w\<lparr>clock := clock w + d\<rparr>)"
    and op: "\<And>w. P w \<Longrightarrow> wp operation (outcome F S) w"
  shows "wp (withRetry operation) (outcome F S) w"
proof -
  obtain r1 w1 where 1: "operation w = (r1, w1)" by (cases "operation w")
  obtain r2 w2 where 2: "operation (w1\<lparr>clock := clock w1 + 1000\<rparr>) = (r2, w2)"
    by (cases "operation (w1\<lparr>clock := clock w1 + 1000\<rparr>)")
  obtain r3 w3 where 3: "operation (w2\<lparr>clock := clock w2 + 2000\<rparr>) = (r3, w3)"
    by (cases "operation (w2\<lparr>clock := clock w2 + 2000\<rparr>)")
  from op [OF start] 1 have p1: "outcome F S r1 w1" by (simp add: wp_def)
  show ?thesis
  proof (cases r1)
    case (Inr v)
    with 1 p1 show ?thesis by (simp add: wp_def withRetry_unroll)
  next
    case e1: (Inl e1)
    with p1 have "F w1" by (simp add: outcome_def)
    from op [OF later [OF this, of 1000]] 2 have p2: "outcome F S r2 w2" by (simp add: wp_def)
    show ?thesis
    proof (cases r2)
      case (Inr v)
      with 1 2 e1 p2 show ?thesis by (simp add: wp_def withRetry_unroll)
    next
      case e2: (Inl e2)
      with p2 have "F w2" by (simp add: outcome_def)
      from op [OF later [OF this, of 2000]] 3 have p3: "outcome F S r3 w3" by (simp add: wp_def)
      with 1 2 3 e1 e2 show ?thesis
        by (cases r3) (simp_all add: wp_def withRetry_unroll outcome_def)
    qed
  qed
qed

lemma savePlayerResources_written:
  assumes "faults w = []"
  shows "\<exists>t. store (snd (savePlayerResources r w))
               (PLAYER_RESOURCES (username r) (subredditName_p r))
             = Some (SPlayer (r\<lparr>lastActive := t\<rparr>))"
proof -
  let ?k = "PLAYER_RESOURCES (username r) (subredditName_p r)"
  let ?W = "\<lambda>w'. faults w' = [] \<and> (\<exists>t. store w' ?k = Some (SPlayer (r\<lparr>lastActive := t\<rparr>)))"
  have "wp (savePlayerResources r) (outcome ?W (\<lambda>_. ?W)) w"
    unfolding savePlayerResources_def
  proof (rule wp_withRetry_from [where P = "\<lambda>w'. faults w' = []"])
    show "faults w = []" by fact
    show "faults (w\<lparr>clock := clock w + d\<rparr>) = []" if "?W w" for w :: World and d
      using that by simp
    fix w :: World assume f: "faults w = []"
    show "wp (bind_io Date_now (\<lambda>t.
        let resources' = r\<lparr>lastActive := t\<rparr> in
        bind_io (redis_set (PLAYER_RESOURCES (username resources') (subredditName_p resources'))
                   (SPlayer resources')) (\<lambda>_.
        bind_io (updatePlayerIndex (username resources') (subredditName_p resources')) (\<lambda>_.
        return resources')))) (outcome ?W (\<lambda>_. ?W)) w"
      using f
      by (auto simp: wp_bind wp_redis_set wp_redis_get Let_def updatePlayerIndex_def outcome_def
          split: option.splits Stored.splits)
  qed
  then show ?thesis
    by (cases "fst (savePlayerResources r w)") (auto simp: wp_def outcome_def)
qed


lemma savePlayerResources_kept:
  assumes "cinnamon_ok w" and "0 \<le> cinnamon r"
  shows "cinnamon_ok (snd (savePlayerResources r w))"
proof -
  from assms(1) have g: "game_inv False False True w" by (simp add: game_inv_def)
  have "wp (savePlayerResources r) (\<lambda>_. cinnamon_ok) w"
    by (rule savePlayerResources_inv [OF g]) (simp_all add: assms(2) game_inv_def)
  then show ?thesis by (simp add: wp_def)
qed

lemma savePlayerResources_negative:
  "savePlayerResources (alice\<lparr>cinnamon := - 5\<rparr>) alice_world =
     (Inr (alice\<lparr>cinnamon := - 5\<rparr>),
      alice_world\<lparr>calls := 3,
        store := [PLAYER_RESOURCES ''alice'' ''testsub'' \<mapsto> SPlayer (alice\<lparr>cinnamon := - 5\<rparr>),
                  PLAYER_INDEX ''testsub'' \<mapsto> SArray [IName ''alice'']]\<rparr>)"
  unfolding savePlayerResources_def
  by (rule withRetry_success)
     (simp add: bind_io_def Date_now_def redis_set_ok redis_get_ok updatePlayerIndex_def Let_def
        return_def alice_world_def empty_world_def alice_def)

text \<open>
  Claim C6, as the code has it.  When the stored balance of a player is below the amount asked
  for, \<open>spendCinnamon\<close> ends in an error and the store is as it was, whatever the store does in
  between; when the store answers and the amount is positive the error carries the
  insufficient-resources message, behind the prefix of the retry wrapper.  If no persisted
  player record has a negative balance, none has one after a call that validates before it
  writes: the calls of PlayerResourceService that go through \<open>updatePlayerResources\<close>, awards
  included, and those of RedisGameService.  \<open>savePlayerResources\<close> itself, a public method,
  does not validate: it keeps the balances non-negative only when the record it is given has a
  non-negative balance, and when the store answers it persists that record as it is, with a
  fresh \<open>lastActive\<close>.
\<close>

theorem C6_spend_floor:
  "(store w (PLAYER_RESOURCES us s) = Some (SPlayer p) \<and> cinnamon p < amount \<longrightarrow>
      (\<exists>e. fst (spendCinnamon us s amount w) = Inl e)
      \<and> store (snd (spendCinnamon us s amount w)) = store w
      \<and> (faults w = [] \<and> 0 < amount \<longrightarrow>
           fst (spendCinnamon us s amount w) =
             Inl (REDIS_CONNECTION_ERROR @ '': '' @ INSUFFICIENT_RESOURCES)))
   \<and> (cinnamon_ok w \<longrightarrow>
        cinnamon_ok (snd (initializePlayerResources us s w))
      \<and> cinnamon_ok (snd (updatePlayerResources us s upd w))
      \<and> cinnamon_ok (snd (earnCinnamon us s amount w))
      \<and> cinnamon_ok (snd (spendCinnamon us s amount w))
      \<and> cinnamon_ok (snd (awardDailyBonus us s w))
      \<and> cinnamon_ok (snd (awardUpvoteCinnamon us s upvotes w))
      \<and> cinnamon_ok (snd (processActionTransaction us s t w))
      \<and> cinnamon_ok (snd (initializeGameState s w))
      \<and> cinnamon_ok (snd (updateGameState s u w))
      \<and> cinnamon_ok (snd (recordAction a w))
      \<and> (0 \<le> cinnamon r \<longrightarrow> cinnamon_ok (snd (savePlayerResources r w))))
   \<and> (faults w = [] \<longrightarrow>
        (\<exists>now. store (snd (savePlayerResources r w))
                 (PLAYER_RESOURCES (username r) (subredditName_p r))
               = Some (SPlayer (r\<lparr>lastActive := now\<rparr>))))"
proof (intro conjI impI)
  assume a: "store w (PLAYER_RESOURCES us s) = Some (SPlayer p) \<and> cinnamon p < amount"
  then have st: "store w (PLAYER_RESOURCES us s) = Some (SPlayer p)" and low: "cinnamon p < amount"
    by simp_all
  from spendCinnamon_insufficient_any [OF st low]
  show "\<exists>e. fst (spendCinnamon us s amount w) = Inl e"
    and "store (snd (spendCinnamon us s amount w)) = store w"
    by (simp_all add: wp_def)
  assume "faults w = [] \<and> 0 < amount"
  with spendCinnamon_insufficient_retried [OF _ st low]
  show "fst (spendCinnamon us s amount w) =
             Inl (REDIS_CONNECTION_ERROR @ '': '' @ INSUFFICIENT_RESOURCES)"
    by (simp add: connection_error_def INSUFFICIENT_RESOURCES_def)
next
  assume c: "cinnamon_ok w"
  show "cinnamon_ok (snd (awardDailyBonus us s w))"
    unfolding awardDailyBonus_def by (rule cinnamon_ok_kept [OF c])
  show "cinnamon_ok (snd (awardUpvoteCinnamon us s upvotes w))"
    unfolding awardUpvoteCinnamon_def Let_def by (rule cinnamon_ok_kept [OF c])
  show "cinnamon_ok (snd (savePlayerResources r w))" if "0 \<le> cinnamon r"
    using c that by (rule savePlayerResources_kept)
next
  assume "faults w = []"
  then show "\<exists>now. store (snd (savePlayerResources r w))
                 (PLAYER_RESOURCES (username r) (subredditName_p r))
               = Some (SPlayer (r\<lparr>lastActive := now\<rparr>))"
    by (rule savePlayerResources_written)
qed (simp_all add: cinnamon_ok_kept)

theorem C6_spend_floor_witness:
  "store alice_world (PLAYER_RESOURCES ''alice'' ''testsub'') = Some (SPlayer alice)
   \<and> cinnamon alice < 5
   \<and> fst (spendCinnamon ''alice'' ''testsub'' 5 alice_world) =
       Inl ''Database connection error: Not enough cinnamon to perform this action''
   \<and> store (snd (spendCinnamon ''alice'' ''testsub'' 5 alice_world)) = store alice_world
   \<and> cinnamon_ok alice_world
   \<and> cinnamon_ok (snd (spendCinnamon ''alice'' ''testsub'' 2 alice_world))
   \<and> 0 \<le> cinnamon alice
   \<and> cinnamon_ok (snd (savePlayerResources alice alice_world))
   \<and> faults alice_world = []
   \<and> (\<exists>now. store (snd (savePlayerResources alice alice_world))
                (PLAYER_RESOURCES ''alice'' ''testsub'')
              = Some (SPlayer (alice\<lparr>lastActive := now\<rparr>)))"
proof -
  have h: "store alice_world (PLAYER_RESOURCES ''alice'' ''testsub'') = Some (SPlayer alice)
      \<and> cinnamon alice < 5"
    by (simp add: alice_world_simps)
  note inst = C6_spend_floor [where w = alice_world and us = "''alice''" and s = "''testsub''"
      and p = alice and r = alice]
  from inst [where amount = 5, THEN conjunct1] h
  have "fst (spendCinnamon ''alice'' ''testsub'' 5 alice_world) =
       Inl (REDIS_CONNECTION_ERROR @ '': '' @ INSUFFICIENT_RESOURCES)
     \<and> store (snd (spendCinnamon ''alice'' ''testsub'' 5 alice_world)) = store alice_world"
    by (simp add: alice_world_simps)
  moreover from inst [where amount = 2, THEN conjunct2, THEN conjunct1] cinnamon_ok_alice_world
  have "cinnamon_ok (snd (spendCinnamon ''alice'' ''testsub'' 2 alice_world))
      \<and> cinnamon_ok (snd (savePlayerResources alice alice_world))"
    by (simp add: alice_world_simps)
  moreover from inst [where amount = 2, THEN conjunct2, THEN conjunct2]
  have "\<exists>now. store (snd (savePlayerResources alice alice_world))
                (PLAYER_RESOURCES ''alice'' ''testsub'')
              = Some (SPlayer (alice\<lparr>lastActive := now\<rparr>))"
    by (simp add: alice_world_simps alice_def)
  ultimately show ?thesis
    using h cinnamon_ok_alice_world
    by (simp add: REDIS_CONNECTION_ERROR_def INSUFFICIENT_RESOURCES_def alice_world_simps)
qed

text \<open>
  Claim C6 as it is written fails: the persisted balance can be negative after an operation.
  \<open>savePlayerResources\<close> called with a record whose balance is \<open>-5\<close> returns normally and the
  store then holds that record.
\<close>

theorem C6_save_negative:
  "cinnamon_ok alice_world
   \<and> fst (savePlayerResources (alice\<lparr>cinnamon := - 5\<rparr>) alice_world)
       = Inr (alice\<lparr>cinnamon := - 5\<rparr>)
   \<and> store (snd (savePlayerResources (alice\<lparr>cinnamon := - 5\<rparr>) alice_world))
         (PLAYER_RESOURCES ''alice'' ''testsub'')
       = Some (SPlayer (alice\<lparr>cinnamon := - 5\<rparr>))
   \<and> \<not> cinnamon_ok (snd (savePlayerResources (alice\<lparr>cinnamon := - 5\<rparr>) alice_world))"
proof -
  have "\<not> cinnamon_ok (snd (savePlayerResources (alice\<lparr>cinnamon := - 5\<rparr>) alice_world))"
    unfolding cinnamon_ok_def savePlayerResources_negative
    by (auto intro!: exI [of _ "PLAYER_RESOURCES ''alice'' ''testsub''"])
  then show ?thesis
    using cinnamon_ok_alice_world by (simp add: savePlayerResources_negative)
qed

section \<open>Template processing\<close>

lemma not_word_punct [simp]:
  "\<not> is_word CHR ''{''" "\<not> is_word CHR ''}''" "\<not> is_word CHR ''.''"
  by (simp_all add: is_word_def)

lemma starts_with_simps [simp]:
  "starts_with P [] = False" "starts_with P (c # cs) = P c"
  by (simp_all add: starts_with_def)

lemma starts_with_hd: "starts_with P s \<longleftrightarrow> s \<noteq> [] \<and> P (hd s)"
  by (cases s) simp_all

lemma starts_with_append:
  "starts_with P (xs @ ys) = (if xs = [] then starts_with P ys else starts_with P xs)"
  by (cases xs) simp_all

text \<open>A match is found where a placeholder stands.\<close>

lemma scan_path_dotted:
  "dotted_tail seg p \<Longrightarrow> scan_path seg acc (p @ ''}}'' @ sfx) = Some (acc @ p)"
proof (induction p arbitrary: seg acc)
  case Nil
  then show ?case by simp
next
  case (Cons c cs)
  show ?case
  proof (cases "is_word c")
    case True
    with Cons.prems have "dotted_tail True cs" by simp
    from Cons.IH [OF this, of "acc @ [c]"] True show ?thesis by simp
  next
    case False
    with Cons.prems have c: "c = CHR ''.''" "seg" "starts_with is_word cs" "dotted_tail False cs"
      by simp_all
    from c(3) have "starts_with is_word (cs @ ''}}'' @ sfx)"
      by (cases cs) simp_all
    with Cons.IH [OF c(4), of "acc @ [c]"] c(1,2) show ?thesis by simp
  qed
qed

lemma split_on_not_Nil [simp]: "split_on d s \<noteq> []"
  by (induction s) (auto split: list.splits)

lemma split_on_Cons:
  "split_on d (c # cs) =
     (if c = d then [] # split_on d cs
      else (c # hd (split_on d cs)) # tl (split_on d cs))"
  by (cases "split_on d cs") simp_all

lemma split_on_head:
  "hd (split_on d s) \<noteq> [] \<Longrightarrow> s \<noteq> [] \<and> hd s \<noteq> d \<and> hd (hd (split_on d s)) = hd s"
  by (cases s) (auto simp: split_on_Cons simp del: split_on.simps(2))

lemma dotted_tail_pieces:
  assumes "\<forall>c \<in> set (hd (split_on CHR ''.'' p)). is_word c"
    and "hd (split_on CHR ''.'' p) \<noteq> [] \<or> seg"
    and "\<forall>piece \<in> set (tl (split_on CHR ''.'' p)). piece \<noteq> [] \<and> (\<forall>c \<in> set piece. is_word c)"
  shows "dotted_tail seg p"
  using assms
proof (induction p arbitrary: seg)
  case Nil
  then show ?case by simp
next
  case (Cons c cs)
  show ?case
  proof (cases "c = CHR ''.''")
    case True
    with Cons.prems have seg: "seg"
      and rest: "\<forall>piece \<in> set (split_on CHR ''.'' cs). piece \<noteq> [] \<and> (\<forall>c \<in> set piece. is_word c)"
      by (simp_all add: split_on_Cons del: split_on.simps(2))
    from rest have h: "hd (split_on CHR ''.'' cs) \<noteq> []" "\<forall>c \<in> set (hd (split_on CHR ''.'' cs)). is_word c"
      and t: "\<forall>piece \<in> set (tl (split_on CHR ''.'' cs)). piece \<noteq> [] \<and> (\<forall>c \<in> set piece. is_word c)"
      by (cases "split_on CHR ''.'' cs"; simp)+
    from h have "is_word (hd (hd (split_on CHR ''.'' cs)))"
      by simp
    with split_on_head [OF h(1)] have "starts_with is_word cs"
      by (simp add: starts_with_hd)
    moreover from Cons.IH [of False] h t have "dotted_tail False cs" by blast
    ultimately show ?thesis using True seg by simp
  next
    case False
    with Cons.prems have w: "is_word c" "\<forall>c \<in> set (hd (split_on CHR ''.'' cs)). is_word c"
      and t: "\<forall>piece \<in> set (tl (split_on CHR ''.'' cs)). piece \<noteq> [] \<and> (\<forall>c \<in> set piece. is_word c)"
      by (simp_all add: split_on_Cons del: split_on.simps(2))
    from Cons.IH [of True] w(2) t have "dotted_tail True cs" by blast
    with w(1) show ?thesis by simp
  qed
qed

lemma dotted_path_tail: "dotted_path p \<Longrightarrow> dotted_tail False p"
  by (rule dotted_tail_pieces; cases "split_on CHR ''.'' p") (auto simp: dotted_path_def)

lemma match_placeholder_dotted:
  "dotted_path p \<Longrightarrow> match_placeholder (''{{'' @ p @ ''}}'' @ sfx) = Some (p, length p + 4)"
  using scan_path_dotted [of False p "[]" sfx]
  by (simp add: match_placeholder_def dotted_path_tail)

text \<open>A match does not reach into an opening brace that follows.\<close>

lemma scan_path_before_brace:
  "scan_path seg acc (s @ CHR ''{'' # z) = scan_path seg acc s"
proof (induction s arbitrary: seg acc)
  case Nil
  show ?case by simp
next
  case (Cons c cs)
  have "starts_with is_word (cs @ CHR ''{'' # z) = starts_with is_word cs"
    "starts_with (\<lambda>d. d = CHR ''}'') (cs @ CHR ''{'' # z) = starts_with (\<lambda>d. d = CHR ''}'') cs"
    by (cases cs; simp)+
  with Cons.IH show ?case by simp
qed

lemma match_placeholder_before_braces:
  "pre \<noteq> [] \<Longrightarrow> match_placeholder (pre @ ''{{'' @ y) = match_placeholder pre"
proof (cases pre)
  case Nil
  assume "pre \<noteq> []"
  with Nil show ?thesis by simp
next
  case (Cons c1 r1)
  show ?thesis
  proof (cases r1)
    case Nil
    with Cons show ?thesis by (simp add: match_placeholder_def)
  next
    case (Cons c2 rest)
    with \<open>pre = c1 # r1\<close> scan_path_before_brace [of False "[]" rest "CHR ''{'' # y"]
    show ?thesis by (simp add: match_placeholder_def)
  qed
qed

text \<open>A match lies within the text.\<close>

lemma scan_path_length:
  "scan_path seg acc s = Some p \<Longrightarrow> length p + 2 \<le> length acc + length s"
proof (induction s arbitrary: seg acc)
  case Nil
  then show ?case by simp
next
  case (Cons c cs)
  show ?case
  proof (cases "is_word c")
    case True
    with Cons.prems have "scan_path True (acc @ [c]) cs = Some p" by simp
    from Cons.IH [OF this] show ?thesis by simp
  next
    case nw: False
    show ?thesis
    proof (cases "c = CHR ''.'' \<and> seg \<and> starts_with is_word cs")
      case True
      with nw Cons.prems have "scan_path False (acc @ [c]) cs = Some p" by simp
      from Cons.IH [OF this] show ?thesis by simp
    next
      case nd: False
      show ?thesis
      proof (cases "c = CHR ''}'' \<and> seg \<and> starts_with (\<lambda>d. d = CHR ''}'') cs")
        case True
        with nw nd Cons.prems have "p = acc" by simp
        moreover from True have "cs \<noteq> []" by (cases cs) simp_all
        ultimately show ?thesis by (cases cs) simp_all
      next
        case False
        with nw nd Cons.prems show ?thesis by (simp split: if_splits)
      qed
    qed
  qed
qed

lemma match_placeholder_length:
  "match_placeholder s = Some (p, n) \<Longrightarrow> n \<le> length s \<and> 0 < n"
  by (auto simp: match_placeholder_def split: list.splits if_splits option.splits
      dest: scan_path_length)

lemma String_replace_match:
  assumes "match_placeholder s = Some (q, n)"
  shows "String_replace f s = f (take n s) q @ String_replace f (drop n s)"
proof (cases s)
  case Nil
  with assms show ?thesis by (simp add: match_placeholder_def)
next
  case (Cons c cs)
  from match_placeholder_length [OF assms] have "0 < n" by simp
  then have "drop n (c # cs) = drop (n - 1) cs" by (simp add: drop_Cons')
  with assms Cons show ?thesis by simp
qed

lemma String_replace_no_match:
  "match_placeholder (c # cs) = None \<Longrightarrow> String_replace f (c # cs) = c # String_replace f cs"
  by simp

lemma String_replace_placeholder:
  assumes "dotted_path p"
  shows "String_replace f (pre @ ''{{'' @ p @ ''}}'' @ sfx) =
         String_replace f pre @ f (''{{'' @ p @ ''}}'') p @ String_replace f sfx"
proof (induction pre rule: length_induct)
  case (1 pre)
  let ?m = "''{{'' @ p @ ''}}''"
  let ?x = "''{{'' @ p @ ''}}'' @ sfx"
  have x: "?x = ?m @ sfx" by simp
  show ?case
  proof (cases pre)
    case Nil
    have l: "length p + 4 = length ?m" by simp
    have tk: "take (length m) (m @ sfx) = m" "drop (length m) (m @ sfx) = sfx" for m :: string
      by simp_all
    have "match_placeholder ?x = Some (p, length p + 4)"
      using match_placeholder_dotted [OF assms, of sfx] by simp
    from String_replace_match [OF this, of f]
    have "String_replace f ?x = f (take (length ?m) ?x) p @ String_replace f (drop (length ?m) ?x)"
      unfolding l .
    then have "String_replace f ?x = f ?m p @ String_replace f sfx"
      unfolding x tk .
    with Nil show ?thesis by simp
  next
    case (Cons c cs)
    have m: "match_placeholder ((c # cs) @ ?x) = match_placeholder (c # cs)"
      using match_placeholder_before_braces [of "c # cs" "p @ ''}}'' @ sfx"] by simp
    show ?thesis
    proof (cases "match_placeholder (c # cs)")
      case None
      from 1 Cons have "String_replace f (cs @ ?x) =
         String_replace f cs @ f ?m p @ String_replace f sfx"
        by simp
      with None m Cons String_replace_no_match [of c cs f]
        String_replace_no_match [of c "cs @ ?x" f] show ?thesis by simp
    next
      case (Some a)
      obtain q n where a: "a = (q, n)" by (cases a)
      with Some have s1: "match_placeholder (c # cs) = Some (q, n)" by simp
      with m have s2: "match_placeholder ((c # cs) @ ?x) = Some (q, n)" by simp
      from match_placeholder_length [OF s1] have n: "n \<le> length (c # cs)"
        by simp
      have "drop n (xs @ ys) = drop n xs @ ys \<and> take n (xs @ ys) = take n xs"
        if "n \<le> length xs" for xs ys :: string
        using that by simp
      from this [OF n, of ?x]
      have d: "drop n ((c # cs) @ ?x) = drop n (c # cs) @ ?x"
        and t: "take n ((c # cs) @ ?x) = take n (c # cs)"
        by blast+
      have "length (drop n (c # cs)) < length pre"
        using match_placeholder_length [OF s1] Cons by simp
      with 1 have "String_replace f (drop n (c # cs) @ ?x) =
         String_replace f (drop n (c # cs)) @ f ?m p @ String_replace f sfx"
        by blast
      with String_replace_match [OF s1, of f] String_replace_match [OF s2, of f] d t Cons
      show ?thesis by simp
    qed
  qed
qed


lemma level3_examples:
  "processTemplate own_property String_of ''Level {{gameState.treeLevel}}'' level3_context
     = ''Level 3''"
  "processTemplate own_property String_of ''{{missing.path}}'' level3_context
     = ''{{missing.path}}''"
  "getNestedValue own_property level3_context ''gameState.treeLevel'' = JNum 3"
  "getNestedValue own_property level3_context ''missing.path'' = JUndefined"
  "dotted_path ''gameState.treeLevel''" "dotted_path ''missing.path''"
  by code_simp+

text \<open>
  Claim C9.  Wherever a template holds \<open>{{path}}\<close> for a path of words joined by dots, the
  output holds, at that place, the string form of the value the path resolves to in the
  context or, when the path resolves to \<open>undefined\<close>, the placeholder itself; what stands
  before and behind the placeholder is processed on its own.  This is so whatever the property
  read and the string conversion of the language are.  With the context
  \<open>{gameState: {treeLevel: 3}}\<close> the template ``Level {{gameState.treeLevel}}'' gives
  ``Level 3'' and ``{{missing.path}}'' stays as it is.
\<close>

theorem C9_template_placeholders:
  assumes "dotted_path p"
  shows "processTemplate prop String (pre @ ''{{'' @ p @ ''}}'' @ sfx) context =
           processTemplate prop String pre context
           @ (if getNestedValue prop context p = JUndefined then ''{{'' @ p @ ''}}''
              else String (getNestedValue prop context p))
           @ processTemplate prop String sfx context
       \<and> processTemplate own_property String_of ''Level {{gameState.treeLevel}}'' level3_context
           = ''Level 3''
       \<and> processTemplate own_property String_of ''{{missing.path}}'' level3_context
           = ''{{missing.path}}''"
proof -
  have "processTemplate prop String (pre @ ''{{'' @ p @ ''}}'' @ sfx) context =
           processTemplate prop String pre context
           @ (if getNestedValue prop context p = JUndefined then ''{{'' @ p @ ''}}''
              else String (getNestedValue prop context p))
           @ processTemplate prop String sfx context"
    unfolding processTemplate_def String_replace_placeholder [OF assms]
    by (simp add: Let_def)
  with level3_examples(1,2) show ?thesis by blast
qed

theorem C9_template_placeholders_witness:
  "dotted_path ''gameState.treeLevel''
   \<and> processTemplate own_property String_of
        (''Now at level '' @ ''{{'' @ ''gameState.treeLevel'' @ ''}}'' @ ''!'') level3_context
      = ''Now at level 3!''
   \<and> dotted_path ''missing.path''
   \<and> processTemplate own_property String_of
        (''Now at '' @ ''{{'' @ ''missing.path'' @ ''}}'' @ ''!'') level3_context
      = ''Now at {{missing.path}}!''"
proof -
  have plain: "processTemplate own_property String_of ''Now at level '' level3_context = ''Now at level ''"
    "processTemplate own_property String_of ''Now at '' level3_context = ''Now at ''"
    "processTemplate own_property String_of ''!'' level3_context = ''!''"
    "show_nat 3 = ''3''"
    by code_simp+
  from C9_template_placeholders [OF level3_examples(5), of own_property String_of
      "''Now at level ''" "''!''" level3_context]
    C9_template_placeholders [OF level3_examples(6), of own_property String_of
      "''Now at ''" "''!''" level3_context]
  show ?thesis
    by (simp add: plain level3_examples(3,4,5,6))
qed

end
